theory Spec2Isabelle
  imports Complex_Main "HOL-Library.Monad_Syntax" "HOL-Library.Log_Nat"
begin

section \<open>Cube state model and move transform engine (animations.js)\<close>

text \<open>
  A sticker is a colour-name string; \<open>Null\<close> is the filler that \<open>rotate2DArray\<close>
  puts into a fresh array before it writes the rotated cells.  A face is the
  \<open>colors\<close> array of a face object: an array of rows.  A cube state is the object
  with the six face keys.  Other fields a face object may carry are copied unchanged
  by the engine and are not part of the model.
\<close>

datatype cell = Label string | Null

type_synonym grid = "cell list list"

record CubeState =
  front_colors :: grid
  back_colors :: grid
  up_colors :: grid
  down_colors :: grid
  left_colors :: grid
  right_colors :: grid

datatype face_name = Front | Back | Up | Down | Left | Right

fun colorsOf :: "CubeState \<Rightarrow> face_name \<Rightarrow> grid" where
  "colorsOf s Front = front_colors s"
| "colorsOf s Back = back_colors s"
| "colorsOf s Up = up_colors s"
| "colorsOf s Down = down_colors s"
| "colorsOf s Left = left_colors s"
| "colorsOf s Right = right_colors s"

fun setColorsOf :: "face_name \<Rightarrow> grid \<Rightarrow> CubeState \<Rightarrow> CubeState" where
  "setColorsOf Front g s = s\<lparr>front_colors := g\<rparr>"
| "setColorsOf Back g s = s\<lparr>back_colors := g\<rparr>"
| "setColorsOf Up g s = s\<lparr>up_colors := g\<rparr>"
| "setColorsOf Down g s = s\<lparr>down_colors := g\<rparr>"
| "setColorsOf Left g s = s\<lparr>left_colors := g\<rparr>"
| "setColorsOf Right g s = s\<lparr>right_colors := g\<rparr>"

text \<open>
  Array accesses.  The result \<open>None\<close> stands for every run that does not end in a
  grid of cells: reading \<open>a[i][j]\<close> with row \<open>i\<close> absent raises a TypeError, and with
  column \<open>j\<close> absent yields \<open>undefined\<close>; writing past the end of a row would extend it.
\<close>

definition getCell :: "grid \<Rightarrow> nat \<Rightarrow> nat \<Rightarrow> cell option" where
  "getCell a i j = (if i < length a \<and> j < length (a ! i) then Some (a ! i ! j) else None)"

definition setCell :: "grid \<Rightarrow> nat \<Rightarrow> nat \<Rightarrow> cell \<Rightarrow> grid option" where
  "setCell a i j v =
     (if i < length a \<and> j < length (a ! i) then Some (a[i := (a ! i)[j := v]]) else None)"

text \<open>A \<open>for\<close> loop over a list of indices, threading the state, stopping at a failure.\<close>

fun forEachM :: "'a list \<Rightarrow> ('a \<Rightarrow> 's \<Rightarrow> 's option) \<Rightarrow> 's \<Rightarrow> 's option" where
  "forEachM [] body s = Some s"
| "forEachM (x # xs) body s =
     (case body x s of None \<Rightarrow> None | Some s' \<Rightarrow> forEachM xs body s')"

text \<open>
  \<open>rotate2DArray(array, clockwise)\<close>: \<open>n = array.length\<close>, a fresh \<open>n\<close> by \<open>n\<close> array of
  \<open>null\<close>, then \<open>rotated[j][n-1-i] = array[i][j]\<close> (clockwise) or
  \<open>rotated[n-1-j][i] = array[i][j]\<close> (counter-clockwise) for all \<open>i, j < n\<close>.
\<close>

definition rotate2DArray :: "grid \<Rightarrow> bool \<Rightarrow> grid option" where
  "rotate2DArray array clockwise =
     (let n = length array;
          rotated = replicate n (replicate n Null)
      in if clockwise then
           forEachM [0..<n] (\<lambda>i. forEachM [0..<n] (\<lambda>j rot.
             do { v \<leftarrow> getCell array i j; setCell rot j (n - 1 - i) v })) rotated
         else
           forEachM [0..<n] (\<lambda>i. forEachM [0..<n] (\<lambda>j rot.
             do { v \<leftarrow> getCell array i j; setCell rot (n - 1 - j) i v })) rotated)"

text \<open>
  The three kinds of statement in the face rotations: reading a sticker
  (\<open>cubeState.f.colors[i][j]\<close>), writing one, and the assignment
  \<open>cubeState.f.colors[i][j] = cubeState.f'.colors[i'][j']\<close>.  They are written against a
  store given by its read and its write, so that the same statements run on a cube state
  taken as a value (here) and on a heap of objects (further down).
\<close>

record 's store =
  rd :: "'s \<Rightarrow> face_name \<Rightarrow> nat \<Rightarrow> nat \<Rightarrow> cell option"
  wr :: "face_name \<Rightarrow> nat \<Rightarrow> nat \<Rightarrow> cell \<Rightarrow> 's \<Rightarrow> 's option"

definition mv ::
  "'s store \<Rightarrow> face_name \<Rightarrow> nat \<Rightarrow> nat \<Rightarrow> face_name \<Rightarrow> nat \<Rightarrow> nat \<Rightarrow> 's \<Rightarrow> 's option" where
  "mv M f i j f' i' j' s = do { v \<leftarrow> rd M s f' i' j'; wr M f i j v s }"

definition readSticker :: "CubeState \<Rightarrow> face_name \<Rightarrow> nat \<Rightarrow> nat \<Rightarrow> cell option" where
  "readSticker s f i j = getCell (colorsOf s f) i j"

definition writeSticker :: "face_name \<Rightarrow> nat \<Rightarrow> nat \<Rightarrow> cell \<Rightarrow> CubeState \<Rightarrow> CubeState option" where
  "writeSticker f i j v s = map_option (\<lambda>g. setColorsOf f g s) (setCell (colorsOf s f) i j v)"

definition valueStore :: "CubeState store" where
  "valueStore = \<lparr>rd = readSticker, wr = writeSticker\<rparr>"

text \<open>
  Each face rotation: the turned face's own grid is replaced by its rotation, then the
  statements on the four adjacent edges run (\<open>frontEdges\<close>, ...), exactly in the order of
  the source.
\<close>

definition frontEdges :: "'s store \<Rightarrow> bool \<Rightarrow> 's \<Rightarrow> 's option" where
  "frontEdges M clockwise s =
     (if clockwise then do {
         t0 \<leftarrow> rd M s Up 2 0; t1 \<leftarrow> rd M s Up 2 1; t2 \<leftarrow> rd M s Up 2 2;
         s \<leftarrow> mv M Up 2 0 Left 0 2 s;
         s \<leftarrow> mv M Up 2 1 Left 1 2 s;
         s \<leftarrow> mv M Up 2 2 Left 2 2 s;
         s \<leftarrow> mv M Left 0 2 Down 0 2 s;
         s \<leftarrow> mv M Left 1 2 Down 0 1 s;
         s \<leftarrow> mv M Left 2 2 Down 0 0 s;
         s \<leftarrow> mv M Down 0 0 Right 2 0 s;
         s \<leftarrow> mv M Down 0 1 Right 1 0 s;
         s \<leftarrow> mv M Down 0 2 Right 0 0 s;
         s \<leftarrow> wr M Right 0 0 t0 s;
         s \<leftarrow> wr M Right 1 0 t1 s;
         wr M Right 2 0 t2 s
      } else do {
         t0 \<leftarrow> rd M s Up 2 0; t1 \<leftarrow> rd M s Up 2 1; t2 \<leftarrow> rd M s Up 2 2;
         s \<leftarrow> mv M Up 2 0 Right 0 0 s;
         s \<leftarrow> mv M Up 2 1 Right 1 0 s;
         s \<leftarrow> mv M Up 2 2 Right 2 0 s;
         s \<leftarrow> mv M Right 0 0 Down 0 2 s;
         s \<leftarrow> mv M Right 1 0 Down 0 1 s;
         s \<leftarrow> mv M Right 2 0 Down 0 0 s;
         s \<leftarrow> mv M Down 0 0 Left 2 2 s;
         s \<leftarrow> mv M Down 0 1 Left 1 2 s;
         s \<leftarrow> mv M Down 0 2 Left 0 2 s;
         s \<leftarrow> wr M Left 0 2 t0 s;
         s \<leftarrow> wr M Left 1 2 t1 s;
         wr M Left 2 2 t2 s
      })"

definition rotateFrontFace :: "CubeState \<Rightarrow> bool \<Rightarrow> CubeState option" where
  "rotateFrontFace cubeState clockwise = do {
     rotated \<leftarrow> rotate2DArray (front_colors cubeState) clockwise;
     frontEdges valueStore clockwise (cubeState\<lparr>front_colors := rotated\<rparr>)
   }"

definition backEdges :: "'s store \<Rightarrow> bool \<Rightarrow> 's \<Rightarrow> 's option" where
  "backEdges M clockwise s =
     (if clockwise then do {
         t0 \<leftarrow> rd M s Up 0 0; t1 \<leftarrow> rd M s Up 0 1; t2 \<leftarrow> rd M s Up 0 2;
         s \<leftarrow> mv M Up 0 0 Right 0 2 s;
         s \<leftarrow> mv M Up 0 1 Right 1 2 s;
         s \<leftarrow> mv M Up 0 2 Right 2 2 s;
         s \<leftarrow> mv M Right 0 2 Down 2 2 s;
         s \<leftarrow> mv M Right 1 2 Down 2 1 s;
         s \<leftarrow> mv M Right 2 2 Down 2 0 s;
         s \<leftarrow> mv M Down 2 0 Left 2 0 s;
         s \<leftarrow> mv M Down 2 1 Left 1 0 s;
         s \<leftarrow> mv M Down 2 2 Left 0 0 s;
         s \<leftarrow> wr M Left 0 0 t2 s;
         s \<leftarrow> wr M Left 1 0 t1 s;
         wr M Left 2 0 t0 s
      } else do {
         t0 \<leftarrow> rd M s Up 0 0; t1 \<leftarrow> rd M s Up 0 1; t2 \<leftarrow> rd M s Up 0 2;
         s \<leftarrow> mv M Up 0 0 Left 2 0 s;
         s \<leftarrow> mv M Up 0 1 Left 1 0 s;
         s \<leftarrow> mv M Up 0 2 Left 0 0 s;
         s \<leftarrow> mv M Left 0 0 Down 2 0 s;
         s \<leftarrow> mv M Left 1 0 Down 2 1 s;
         s \<leftarrow> mv M Left 2 0 Down 2 2 s;
         s \<leftarrow> mv M Down 2 0 Right 2 2 s;
         s \<leftarrow> mv M Down 2 1 Right 1 2 s;
         s \<leftarrow> mv M Down 2 2 Right 0 2 s;
         s \<leftarrow> wr M Right 0 2 t0 s;
         s \<leftarrow> wr M Right 1 2 t1 s;
         wr M Right 2 2 t2 s
      })"

definition rotateBackFace :: "CubeState \<Rightarrow> bool \<Rightarrow> CubeState option" where
  "rotateBackFace cubeState clockwise = do {
     rotated \<leftarrow> rotate2DArray (back_colors cubeState) clockwise;
     backEdges valueStore clockwise (cubeState\<lparr>back_colors := rotated\<rparr>)
   }"

definition rightEdges :: "'s store \<Rightarrow> bool \<Rightarrow> 's \<Rightarrow> 's option" where
  "rightEdges M clockwise s =
     (if clockwise then do {
         t0 \<leftarrow> rd M s Up 0 2; t1 \<leftarrow> rd M s Up 1 2; t2 \<leftarrow> rd M s Up 2 2;
         s \<leftarrow> mv M Up 0 2 Front 0 2 s;
         s \<leftarrow> mv M Up 1 2 Front 1 2 s;
         s \<leftarrow> mv M Up 2 2 Front 2 2 s;
         s \<leftarrow> mv M Front 0 2 Down 0 2 s;
         s \<leftarrow> mv M Front 1 2 Down 1 2 s;
         s \<leftarrow> mv M Front 2 2 Down 2 2 s;
         s \<leftarrow> mv M Down 0 2 Back 2 0 s;
         s \<leftarrow> mv M Down 1 2 Back 1 0 s;
         s \<leftarrow> mv M Down 2 2 Back 0 0 s;
         s \<leftarrow> wr M Back 0 0 t2 s;
         s \<leftarrow> wr M Back 1 0 t1 s;
         wr M Back 2 0 t0 s
      } else do {
         t0 \<leftarrow> rd M s Up 0 2; t1 \<leftarrow> rd M s Up 1 2; t2 \<leftarrow> rd M s Up 2 2;
         s \<leftarrow> mv M Up 0 2 Back 2 0 s;
         s \<leftarrow> mv M Up 1 2 Back 1 0 s;
         s \<leftarrow> mv M Up 2 2 Back 0 0 s;
         s \<leftarrow> mv M Back 0 0 Down 2 2 s;
         s \<leftarrow> mv M Back 1 0 Down 1 2 s;
         s \<leftarrow> mv M Back 2 0 Down 0 2 s;
         s \<leftarrow> mv M Down 0 2 Front 0 2 s;
         s \<leftarrow> mv M Down 1 2 Front 1 2 s;
         s \<leftarrow> mv M Down 2 2 Front 2 2 s;
         s \<leftarrow> wr M Front 0 2 t0 s;
         s \<leftarrow> wr M Front 1 2 t1 s;
         wr M Front 2 2 t2 s
      })"

definition rotateRightFace :: "CubeState \<Rightarrow> bool \<Rightarrow> CubeState option" where
  "rotateRightFace cubeState clockwise = do {
     rotated \<leftarrow> rotate2DArray (right_colors cubeState) clockwise;
     rightEdges valueStore clockwise (cubeState\<lparr>right_colors := rotated\<rparr>)
   }"

definition leftEdges :: "'s store \<Rightarrow> bool \<Rightarrow> 's \<Rightarrow> 's option" where
  "leftEdges M clockwise s =
     (if clockwise then do {
         t0 \<leftarrow> rd M s Up 0 0; t1 \<leftarrow> rd M s Up 1 0; t2 \<leftarrow> rd M s Up 2 0;
         s \<leftarrow> mv M Up 0 0 Back 2 2 s;
         s \<leftarrow> mv M Up 1 0 Back 1 2 s;
         s \<leftarrow> mv M Up 2 0 Back 0 2 s;
         s \<leftarrow> mv M Back 0 2 Down 2 0 s;
         s \<leftarrow> mv M Back 1 2 Down 1 0 s;
         s \<leftarrow> mv M Back 2 2 Down 0 0 s;
         s \<leftarrow> mv M Down 0 0 Front 0 0 s;
         s \<leftarrow> mv M Down 1 0 Front 1 0 s;
         s \<leftarrow> mv M Down 2 0 Front 2 0 s;
         s \<leftarrow> wr M Front 0 0 t0 s;
         s \<leftarrow> wr M Front 1 0 t1 s;
         wr M Front 2 0 t2 s
      } else do {
         t0 \<leftarrow> rd M s Up 0 0; t1 \<leftarrow> rd M s Up 1 0; t2 \<leftarrow> rd M s Up 2 0;
         s \<leftarrow> mv M Up 0 0 Front 0 0 s;
         s \<leftarrow> mv M Up 1 0 Front 1 0 s;
         s \<leftarrow> mv M Up 2 0 Front 2 0 s;
         s \<leftarrow> mv M Front 0 0 Down 0 0 s;
         s \<leftarrow> mv M Front 1 0 Down 1 0 s;
         s \<leftarrow> mv M Front 2 0 Down 2 0 s;
         s \<leftarrow> mv M Down 0 0 Back 2 2 s;
         s \<leftarrow> mv M Down 1 0 Back 1 2 s;
         s \<leftarrow> mv M Down 2 0 Back 0 2 s;
         s \<leftarrow> wr M Back 0 2 t2 s;
         s \<leftarrow> wr M Back 1 2 t1 s;
         wr M Back 2 2 t0 s
      })"

definition rotateLeftFace :: "CubeState \<Rightarrow> bool \<Rightarrow> CubeState option" where
  "rotateLeftFace cubeState clockwise = do {
     rotated \<leftarrow> rotate2DArray (left_colors cubeState) clockwise;
     leftEdges valueStore clockwise (cubeState\<lparr>left_colors := rotated\<rparr>)
   }"

definition upEdges :: "'s store \<Rightarrow> bool \<Rightarrow> 's \<Rightarrow> 's option" where
  "upEdges M clockwise s =
     (if clockwise then do {
         t0 \<leftarrow> rd M s Front 0 0; t1 \<leftarrow> rd M s Front 0 1; t2 \<leftarrow> rd M s Front 0 2;
         s \<leftarrow> mv M Front 0 0 Left 0 0 s;
         s \<leftarrow> mv M Front 0 1 Left 0 1 s;
         s \<leftarrow> mv M Front 0 2 Left 0 2 s;
         s \<leftarrow> mv M Left 0 0 Back 0 0 s;
         s \<leftarrow> mv M Left 0 1 Back 0 1 s;
         s \<leftarrow> mv M Left 0 2 Back 0 2 s;
         s \<leftarrow> mv M Back 0 0 Right 0 0 s;
         s \<leftarrow> mv M Back 0 1 Right 0 1 s;
         s \<leftarrow> mv M Back 0 2 Right 0 2 s;
         s \<leftarrow> wr M Right 0 0 t0 s;
         s \<leftarrow> wr M Right 0 1 t1 s;
         wr M Right 0 2 t2 s
      } else do {
         t0 \<leftarrow> rd M s Front 0 0; t1 \<leftarrow> rd M s Front 0 1; t2 \<leftarrow> rd M s Front 0 2;
         s \<leftarrow> mv M Front 0 0 Right 0 0 s;
         s \<leftarrow> mv M Front 0 1 Right 0 1 s;
         s \<leftarrow> mv M Front 0 2 Right 0 2 s;
         s \<leftarrow> mv M Right 0 0 Back 0 0 s;
         s \<leftarrow> mv M Right 0 1 Back 0 1 s;
         s \<leftarrow> mv M Right 0 2 Back 0 2 s;
         s \<leftarrow> mv M Back 0 0 Left 0 0 s;
         s \<leftarrow> mv M Back 0 1 Left 0 1 s;
         s \<leftarrow> mv M Back 0 2 Left 0 2 s;
         s \<leftarrow> wr M Left 0 0 t0 s;
         s \<leftarrow> wr M Left 0 1 t1 s;
         wr M Left 0 2 t2 s
      })"

definition rotateUpFace :: "CubeState \<Rightarrow> bool \<Rightarrow> CubeState option" where
  "rotateUpFace cubeState clockwise = do {
     rotated \<leftarrow> rotate2DArray (up_colors cubeState) clockwise;
     upEdges valueStore clockwise (cubeState\<lparr>up_colors := rotated\<rparr>)
   }"

definition downEdges :: "'s store \<Rightarrow> bool \<Rightarrow> 's \<Rightarrow> 's option" where
  "downEdges M clockwise s =
     (if clockwise then do {
         t0 \<leftarrow> rd M s Front 2 0; t1 \<leftarrow> rd M s Front 2 1; t2 \<leftarrow> rd M s Front 2 2;
         s \<leftarrow> mv M Front 2 0 Right 2 0 s;
         s \<leftarrow> mv M Front 2 1 Right 2 1 s;
         s \<leftarrow> mv M Front 2 2 Right 2 2 s;
         s \<leftarrow> mv M Right 2 0 Back 2 0 s;
         s \<leftarrow> mv M Right 2 1 Back 2 1 s;
         s \<leftarrow> mv M Right 2 2 Back 2 2 s;
         s \<leftarrow> mv M Back 2 0 Left 2 0 s;
         s \<leftarrow> mv M Back 2 1 Left 2 1 s;
         s \<leftarrow> mv M Back 2 2 Left 2 2 s;
         s \<leftarrow> wr M Left 2 0 t0 s;
         s \<leftarrow> wr M Left 2 1 t1 s;
         wr M Left 2 2 t2 s
      } else do {
         t0 \<leftarrow> rd M s Front 2 0; t1 \<leftarrow> rd M s Front 2 1; t2 \<leftarrow> rd M s Front 2 2;
         s \<leftarrow> mv M Front 2 0 Left 2 0 s;
         s \<leftarrow> mv M Front 2 1 Left 2 1 s;
         s \<leftarrow> mv M Front 2 2 Left 2 2 s;
         s \<leftarrow> mv M Left 2 0 Back 2 0 s;
         s \<leftarrow> mv M Left 2 1 Back 2 1 s;
         s \<leftarrow> mv M Left 2 2 Back 2 2 s;
         s \<leftarrow> mv M Back 2 0 Right 2 0 s;
         s \<leftarrow> mv M Back 2 1 Right 2 1 s;
         s \<leftarrow> mv M Back 2 2 Right 2 2 s;
         s \<leftarrow> wr M Right 2 0 t0 s;
         s \<leftarrow> wr M Right 2 1 t1 s;
         wr M Right 2 2 t2 s
      })"

definition rotateDownFace :: "CubeState \<Rightarrow> bool \<Rightarrow> CubeState option" where
  "rotateDownFace cubeState clockwise = do {
     rotated \<leftarrow> rotate2DArray (down_colors cubeState) clockwise;
     downEdges valueStore clockwise (cubeState\<lparr>down_colors := rotated\<rparr>)
   }"

text \<open>
  \<open>parseMove(move)\<close>: \<open>face = move.charAt(0)\<close>, \<open>modifier = move.substring(1)\<close>.  The angle
  is kept in quarter turns: \<open>1\<close> for \<open>Math.PI / 2\<close>, \<open>-1\<close> for \<open>-Math.PI / 2\<close>, \<open>2\<close> for
  \<open>Math.PI\<close>.
\<close>

definition parseMove :: "string \<Rightarrow> string \<times> bool \<times> int" where
  "parseMove move =
     (let face = take 1 move; modifier = drop 1 move
      in if modifier = [CHR 0x27] then (face, False, - 1)
         else if modifier = ''2'' then (face, True, 2)
         else (face, True, 1))"

text \<open>
  \<open>JSON.parse(JSON.stringify(cubeState))\<close> builds a fresh structure that holds the same
  strings and nulls at the same places; as a value it is the state itself.
\<close>

definition jsonCopy :: "CubeState \<Rightarrow> CubeState" where
  "jsonCopy cubeState = cubeState"

text \<open>
  \<open>applyMoveToCubeState(cubeState, move)\<close>: the \<open>switch\<close> on the face letter has no
  \<open>default\<close> branch, and the parsed \<open>angle\<close> is not used.
\<close>

definition applyMoveToCubeState :: "CubeState \<Rightarrow> string \<Rightarrow> CubeState option" where
  "applyMoveToCubeState cubeState move =
     (case parseMove move of (face, clockwise, angle) \<Rightarrow>
        let newState = jsonCopy cubeState
        in if face = ''F'' then rotateFrontFace newState clockwise
           else if face = ''B'' then rotateBackFace newState clockwise
           else if face = ''R'' then rotateRightFace newState clockwise
           else if face = ''L'' then rotateLeftFace newState clockwise
           else if face = ''U'' then rotateUpFace newState clockwise
           else if face = ''D'' then rotateDownFace newState clockwise
           else Some newState)"

text \<open>Well-formed states: every face is a 3 by 3 grid.\<close>

definition wf_grid :: "grid \<Rightarrow> bool" where
  "wf_grid g = (length g = 3 \<and> list_all (\<lambda>row. length row = 3) g)"

definition wf_cube :: "CubeState \<Rightarrow> bool" where
  "wf_cube s = (wf_grid (front_colors s) \<and> wf_grid (back_colors s) \<and> wf_grid (up_colors s)
                \<and> wf_grid (down_colors s) \<and> wf_grid (left_colors s) \<and> wf_grid (right_colors s))"

definition stickerCount :: "CubeState \<Rightarrow> nat" where
  "stickerCount s = length (concat (front_colors s)) + length (concat (back_colors s))
     + length (concat (up_colors s)) + length (concat (down_colors s))
     + length (concat (left_colors s)) + length (concat (right_colors s))"

text \<open>The move notation: the six face letters, the twelve quarter turns and the six half turns.\<close>

definition faceLetters :: "string list" where
  "faceLetters = [''F'', ''B'', ''U'', ''D'', ''L'', ''R'']"

definition quarterTurnMoves :: "string list" where
  "quarterTurnMoves = concat (map (\<lambda>f. [f, f @ [CHR 0x27]]) faceLetters)"

definition halfTurnMoves :: "string list" where
  "halfTurnMoves = map (\<lambda>f. f @ ''2'') faceLetters"

text \<open>Four, respectively two, calls in succession, each on the state the previous one returned.\<close>

definition fourTimes :: "CubeState \<Rightarrow> string \<Rightarrow> CubeState option" where
  "fourTimes s m = do {
     s1 \<leftarrow> applyMoveToCubeState s m;
     s2 \<leftarrow> applyMoveToCubeState s1 m;
     s3 \<leftarrow> applyMoveToCubeState s2 m;
     applyMoveToCubeState s3 m }"

definition twice :: "CubeState \<Rightarrow> string \<Rightarrow> CubeState option" where
  "twice s m = do { s1 \<leftarrow> applyMoveToCubeState s m; applyMoveToCubeState s1 m }"

text \<open>The face a move letter turns (the \<open>switch\<close> of \<open>applyMoveToCubeState\<close>) and its opposite.\<close>

definition faceOfMove :: "string \<Rightarrow> face_name option" where
  "faceOfMove move =
     (let face = take 1 move
      in if face = ''F'' then Some Front else if face = ''B'' then Some Back
         else if face = ''R'' then Some Right else if face = ''L'' then Some Left
         else if face = ''U'' then Some Up else if face = ''D'' then Some Down else None)"

fun oppositeFace :: "face_name \<Rightarrow> face_name" where
  "oppositeFace Front = Back"
| "oppositeFace Back = Front"
| "oppositeFace Up = Down"
| "oppositeFace Down = Up"
| "oppositeFace Left = Right"
| "oppositeFace Right = Left"

text \<open>
  The solved cube that CubePage.js builds (\<open>solvedCubeData\<close>), and the state the engine
  returns for the move \<open>R\<close> on it.
\<close>

definition solvedCubeData :: CubeState where
  "solvedCubeData = \<lparr>
     front_colors = [[Label ''green'', Label ''green'', Label ''green''],
                     [Label ''green'', Label ''green'', Label ''green''],
                     [Label ''green'', Label ''green'', Label ''green'']],
     back_colors = [[Label ''blue'', Label ''blue'', Label ''blue''],
                    [Label ''blue'', Label ''blue'', Label ''blue''],
                    [Label ''blue'', Label ''blue'', Label ''blue'']],
     up_colors = [[Label ''white'', Label ''white'', Label ''white''],
                  [Label ''white'', Label ''white'', Label ''white''],
                  [Label ''white'', Label ''white'', Label ''white'']],
     down_colors = [[Label ''yellow'', Label ''yellow'', Label ''yellow''],
                    [Label ''yellow'', Label ''yellow'', Label ''yellow''],
                    [Label ''yellow'', Label ''yellow'', Label ''yellow'']],
     left_colors = [[Label ''orange'', Label ''orange'', Label ''orange''],
                    [Label ''orange'', Label ''orange'', Label ''orange''],
                    [Label ''orange'', Label ''orange'', Label ''orange'']],
     right_colors = [[Label ''red'', Label ''red'', Label ''red''],
                     [Label ''red'', Label ''red'', Label ''red''],
                     [Label ''red'', Label ''red'', Label ''red'']]\<rparr>"

definition solvedAfterR :: CubeState where
  "solvedAfterR = \<lparr>
     front_colors = [[Label ''green'', Label ''green'', Label ''yellow''],
                     [Label ''green'', Label ''green'', Label ''yellow''],
                     [Label ''green'', Label ''green'', Label ''yellow'']],
     back_colors = [[Label ''white'', Label ''blue'', Label ''blue''],
                    [Label ''white'', Label ''blue'', Label ''blue''],
                    [Label ''white'', Label ''blue'', Label ''blue'']],
     up_colors = [[Label ''white'', Label ''white'', Label ''green''],
                  [Label ''white'', Label ''white'', Label ''green''],
                  [Label ''white'', Label ''white'', Label ''green'']],
     down_colors = [[Label ''yellow'', Label ''yellow'', Label ''blue''],
                    [Label ''yellow'', Label ''yellow'', Label ''blue''],
                    [Label ''yellow'', Label ''yellow'', Label ''blue'']],
     left_colors = [[Label ''orange'', Label ''orange'', Label ''orange''],
                    [Label ''orange'', Label ''orange'', Label ''orange''],
                    [Label ''orange'', Label ''orange'', Label ''orange'']],
     right_colors = [[Label ''red'', Label ''red'', Label ''red''],
                     [Label ''red'', Label ''red'', Label ''red''],
                     [Label ''red'', Label ''red'', Label ''red'']]\<rparr>"

section \<open>The move engine on a heap of objects\<close>

text \<open>
  To speak about what \<open>applyMoveToCubeState\<close> does to its argument, objects get
  addresses.  The heap is the list of all objects allocated so far, an address is an index
  into it, and \<open>new\<close> appends.  There are four kinds of object: a row (an array of
  stickers), a grid (an array of references to rows), a face object (its \<open>colors\<close> field
  refers to a grid) and the cube-state object (its six fields refer to face objects).
\<close>

type_synonym addr = nat

datatype obj =
  Row "cell list"
| Grid "addr list"
| Face addr
| Cube addr addr addr addr addr addr

type_synonym heap = "obj list"

definition deref :: "heap \<Rightarrow> addr \<Rightarrow> obj option" where
  "deref h a = (if a < length h then Some (h ! a) else None)"

definition new :: "heap \<Rightarrow> obj \<Rightarrow> heap \<times> addr" where
  "new h ob = (h @ [ob], length h)"

text \<open>\<open>cubeState.f\<close>, \<open>cubeState.f.colors\<close>, \<open>grid[i]\<close> and \<open>row[j]\<close>; \<open>None\<close> is a TypeError or \<open>undefined\<close>.\<close>

definition faceRef :: "heap \<Rightarrow> addr \<Rightarrow> face_name \<Rightarrow> addr option" where
  "faceRef h cubeState f =
     (case deref h cubeState of
        Some (Cube fr ba u d l r) \<Rightarrow>
          Some (case f of Front \<Rightarrow> fr | Back \<Rightarrow> ba | Up \<Rightarrow> u | Down \<Rightarrow> d | Left \<Rightarrow> l | Right \<Rightarrow> r)
      | _ \<Rightarrow> None)"

definition colorsRef :: "heap \<Rightarrow> addr \<Rightarrow> face_name \<Rightarrow> addr option" where
  "colorsRef h cubeState f = do {
     fa \<leftarrow> faceRef h cubeState f;
     case deref h fa of Some (Face g) \<Rightarrow> Some g | _ \<Rightarrow> None }"

definition rowRef :: "heap \<Rightarrow> addr \<Rightarrow> nat \<Rightarrow> addr option" where
  "rowRef h g i =
     (case deref h g of
        Some (Grid rows) \<Rightarrow> (if i < length rows then Some (rows ! i) else None)
      | _ \<Rightarrow> None)"

definition rowCells :: "heap \<Rightarrow> addr \<Rightarrow> cell list option" where
  "rowCells h ra = (case deref h ra of Some (Row cs) \<Rightarrow> Some cs | _ \<Rightarrow> None)"

definition getCellH :: "heap \<Rightarrow> addr \<Rightarrow> nat \<Rightarrow> nat \<Rightarrow> cell option" where
  "getCellH h g i j = do {
     ra \<leftarrow> rowRef h g i;
     cs \<leftarrow> rowCells h ra;
     if j < length cs then Some (cs ! j) else None }"

definition setCellH :: "heap \<Rightarrow> addr \<Rightarrow> nat \<Rightarrow> nat \<Rightarrow> cell \<Rightarrow> heap option" where
  "setCellH h g i j v = do {
     ra \<leftarrow> rowRef h g i;
     cs \<leftarrow> rowCells h ra;
     if j < length cs then Some (h[ra := Row (cs[j := v])]) else None }"

text \<open>A state of the heap engine: the heap and the address of the cube-state object.\<close>

definition readStickerH :: "heap \<times> addr \<Rightarrow> face_name \<Rightarrow> nat \<Rightarrow> nat \<Rightarrow> cell option" where
  "readStickerH s f i j =
     (case s of (h, cubeState) \<Rightarrow> do { g \<leftarrow> colorsRef h cubeState f; getCellH h g i j })"

definition writeStickerH ::
  "face_name \<Rightarrow> nat \<Rightarrow> nat \<Rightarrow> cell \<Rightarrow> heap \<times> addr \<Rightarrow> (heap \<times> addr) option" where
  "writeStickerH f i j v s =
     (case s of (h, cubeState) \<Rightarrow> do {
        g \<leftarrow> colorsRef h cubeState f;
        h' \<leftarrow> setCellH h g i j v;
        Some (h', cubeState) })"

definition heapStore :: "(heap \<times> addr) store" where
  "heapStore = \<lparr>rd = readStickerH, wr = writeStickerH\<rparr>"

text \<open>
  What \<open>JSON.stringify\<close> reads from a cube-state object: the six grids, as values.  What
  \<open>JSON.parse\<close> builds from them: new rows, grids, face objects and a new cube-state object.
\<close>

definition readGrid :: "heap \<Rightarrow> addr \<Rightarrow> grid option" where
  "readGrid h g =
     (case deref h g of
        Some (Grid rows) \<Rightarrow> those (map (rowCells h) rows)
      | _ \<Rightarrow> None)"

definition readFace :: "heap \<Rightarrow> addr \<Rightarrow> face_name \<Rightarrow> grid option" where
  "readFace h cubeState f = do { g \<leftarrow> colorsRef h cubeState f; readGrid h g }"

definition readCube :: "heap \<Rightarrow> addr \<Rightarrow> CubeState option" where
  "readCube h cubeState = do {
     fr \<leftarrow> readFace h cubeState Front;
     ba \<leftarrow> readFace h cubeState Back;
     u \<leftarrow> readFace h cubeState Up;
     d \<leftarrow> readFace h cubeState Down;
     l \<leftarrow> readFace h cubeState Left;
     r \<leftarrow> readFace h cubeState Right;
     Some \<lparr>front_colors = fr, back_colors = ba, up_colors = u,
           down_colors = d, left_colors = l, right_colors = r\<rparr> }"

fun newRows :: "heap \<Rightarrow> grid \<Rightarrow> heap \<times> addr list" where
  "newRows h [] = (h, [])"
| "newRows h (row # rows) =
     (case new h (Row row) of (h1, a) \<Rightarrow>
        (case newRows h1 rows of (h2, as) \<Rightarrow> (h2, a # as)))"

definition newGrid :: "heap \<Rightarrow> grid \<Rightarrow> heap \<times> addr" where
  "newGrid h g = (case newRows h g of (h1, rows) \<Rightarrow> new h1 (Grid rows))"

definition newFace :: "heap \<Rightarrow> grid \<Rightarrow> heap \<times> addr" where
  "newFace h g = (case newGrid h g of (h1, ga) \<Rightarrow> new h1 (Face ga))"

definition newCube :: "heap \<Rightarrow> CubeState \<Rightarrow> heap \<times> addr" where
  "newCube h s =
     (case newFace h (front_colors s) of (h1, fr) \<Rightarrow>
      case newFace h1 (back_colors s) of (h2, ba) \<Rightarrow>
      case newFace h2 (up_colors s) of (h3, u) \<Rightarrow>
      case newFace h3 (down_colors s) of (h4, d) \<Rightarrow>
      case newFace h4 (left_colors s) of (h5, l) \<Rightarrow>
      case newFace h5 (right_colors s) of (h6, r) \<Rightarrow>
        new h6 (Cube fr ba u d l r))"

definition jsonCopyH :: "heap \<times> addr \<Rightarrow> (heap \<times> addr) option" where
  "jsonCopyH s = (case s of (h, cubeState) \<Rightarrow> map_option (newCube h) (readCube h cubeState))"

text \<open>
  \<open>rotate2DArray\<close> on the heap: \<open>n = array.length\<close>, a new \<open>n\<close> by \<open>n\<close> array of \<open>null\<close>, and
  the same two loops, reading through \<open>array\<close> and writing into the new rows.
\<close>

definition lengthH :: "heap \<Rightarrow> addr \<Rightarrow> nat option" where
  "lengthH h g = (case deref h g of Some (Grid rows) \<Rightarrow> Some (length rows) | _ \<Rightarrow> None)"

definition rotate2DArrayH :: "heap \<Rightarrow> addr \<Rightarrow> bool \<Rightarrow> (heap \<times> addr) option" where
  "rotate2DArrayH h0 array clockwise = do {
     n \<leftarrow> lengthH h0 array;
     let (h1, rotated) = newGrid h0 (replicate n (replicate n Null));
     h2 \<leftarrow> (if clockwise then
             forEachM [0..<n] (\<lambda>i. forEachM [0..<n] (\<lambda>j h.
               do { v \<leftarrow> getCellH h array i j; setCellH h rotated j (n - 1 - i) v })) h1
           else
             forEachM [0..<n] (\<lambda>i. forEachM [0..<n] (\<lambda>j h.
               do { v \<leftarrow> getCellH h array i j; setCellH h rotated (n - 1 - j) i v })) h1);
     Some (h2, rotated) }"

text \<open>
  The first three statements of every face rotation: \<open>const face = cubeState.f.colors;
  const rotated = rotate2DArray(face, clockwise); cubeState.f.colors = rotated\<close>.
\<close>

definition rotateOwnH :: "face_name \<Rightarrow> bool \<Rightarrow> heap \<times> addr \<Rightarrow> (heap \<times> addr) option" where
  "rotateOwnH f clockwise s =
     (case s of (h, cubeState) \<Rightarrow> do {
        face \<leftarrow> colorsRef h cubeState f;
        (h1, rotated) \<leftarrow> rotate2DArrayH h face clockwise;
        fa \<leftarrow> faceRef h1 cubeState f;
        Some (h1[fa := Face rotated], cubeState) })"

definition rotateFrontFaceH :: "heap \<times> addr \<Rightarrow> bool \<Rightarrow> (heap \<times> addr) option" where
  "rotateFrontFaceH cubeState clockwise =
     do { s \<leftarrow> rotateOwnH Front clockwise cubeState; frontEdges heapStore clockwise s }"

definition rotateBackFaceH :: "heap \<times> addr \<Rightarrow> bool \<Rightarrow> (heap \<times> addr) option" where
  "rotateBackFaceH cubeState clockwise =
     do { s \<leftarrow> rotateOwnH Back clockwise cubeState; backEdges heapStore clockwise s }"

definition rotateRightFaceH :: "heap \<times> addr \<Rightarrow> bool \<Rightarrow> (heap \<times> addr) option" where
  "rotateRightFaceH cubeState clockwise =
     do { s \<leftarrow> rotateOwnH Right clockwise cubeState; rightEdges heapStore clockwise s }"

definition rotateLeftFaceH :: "heap \<times> addr \<Rightarrow> bool \<Rightarrow> (heap \<times> addr) option" where
  "rotateLeftFaceH cubeState clockwise =
     do { s \<leftarrow> rotateOwnH Left clockwise cubeState; leftEdges heapStore clockwise s }"

definition rotateUpFaceH :: "heap \<times> addr \<Rightarrow> bool \<Rightarrow> (heap \<times> addr) option" where
  "rotateUpFaceH cubeState clockwise =
     do { s \<leftarrow> rotateOwnH Up clockwise cubeState; upEdges heapStore clockwise s }"

definition rotateDownFaceH :: "heap \<times> addr \<Rightarrow> bool \<Rightarrow> (heap \<times> addr) option" where
  "rotateDownFaceH cubeState clockwise =
     do { s \<leftarrow> rotateOwnH Down clockwise cubeState; downEdges heapStore clockwise s }"

text \<open>
  \<open>applyMoveToCubeState\<close> on the heap: it takes the heap and the address of its argument
  and returns the heap after the call and the address of the object it returns.
\<close>

definition applyMoveToCubeStateH :: "heap \<times> addr \<Rightarrow> string \<Rightarrow> (heap \<times> addr) option" where
  "applyMoveToCubeStateH cubeState move =
     (case parseMove move of (face, clockwise, angle) \<Rightarrow> do {
        newState \<leftarrow> jsonCopyH cubeState;
        if face = ''F'' then rotateFrontFaceH newState clockwise
        else if face = ''B'' then rotateBackFaceH newState clockwise
        else if face = ''R'' then rotateRightFaceH newState clockwise
        else if face = ''L'' then rotateLeftFaceH newState clockwise
        else if face = ''U'' then rotateUpFaceH newState clockwise
        else if face = ''D'' then rotateDownFaceH newState clockwise
        else Some newState })"

text \<open>The addresses of all objects a cube-state object is made of.\<close>

definition gridObjects :: "heap \<Rightarrow> addr \<Rightarrow> addr list option" where
  "gridObjects h g = (case deref h g of Some (Grid rows) \<Rightarrow> Some (g # rows) | _ \<Rightarrow> None)"

definition faceObjects :: "heap \<Rightarrow> addr \<Rightarrow> face_name \<Rightarrow> addr list option" where
  "faceObjects h cubeState f = do {
     fa \<leftarrow> faceRef h cubeState f;
     g \<leftarrow> colorsRef h cubeState f;
     as \<leftarrow> gridObjects h g;
     Some (fa # as) }"

definition cubeObjects :: "heap \<Rightarrow> addr \<Rightarrow> addr list option" where
  "cubeObjects h cubeState = do {
     fr \<leftarrow> faceObjects h cubeState Front;
     ba \<leftarrow> faceObjects h cubeState Back;
     u \<leftarrow> faceObjects h cubeState Up;
     d \<leftarrow> faceObjects h cubeState Down;
     l \<leftarrow> faceObjects h cubeState Left;
     r \<leftarrow> faceObjects h cubeState Right;
     Some (cubeState # fr @ ba @ u @ d @ l @ r) }"

text \<open>A heap that holds the solved cube and nothing else; its cube-state object is at 30.\<close>

definition solvedHeap :: heap where
  "solvedHeap = fst (newCube [] solvedCubeData)"

text \<open>
  The 31 objects that \<open>newCube\<close> appends for a state of six 3-row grids when the heap has
  \<open>n\<close> objects: per face three rows, the grid and the face object, then the cube-state
  object.
\<close>

definition faceImage :: "nat \<Rightarrow> grid \<Rightarrow> obj list" where
  "faceImage n g = [Row (g ! 0), Row (g ! 1), Row (g ! 2), Grid [n, n + 1, n + 2], Face (n + 3)]"

definition cubeImage :: "nat \<Rightarrow> CubeState \<Rightarrow> obj list" where
  "cubeImage n s =
     faceImage n (front_colors s) @ faceImage (n + 5) (back_colors s)
     @ faceImage (n + 10) (up_colors s) @ faceImage (n + 15) (down_colors s)
     @ faceImage (n + 20) (left_colors s) @ faceImage (n + 25) (right_colors s)
     @ [Cube (n + 4) (n + 9) (n + 14) (n + 19) (n + 24) (n + 29)]"

text \<open>
  \<open>refines h r v\<close>: the heap engine's result \<open>r\<close>, started on a heap \<open>h\<close>, is a heap that
  extends \<open>h\<close> and a cube-state object that reads as the value \<open>v\<close> returned by the value
  engine and is made only of objects that are not in \<open>h\<close>.
\<close>

definition refines :: "heap \<Rightarrow> (heap \<times> addr) option \<Rightarrow> CubeState option \<Rightarrow> bool" where
  "refines h r v =
     (\<exists>ext objs. r = Some (h @ ext, length h + 30)
        \<and> readCube (h @ ext) (length h + 30) = v
        \<and> cubeObjects (h @ ext) (length h + 30) = Some objs
        \<and> list_all (\<lambda>x. length h \<le> x) objs)"

section \<open>Facelet perception (CubeRecognition.js)\<close>

subsection \<open>JavaScript numbers\<close>

text \<open>
  A JavaScript number is a binary64 float, an infinity or \<open>NaN\<close>.  A finite number is
  modelled by the real it denotes (so \<open>-0\<close> is not told from \<open>0\<close>).  An arithmetic operation
  returns its exact result rounded to the nearest binary64 number, halves to the even
  significand: \<open>fl64\<close>.  The significand has 53 bits and the least exponent of the last bit
  is \<open>-1074\<close>; \<open>ulpExp x\<close> is the exponent of the last bit in the binade of \<open>x\<close>.
\<close>

definition roundEven :: "real \<Rightarrow> int" where
  "roundEven y =
     (let n = \<lfloor>y\<rfloor>; d = y - of_int n
      in if d < 1 / 2 then n else if 1 / 2 < d then n + 1 else if even n then n else n + 1)"

definition ulpExp :: "real \<Rightarrow> int" where
  "ulpExp x = max (bitlen \<lfloor>\<bar>x\<bar> * 2 ^ 1074\<rfloor> - 1127) (- 1074)"

definition fl64 :: "real \<Rightarrow> real" where
  "fl64 x = of_int (roundEven (x / 2 powi ulpExp x)) * 2 powi ulpExp x"

text \<open>
  The four operations on finite numbers, where the source divides only by a number it has
  tested against zero (\<open>js_div\<close> returns \<open>None\<close> on a zero divisor, so that a result \<open>Some\<close>
  says that no division by zero took place) and no result leaves the finite range.
\<close>

definition fadd :: "real \<Rightarrow> real \<Rightarrow> real" where
  "fadd x y = fl64 (x + y)"

definition fsub :: "real \<Rightarrow> real \<Rightarrow> real" where
  "fsub x y = fl64 (x - y)"

definition fmul :: "real \<Rightarrow> real \<Rightarrow> real" where
  "fmul x y = fl64 (x * y)"

definition fdiv :: "real \<Rightarrow> real \<Rightarrow> real" where
  "fdiv x y = fl64 (x / y)"

definition js_div :: "real \<Rightarrow> real \<Rightarrow> real option" where
  "js_div x y = (if y = 0 then None else Some (fdiv x y))"

text \<open>\<open>Math.round\<close> rounds to the nearest integer, halves upwards; the result is exact.\<close>

definition Math_round :: "real \<Rightarrow> real" where
  "Math_round x = of_int \<lfloor>x + 1 / 2\<rfloor>"

text \<open>
  Numbers with the infinities and \<open>NaN\<close>, for the code that divides without a test.  A
  rounded result of magnitude \<open>2 ^ 1024\<close> or more is an infinity; a division of a non-zero
  number by zero is an infinity, of zero by zero \<open>NaN\<close>; \<open>NaN\<close> propagates and every
  comparison with it is false; \<open>Math.min\<close> and \<open>Math.max\<close> return \<open>NaN\<close> when an argument is.
\<close>

datatype jsnum = Num real | NaN | PosInf | NegInf

definition rounded :: "real \<Rightarrow> jsnum" where
  "rounded x = (let y = fl64 x
                in if 2 ^ 1024 \<le> y then PosInf else if y \<le> - (2 ^ 1024) then NegInf else Num y)"

definition infinity :: "bool \<Rightarrow> jsnum" where
  "infinity positive = (if positive then PosInf else NegInf)"

fun jadd :: "jsnum \<Rightarrow> jsnum \<Rightarrow> jsnum" where
  "jadd (Num x) (Num y) = rounded (x + y)"
| "jadd NaN y = NaN"
| "jadd x NaN = NaN"
| "jadd PosInf NegInf = NaN"
| "jadd NegInf PosInf = NaN"
| "jadd PosInf y = PosInf"
| "jadd x PosInf = PosInf"
| "jadd NegInf y = NegInf"
| "jadd x NegInf = NegInf"

fun jmul :: "jsnum \<Rightarrow> jsnum \<Rightarrow> jsnum" where
  "jmul (Num x) (Num y) = rounded (x * y)"
| "jmul NaN y = NaN"
| "jmul x NaN = NaN"
| "jmul (Num x) PosInf = (if x = 0 then NaN else infinity (0 < x))"
| "jmul (Num x) NegInf = (if x = 0 then NaN else infinity (x < 0))"
| "jmul PosInf (Num y) = (if y = 0 then NaN else infinity (0 < y))"
| "jmul NegInf (Num y) = (if y = 0 then NaN else infinity (y < 0))"
| "jmul PosInf PosInf = PosInf"
| "jmul NegInf NegInf = PosInf"
| "jmul PosInf NegInf = NegInf"
| "jmul NegInf PosInf = NegInf"

fun jdiv :: "jsnum \<Rightarrow> jsnum \<Rightarrow> jsnum" where
  "jdiv (Num x) (Num y) =
     (if y = 0 then (if x = 0 then NaN else infinity (0 < x)) else rounded (x / y))"
| "jdiv NaN y = NaN"
| "jdiv x NaN = NaN"
| "jdiv (Num x) y = Num 0"
| "jdiv PosInf (Num y) = infinity (0 \<le> y)"
| "jdiv NegInf (Num y) = infinity (y < 0)"
| "jdiv x y = NaN"

fun Math_min :: "jsnum \<Rightarrow> jsnum \<Rightarrow> jsnum" where
  "Math_min (Num x) (Num y) = Num (min x y)"
| "Math_min NaN y = NaN"
| "Math_min x NaN = NaN"
| "Math_min NegInf y = NegInf"
| "Math_min x NegInf = NegInf"
| "Math_min PosInf y = y"
| "Math_min x PosInf = x"

fun Math_max :: "jsnum \<Rightarrow> jsnum \<Rightarrow> jsnum" where
  "Math_max (Num x) (Num y) = Num (max x y)"
| "Math_max NaN y = NaN"
| "Math_max x NaN = NaN"
| "Math_max PosInf y = PosInf"
| "Math_max x PosInf = PosInf"
| "Math_max NegInf y = y"
| "Math_max x NegInf = x"

fun jround :: "jsnum \<Rightarrow> jsnum" where
  "jround (Num x) = Num (Math_round x)"
| "jround x = x"

fun jless :: "jsnum \<Rightarrow> jsnum \<Rightarrow> bool" where
  "jless (Num x) (Num y) = (x < y)"
| "jless NaN y = False"
| "jless x NaN = False"
| "jless x NegInf = False"
| "jless PosInf y = False"
| "jless x y = True"

text \<open>The colour labels are the strings \<open>'white'\<close>, ..., \<open>'unknown'\<close> of the source.\<close>

datatype color = white | red | orange | yellow | green | blue | unknown

subsection \<open>Colour-space converters\<close>

text \<open>
  \<open>rgbToHsv(r, g, b)\<close>, every operation rounded.  The two divisions by a variable are
  guarded in the source (\<open>max === 0\<close>, \<open>d !== 0\<close>); the model keeps the guards and divides
  with \<open>js_div\<close>.
\<close>

definition rgbToHsv :: "real \<Rightarrow> real \<Rightarrow> real \<Rightarrow> (real \<times> real \<times> real) option" where
  "rgbToHsv r0 g0 b0 =
     (let r = fdiv r0 255; g = fdiv g0 255; b = fdiv b0 255;
          mx = max r (max g b); mn = min r (min g b);
          v = mx; d = fsub mx mn
      in do {
        s \<leftarrow> (if mx = 0 then Some 0 else js_div d mx);
        h \<leftarrow> (if d \<noteq> 0 then
               (if mx = r then do {
                  q \<leftarrow> js_div (fsub g b) d; Some (fmul (fadd q (if g < b then 6 else 0)) 60) }
                else if mx = g then do { q \<leftarrow> js_div (fsub b r) d; Some (fmul (fadd q 2) 60) }
                else if mx = b then do { q \<leftarrow> js_div (fsub r g) d; Some (fmul (fadd q 4) 60) }
                else Some (fmul 0 60))
             else Some 0);
        Some (h, fmul s 255, fmul v 255)
      })"

text \<open>
  \<open>rgbToLab(r, g, b)\<close>; \<open>Math.pow\<close> on the positive bases that occur here is \<open>powr\<close>.
  \<open>Math.pow\<close> is not correctly rounded (its last bits depend on the engine), so this
  function, the rules, the distances and the confidence below are computed with exact
  reals; what is proved of them holds at inputs where every threshold is passed or missed
  by far more than the rounding of the operations.
\<close>

definition gammaCorrect :: "real \<Rightarrow> real" where
  "gammaCorrect c = (if c > 0.04045 then ((c + 0.055) / 1.055) powr 2.4 else c / 12.92)"

definition labF :: "real \<Rightarrow> real" where
  "labF t = (if t > 0.008856 then t powr (1 / 3) else 7.787 * t + 16 / 116)"

definition rgbToLab :: "real \<Rightarrow> real \<Rightarrow> real \<Rightarrow> real \<times> real \<times> real" where
  "rgbToLab r g b =
     (let r_norm = gammaCorrect (r / 255);
          g_norm = gammaCorrect (g / 255);
          b_norm = gammaCorrect (b / 255);
          x = r_norm * 0.4124 + g_norm * 0.3576 + b_norm * 0.1805;
          y = r_norm * 0.2126 + g_norm * 0.7152 + b_norm * 0.0722;
          z = r_norm * 0.0193 + g_norm * 0.1192 + b_norm * 0.9505;
          x_norm = x / 0.95047;
          y_norm = y / 1.00000;
          z_norm = z / 1.08883;
          fx = labF x_norm; fy = labF y_norm; fz = labF z_norm;
          l = 116 * fy - 16;
          a = 500 * (fx - fy);
          b_lab = 200 * (fy - fz)
      in (l, a, b_lab))"

subsection \<open>Classifier\<close>

text \<open>
  The component state \<open>calibrationData\<close> is \<open>null\<close> at the start.  \<open>calibrateColors\<close> stores
  an object without \<open>colorBalance\<close> (reading \<open>colorBalance.r\<close> then raises a TypeError, the
  \<open>None\<close> of \<open>applyColorCalibration\<close>), and \<open>calibrateColorsFromEnvironment\<close> stores
  \<open>avgBrightness\<close> and the three \<open>colorBalance\<close> ratios.
\<close>

datatype calibration = CenterSample | Environment jsnum "jsnum \<times> jsnum \<times> jsnum"

definition applyColorCalibration ::
  "calibration option \<Rightarrow> real \<Rightarrow> real \<Rightarrow> real \<Rightarrow> (jsnum \<times> jsnum \<times> jsnum) option" where
  "applyColorCalibration calibrationData r g b =
     (case calibrationData of
        None \<Rightarrow> Some (Num r, Num g, Num b)
      | Some CenterSample \<Rightarrow> None
      | Some (Environment avgBrightness (cr, cg, cb)) \<Rightarrow>
          Some (Math_min (Num 255) (Math_max (Num 0) (jdiv (Num r) cr)),
                Math_min (Num 255) (Math_max (Num 0) (jdiv (Num g) cg)),
                Math_min (Num 255) (Math_max (Num 0) (jdiv (Num b) cb))))"

definition correctColorForLighting :: "jsnum \<Rightarrow> jsnum \<Rightarrow> jsnum \<Rightarrow> jsnum \<times> jsnum \<times> jsnum" where
  "correctColorForLighting r g b =
     (let avg = jdiv (jadd (jadd r g) b) (Num 3)
      in if jless avg (Num 100) then
           (let boost = jdiv (Num 150) avg
            in (Math_min (Num 255) (jround (jmul r boost)),
                Math_min (Num 255) (jround (jmul g boost)),
                Math_min (Num 255) (jround (jmul b boost))))
         else if jless (Num 200) avg then
           (let reduce = jdiv (Num 180) avg
            in (Math_max (Num 0) (jround (jmul r reduce)),
                Math_max (Num 0) (jround (jmul g reduce)),
                Math_max (Num 0) (jround (jmul b reduce))))
         else (r, g, b))"

text \<open>
  \<open>colorScores\<close> is an object with the six colour keys in the order written; a rule
  \<open>if (cond) colorScores.c += x\<close> is the triple \<open>(cond, c, x)\<close>, and the rules are run in
  the order of the source.
\<close>

type_synonym scores = "(color \<times> real) list"

definition colorScores0 :: scores where
  "colorScores0 = [(white, 0), (red, 0), (orange, 0), (yellow, 0), (green, 0), (blue, 0)]"

definition addScore :: "color \<Rightarrow> real \<Rightarrow> scores \<Rightarrow> scores" where
  "addScore c x sc = map (\<lambda>(k, v). if k = c then (k, v + x) else (k, v)) sc"

definition scoreOf :: "scores \<Rightarrow> color \<Rightarrow> real" where
  "scoreOf sc c = (case map_of sc c of Some v \<Rightarrow> v | None \<Rightarrow> 0)"

definition applyRules :: "(bool \<times> color \<times> real) list \<Rightarrow> scores \<Rightarrow> scores" where
  "applyRules rules sc = foldl (\<lambda>sc (cond, c, x). if cond then addScore c x sc else sc) sc rules"

definition referenceColors :: "(color \<times> real \<times> real \<times> real) list" where
  "referenceColors = [(white, 255, 255, 255), (red, 255, 0, 0), (orange, 255, 165, 0),
                      (yellow, 255, 255, 0), (green, 0, 255, 0), (blue, 0, 0, 255)]"

definition bestOf :: "scores \<Rightarrow> color \<times> real" where
  "bestOf sc = foldl (\<lambda>(bestColor, bestScore) (c, score).
                  if score > bestScore then (c, score) else (bestColor, bestScore)) (unknown, 0) sc"

text \<open>
  \<open>detectColorRevolutionary(r, g, b)\<close> on finite numbers, block by block: the HSV rules (technique 1), the
  RGB rules (technique 2), the LAB rules (technique 3), the distance scores (technique
  4), the white against yellow adjustment, and the choice of the best score.  In the LAB
  rules the source tests \<open>b\<close>, the blue channel passed in, not \<open>b_lab\<close>.
\<close>

definition hsvRules ::
  "real \<Rightarrow> real \<Rightarrow> real \<Rightarrow> real \<Rightarrow> real \<Rightarrow> real \<Rightarrow> (bool \<times> color \<times> real) list" where
  "hsvRules h s v r g b = [
     (v > 180 \<and> s < 60 \<and> \<bar>r - g\<bar> < 40 \<and> \<bar>g - b\<bar> < 40 \<and> \<bar>r - b\<bar> < 40, white, 3.5),
     ((h < 8 \<or> h > 352) \<and> s > 120 \<and> v > 80 \<and> r > g * 1.8 \<and> r > b * 1.8 \<and> g < 80, red, 2.5),
     (h \<ge> 15 \<and> h \<le> 40 \<and> s > 100 \<and> v > 80 \<and> r > g \<and> g > b \<and> r > 100 \<and> r - g < 50 \<and> g > 80,
        orange, 2.5),
     (h \<ge> 45 \<and> h \<le> 75 \<and> s > 80 \<and> v > 150 \<and> r > 120 \<and> g > 120 \<and> b < 120 \<and> \<bar>r - g\<bar> < 50,
        yellow, 2.0),
     (h \<ge> 80 \<and> h \<le> 160 \<and> s > 80 \<and> v > 80 \<and> g > r * 1.4 \<and> g > b * 1.4, green, 2.5),
     (h \<ge> 210 \<and> h \<le> 270 \<and> s > 80 \<and> v > 80 \<and> b > r * 1.4 \<and> b > g * 1.4 \<and> b > 100, blue, 3.0)]"

definition rgbRules :: "real \<Rightarrow> real \<Rightarrow> real \<Rightarrow> (bool \<times> color \<times> real) list" where
  "rgbRules r g b =
     (let mx = max r (max g b); mn = min r (min g b); diff = mx - mn; avg = (r + g + b) / 3
      in [
     (avg > 160 \<and> diff < 60 \<and> r > 140 \<and> g > 140 \<and> b > 140, white, 2.5),
     (r > 130 \<and> r > g * 1.8 \<and> r > b * 1.8 \<and> g < 80 \<and> b < 80, red, 2.0),
     (r > 120 \<and> g > 80 \<and> b < 80 \<and> r > g \<and> g > b \<and> r - g < 50 \<and> g > 80, orange, 2.0),
     (r > 120 \<and> g > 120 \<and> b < 120 \<and> \<bar>r - g\<bar> < 60, yellow, 1.5),
     (g > 130 \<and> g > r * 1.4 \<and> g > b * 1.4 \<and> r < 120 \<and> b < 120, green, 2.0),
     (b > 130 \<and> b > r * 1.4 \<and> b > g * 1.4 \<and> r < 120 \<and> g < 120, blue, 2.5)])"

definition labRules :: "real \<Rightarrow> real \<Rightarrow> real \<Rightarrow> (bool \<times> color \<times> real) list" where
  "labRules l a b = [
     (l > 70 \<and> \<bar>a\<bar> < 25 \<and> \<bar>b\<bar> < 25, white, 2.5),
     (a > 35 \<and> l > 45 \<and> b < 15, red, 2.0),
     (a > 20 \<and> b > 20 \<and> l > 55 \<and> a < 40, orange, 2.0),
     (b > 25 \<and> \<bar>a\<bar> < 30 \<and> l > 60 \<and> b < 60, yellow, 1.5),
     (a < - 20 \<and> l > 45 \<and> b > 5, green, 2.0),
     (b < - 25 \<and> l > 45 \<and> a < - 5, blue, 2.5)]"

definition distanceScore :: "real \<Rightarrow> real \<Rightarrow> real \<Rightarrow> real \<times> real \<times> real \<Rightarrow> real" where
  "distanceScore r g b ref =
     (case ref of (ref_r, ref_g, ref_b) \<Rightarrow>
        let distance = sqrt ((r - ref_r)\<^sup>2 + (g - ref_g)\<^sup>2 + (b - ref_b)\<^sup>2)
        in max 0 (1 - distance / 250))"

definition distanceScores :: "real \<Rightarrow> real \<Rightarrow> real \<Rightarrow> scores \<Rightarrow> scores" where
  "distanceScores r g b sc =
     foldl (\<lambda>sc (c, ref). addScore c (distanceScore r g b ref * 1.5) sc) sc referenceColors"

definition whiteYellowAdjust :: "real \<Rightarrow> real \<Rightarrow> real \<Rightarrow> scores \<Rightarrow> scores" where
  "whiteYellowAdjust r g b sc =
     (if scoreOf sc white > 0 \<and> scoreOf sc yellow > 0 then
        (let avg = (r + g + b) / 3
         in if avg > 180 then addScore yellow (- 0.5) (addScore white 1.0 sc) else sc)
      else sc)"

definition detectColorRevolutionaryFinite :: "real \<Rightarrow> real \<Rightarrow> real \<Rightarrow> color option" where
  "detectColorRevolutionaryFinite r g b = do {
     (h, s, v) \<leftarrow> rgbToHsv r g b;
     let (l, a, b_lab) = rgbToLab r g b;
     let sc = applyRules (hsvRules h s v r g b) colorScores0;
     let sc = applyRules (rgbRules r g b) sc;
     let sc = applyRules (labRules l a b) sc;
     let sc = distanceScores r g b sc;
     let sc = whiteYellowAdjust r g b sc;
     let (bestColor, bestScore) = bestOf sc;
     Some (if bestScore > 1.5 then bestColor else unknown)
   }"

text \<open>
  \<open>detectColorWithCorrection(r, g, b)\<close> tries \<open>detectColorRevolutionary\<close> on the corrected,
  the calibrated and the original triple, and then three further detectors
  (\<open>detectColorAdvanced\<close>, \<open>detectColorNeural\<close>, \<open>detectColorUltraAccurate\<close>), each only while
  the label is still \<open>'unknown'\<close>.  The three further detectors are parameters of the
  model: what is proved of \<open>detectColorWithCorrection\<close> holds whatever they compute.

  The corrected and the calibrated triple may hold \<open>NaN\<close> (a black pixel gives the average
  0 and the boost \<open>150 / 0\<close>, and \<open>0 * Infinity\<close> is \<open>NaN\<close>).  When a channel is \<open>NaN\<close>, every
  distance of technique 4 is \<open>NaN\<close>, so is each of the six scores after
  \<open>colorScores[color] += score * 1.5\<close>, no score passes \<open>score > bestScore\<close>, and
  \<open>detectColorRevolutionary\<close> returns \<open>'unknown'\<close>.  What it returns on a triple with an
  infinite channel and no \<open>NaN\<close>, which takes a negative channel value to come about, is a
  fourth parameter of the model.
\<close>

record detectors =
  detectColorAdvanced :: "jsnum \<Rightarrow> jsnum \<Rightarrow> jsnum \<Rightarrow> color option"
  detectColorNeural :: "jsnum \<Rightarrow> jsnum \<Rightarrow> jsnum \<Rightarrow> color option"
  detectColorUltraAccurate :: "jsnum \<Rightarrow> jsnum \<Rightarrow> jsnum \<Rightarrow> color option"
  revolutionaryAtInfinity :: "jsnum \<Rightarrow> jsnum \<Rightarrow> jsnum \<Rightarrow> color"

definition detectColorRevolutionary :: "detectors \<Rightarrow> jsnum \<Rightarrow> jsnum \<Rightarrow> jsnum \<Rightarrow> color option" where
  "detectColorRevolutionary ds r g b =
     (case (r, g, b) of
        (Num x, Num y, Num z) \<Rightarrow> detectColorRevolutionaryFinite x y z
      | _ \<Rightarrow> if r = NaN \<or> g = NaN \<or> b = NaN then Some unknown
             else Some (revolutionaryAtInfinity ds r g b))"

definition orElse :: "color \<Rightarrow> color option \<Rightarrow> color option" where
  "orElse color next = (if color = unknown then next else Some color)"

definition detectColorWithCorrection ::
  "calibration option \<Rightarrow> detectors \<Rightarrow> real \<Rightarrow> real \<Rightarrow> real \<Rightarrow> color option" where
  "detectColorWithCorrection calibrationData ds r g b = do {
     (cal_r, cal_g, cal_b) \<leftarrow> applyColorCalibration calibrationData r g b;
     let (cor_r, cor_g, cor_b) = correctColorForLighting cal_r cal_g cal_b;
     color \<leftarrow> detectColorRevolutionary ds cor_r cor_g cor_b;
     color \<leftarrow> orElse color (detectColorRevolutionary ds cal_r cal_g cal_b);
     color \<leftarrow> orElse color (detectColorRevolutionary ds (Num r) (Num g) (Num b));
     color \<leftarrow> orElse color (detectColorAdvanced ds cor_r cor_g cor_b);
     color \<leftarrow> orElse color (detectColorNeural ds cor_r cor_g cor_b);
     color \<leftarrow> orElse color (detectColorUltraAccurate ds (Num r) (Num g) (Num b));
     Some color
   }"

text \<open>
  \<open>getColorConfidenceRevolutionary(color, r, g, b)\<close>: each \<open>if (cond) confidence += x\<close> adds
  \<open>x\<close> when \<open>cond\<close> holds.  As in the detector, the LAB tests read the blue channel \<open>b\<close>.
\<close>

definition bonus :: "bool \<Rightarrow> real \<Rightarrow> real" where
  "bonus cond x = (if cond then x else 0)"

definition getColorConfidenceRevolutionary :: "color \<Rightarrow> real \<Rightarrow> real \<Rightarrow> real \<Rightarrow> real option" where
  "getColorConfidenceRevolutionary color r g b =
     (if color = unknown then Some 0
      else do {
        (h, s, v) \<leftarrow> rgbToHsv r g b;
        let (l, a, b_lab) = rgbToLab r g b;
        let confidence = (case color of
            white \<Rightarrow>
              bonus (v > 180 \<and> s < 60) 0.3
              + bonus (\<bar>r - g\<bar> < 40 \<and> \<bar>g - b\<bar> < 40 \<and> \<bar>r - b\<bar> < 40) 0.3
              + bonus (r > 140 \<and> g > 140 \<and> b > 140) 0.2
              + bonus (l > 70 \<and> \<bar>a\<bar> < 25 \<and> \<bar>b\<bar> < 25) 0.2
              + bonus ((r + g + b) / 3 > 180) 0.1
          | red \<Rightarrow>
              bonus ((h < 15 \<or> h > 345) \<and> s > 80 \<and> v > 80) 0.3
              + bonus (r > g * 1.4 \<and> r > b * 1.4) 0.3
              + bonus (r > 130 \<and> g < 120 \<and> b < 120) 0.2
              + bonus (a > 30 \<and> l > 45) 0.2
          | orange \<Rightarrow>
              bonus (h \<ge> 15 \<and> h \<le> 45 \<and> s > 80 \<and> v > 80) 0.3
              + bonus (r > g \<and> g > b \<and> r > 100) 0.3
              + bonus (r > 120 \<and> g > 70 \<and> b < 90) 0.2
              + bonus (a > 20 \<and> b > 20 \<and> l > 55) 0.2
              + bonus (h \<ge> 15 \<and> h \<le> 45 \<and> r - g < 80) 0.1
          | yellow \<Rightarrow>
              bonus (h \<ge> 45 \<and> h \<le> 75 \<and> s > 80 \<and> v > 150) 0.3
              + bonus (r > 120 \<and> g > 120 \<and> b < 120 \<and> \<bar>r - g\<bar> < 60) 0.3
              + bonus (r > 120 \<and> g > 120 \<and> b < 120) 0.2
              + bonus (b > 25 \<and> \<bar>a\<bar> < 30 \<and> l > 60) 0.2
          | green \<Rightarrow>
              bonus (h \<ge> 80 \<and> h \<le> 160 \<and> s > 80 \<and> v > 80) 0.3
              + bonus (g > r * 1.4 \<and> g > b * 1.4) 0.3
              + bonus (g > 130 \<and> r < 120 \<and> b < 120) 0.2
              + bonus (a < - 20 \<and> l > 45) 0.2
          | blue \<Rightarrow>
              bonus (h \<ge> 210 \<and> h \<le> 270 \<and> s > 80 \<and> v > 80) 0.3
              + bonus (b > r * 1.4 \<and> b > g * 1.4 \<and> b > 100) 0.3
              + bonus (b > 130 \<and> r < 120 \<and> g < 120) 0.2
              + bonus (b < - 25 \<and> l > 45) 0.2
          | unknown \<Rightarrow> 0);
        let confidence = (if confidence > 0.7 then min 1.0 (confidence * 1.15) else confidence);
        Some (min 1.0 confidence)
      })"

subsection \<open>Alignment scorer\<close>

text \<open>
  \<open>colorCounts\<close> is an object filled by \<open>colorCounts[c] = (colorCounts[c] || 0) + 1\<close>: an
  association list in the order of first occurrence, which is the order
  \<open>Object.entries\<close> and \<open>Object.keys\<close> use.
\<close>

fun bump :: "color \<Rightarrow> (color \<times> nat) list \<Rightarrow> (color \<times> nat) list" where
  "bump c [] = [(c, 1)]"
| "bump c ((k, n) # m) = (if k = c then (k, n + 1) # m else (k, n) # bump c m)"

definition countColors :: "(color \<Rightarrow> bool) \<Rightarrow> color list \<Rightarrow> (color \<times> nat) list" where
  "countColors counted cs = foldl (\<lambda>m c. if counted c then bump c m else m) [] cs"

definition countOf :: "(color \<times> nat) list \<Rightarrow> color \<Rightarrow> nat" where
  "countOf m c = (case map_of m c of Some n \<Rightarrow> n | None \<Rightarrow> 0)"

text \<open>
  \<open>calculateAlignmentScore(validDetections, totalConfidence, colors)\<close>, called by
  \<open>analyzeColorsUltraAccurate\<close>, and the score expression of \<open>analyzeColorsOptimized\<close>, the
  analysis that \<open>processFrame\<close> runs.  Every operation on the two numeric arguments is
  rounded; \<open>uniqueColors * 2\<close> is a product of small integers.
\<close>

definition calculateAlignmentScore :: "nat \<Rightarrow> real \<Rightarrow> color list list \<Rightarrow> real" where
  "calculateAlignmentScore validDetections totalConfidence colors =
     (if colors = [] then 0
      else
        let detectionScore = fmul (fdiv (real validDetections) 9) 60;
            confidenceScore = min 30 (fmul (fdiv totalConfidence 9) 30);
            colorCounts = countColors (\<lambda>c. c \<noteq> unknown) (concat colors);
            uniqueColors = length colorCounts;
            distributionScore = min 10 (real uniqueColors * 2);
            totalScore = fadd (fadd detectionScore confidenceScore) distributionScore
        in min 100 (Math_round totalScore))"

definition optimizedAlignmentScore :: "nat \<Rightarrow> real \<Rightarrow> real" where
  "optimizedAlignmentScore validDetections totalConfidence =
     min 100 (fadd (fmul (fdiv (real validDetections) 9) 100) (fmul (fdiv totalConfidence 9) 30))"

text \<open>The score formula of the specification, in exact arithmetic.\<close>

definition specAlignmentScore :: "nat \<Rightarrow> real \<Rightarrow> nat \<Rightarrow> real" where
  "specAlignmentScore validDetections avgConfidence uniqueColorCount =
     min 100 (60 * (real validDetections / 9) + min 30 (30 * avgConfidence)
              + min 10 (2 * real uniqueColorCount))"

definition uniqueColorCount :: "color list list \<Rightarrow> nat" where
  "uniqueColorCount colors = card (set (concat colors) - {unknown})"


subsection \<open>Grid consistency corrector\<close>

text \<open>
  The three validators work on \<open>colors\<close>, an array of rows of labels, and write into its
  rows.  \<open>mapCells\<close> is the double loop (or double \<open>forEach\<close>) that visits every cell once,
  with its row and column index, and may overwrite the cell it visits.
\<close>

definition mapCells :: "(nat \<Rightarrow> nat \<Rightarrow> color \<Rightarrow> color) \<Rightarrow> color list list \<Rightarrow> color list list" where
  "mapCells f colors =
     map (\<lambda>(i, row). map (\<lambda>(j, c). f i j c) (enumerate 0 row)) (enumerate 0 colors)"

definition positions :: "color \<Rightarrow> color list list \<Rightarrow> (nat \<times> nat) list" where
  "positions c colors =
     concat (map (\<lambda>(i, row). map (\<lambda>(j, x). (i, j)) (filter (\<lambda>(j, x). x = c) (enumerate 0 row)))
                 (enumerate 0 colors))"

text \<open>
  The loops of \<open>validateAndCorrectColors\<close> that overwrite the first \<open>limit\<close> cells of colour
  \<open>from\<close> in reading order: both loops stop as soon as \<open>changed < limit\<close> fails.
\<close>

fun recolorRow :: "color \<Rightarrow> color \<Rightarrow> nat \<Rightarrow> nat \<Rightarrow> color list \<Rightarrow> color list \<times> nat" where
  "recolorRow from to limit changed [] = ([], changed)"
| "recolorRow from to limit changed (c # cs) =
     (if changed < limit then
        (if c = from then
           (case recolorRow from to limit (changed + 1) cs of (cs', ch) \<Rightarrow> (to # cs', ch))
         else
           (case recolorRow from to limit changed cs of (cs', ch) \<Rightarrow> (c # cs', ch)))
      else (c # cs, changed))"

fun recolorGrid ::
  "color \<Rightarrow> color \<Rightarrow> nat \<Rightarrow> nat \<Rightarrow> color list list \<Rightarrow> color list list \<times> nat" where
  "recolorGrid from to limit changed [] = ([], changed)"
| "recolorGrid from to limit changed (row # rows) =
     (if changed < limit then
        (case recolorRow from to limit changed row of (row', ch) \<Rightarrow>
           (case recolorGrid from to limit ch rows of (rows', ch') \<Rightarrow> (row' # rows', ch')))
      else (row # rows, changed))"

definition validColors :: "color list" where
  "validColors = [red, orange, yellow, green, blue, white]"

definition validateAndCorrectColors :: "color list list \<Rightarrow> color list list" where
  "validateAndCorrectColors colors =
     (if colors = [] then colors
      else
        let colorCounts = countColors (\<lambda>c. c \<in> set validColors) (concat colors)
        in foldl (\<lambda>colors (color, count).
             if count > 6 then
               (if color = yellow \<and> count > 6 then
                  (if countOf colorCounts orange < 3
                   then fst (recolorGrid yellow orange (count - 6) 0 colors) else colors)
                else if color = orange \<and> count > 6 then
                  (if countOf colorCounts red < 3
                   then fst (recolorGrid orange red (count - 6) 0 colors) else colors)
                else colors)
             else colors) colors colorCounts)"

definition validateColorConfusion :: "color list list \<Rightarrow> color list list" where
  "validateColorConfusion colors =
     (if colors = [] then colors
      else
        let colorCounts = countColors (\<lambda>c. c \<noteq> unknown) (concat colors);
            hasWhite = (countOf colorCounts white > 0);
            hasYellow = (countOf colorCounts yellow > 0);
            correctedColors =
              (if hasWhite \<and> hasYellow then
                 let whitePositions = positions white colors;
                     yellowPositions = positions yellow colors;
                     yellowInCenter = list_ex (\<lambda>(row, col). row = 1 \<and> col = 1) yellowPositions;
                     whiteInCenter = list_ex (\<lambda>(row, col). row = 1 \<and> col = 1) whitePositions
                 in if whiteInCenter \<and> \<not> yellowInCenter then
                      mapCells (\<lambda>rowIndex colIndex color.
                        if color = white then yellow
                        else if color = yellow then white else color) colors
                    else colors
               else colors);
            hasOrange = (countOf colorCounts orange > 0);
            hasRed = (countOf colorCounts red > 0)
        in if hasOrange \<and> hasRed then
             (if countOf colorCounts orange > countOf colorCounts red then
                mapCells (\<lambda>rowIndex colIndex color.
                  if color = orange then
                    (let isEdgeOrCorner =
                           (rowIndex = 0 \<or> rowIndex = 2 \<or> colIndex = 0 \<or> colIndex = 2)
                     in if isEdgeOrCorner \<and> countOf colorCounts orange > 2 then red else color)
                  else color) correctedColors
              else correctedColors)
           else correctedColors)"

definition validateBlueYellowConfusion :: "color list list \<Rightarrow> color list list" where
  "validateBlueYellowConfusion colors0 =
     (if colors0 = [] then colors0
      else
        let colorCounts = countColors (\<lambda>c. True) (concat colors0);
            blueCount = countOf colorCounts blue;
            yellowCount = countOf colorCounts yellow;
            colors =
              (if yellowCount > 4 \<and> blueCount < 2 then
                 mapCells (\<lambda>i j c.
                   if c = yellow then
                     (let isEdgeOrCorner = (i = 0 \<or> i = 2 \<or> j = 0 \<or> j = 2)
                      in if isEdgeOrCorner \<and> yellowCount > 4 then blue else c)
                   else c) colors0
               else colors0)
        in if blueCount > 4 \<and> yellowCount < 2 then
             mapCells (\<lambda>i j c.
               if c = blue then
                 (let isCenterOrMiddle = (i = 1 \<or> j = 1)
                  in if isCenterOrMiddle \<and> blueCount > 4 then yellow else c)
               else c) colors
           else colors)"

text \<open>
  The correction pass of \<open>analyzeColorsOptimized\<close> and \<open>analyzeColorsUltraAccurate\<close>: the
  three validators in this order.
\<close>

definition correctionPass :: "color list list \<Rightarrow> color list list" where
  "correctionPass colors =
     validateBlueYellowConfusion (validateColorConfusion (validateAndCorrectColors colors))"

definition grid3x3 :: "'a list list \<Rightarrow> bool" where
  "grid3x3 g = (length g = 3 \<and> list_all (\<lambda>row. length row = 3) g)"

definition allYellow :: "color list list" where
  "allYellow = [[yellow, yellow, yellow], [yellow, yellow, yellow], [yellow, yellow, yellow]]"

definition allWhite :: "color list list" where
  "allWhite = [[white, white, white], [white, white, white], [white, white, white]]"

definition mixedFace :: "color list list" where
  "mixedFace = [[white, red, green], [white, white, blue], [orange, yellow, green]]"

definition threeColours :: "color list list" where
  "threeColours = [[white, white, white], [red, red, red], [blue, blue, blue]]"

text \<open>
  Notions used to state and prove properties of the validators: the number of cells of a grid
  that carry a label, the centre cell, the cell functions that the loops of
  \<open>validateColorConfusion\<close> and \<open>validateBlueYellowConfusion\<close> apply, and the two conditions
  of \<open>validateColorConfusion\<close> in terms of counts.
\<close>

definition cnt :: "color \<Rightarrow> color list list \<Rightarrow> nat" where
  "cnt c g = count_list (concat g) c"

definition swapWY :: "color \<Rightarrow> color" where
  "swapWY c = (if c = white then yellow else if c = yellow then white else c)"

definition centre :: "color list list \<Rightarrow> color" where
  "centre g = g ! 1 ! 1"

definition edgeRed :: "nat \<Rightarrow> nat \<Rightarrow> color \<Rightarrow> color" where
  "edgeRed i j c = (if c = orange \<and> (i = 0 \<or> i = 2 \<or> j = 0 \<or> j = 2) then red else c)"

definition swapCond :: "color list list \<Rightarrow> bool" where
  "swapCond g = (cnt yellow g > 0 \<and> centre g = white)"

definition redCond :: "color list list \<Rightarrow> bool" where
  "redCond g = (cnt red g > 0 \<and> cnt orange g > cnt red g \<and> cnt orange g > 2)"

definition yellowToBlue :: "nat \<Rightarrow> nat \<Rightarrow> color \<Rightarrow> color" where
  "yellowToBlue i j c = (if c = yellow \<and> (i = 0 \<or> i = 2 \<or> j = 0 \<or> j = 2) then blue else c)"

section \<open>Properties of the move transform engine\<close>

subsection \<open>Evaluating the engine on 3 by 3 grids\<close>

lemma wf_gridE:
  assumes "wf_grid g"
  obtains a b c d e f h i j where "g = [[a, b, c], [d, e, f], [h, i, j]]"
proof -
  from assms obtain r0 r1 r2 where g: "g = [r0, r1, r2]"
    by (auto simp: wf_grid_def length_Suc_conv numeral_3_eq_3)
  from assms g have "length r0 = 3" "length r1 = 3" "length r2 = 3"
    by (auto simp: wf_grid_def)
  then obtain a b c d e f h i j where "r0 = [a, b, c]" "r1 = [d, e, f]" "r2 = [h, i, j]"
    by (auto simp: length_Suc_conv numeral_3_eq_3)
  with g show ?thesis using that by blast
qed

lemma wf_cubeE:
  assumes "wf_cube s"
  obtains f0 f1 f2 f3 f4 f5 f6 f7 f8 b0 b1 b2 b3 b4 b5 b6 b7 b8
          u0 u1 u2 u3 u4 u5 u6 u7 u8 d0 d1 d2 d3 d4 d5 d6 d7 d8
          l0 l1 l2 l3 l4 l5 l6 l7 l8 r0 r1 r2 r3 r4 r5 r6 r7 r8
  where "s = \<lparr>front_colors = [[f0, f1, f2], [f3, f4, f5], [f6, f7, f8]],
               back_colors = [[b0, b1, b2], [b3, b4, b5], [b6, b7, b8]],
               up_colors = [[u0, u1, u2], [u3, u4, u5], [u6, u7, u8]],
               down_colors = [[d0, d1, d2], [d3, d4, d5], [d6, d7, d8]],
               left_colors = [[l0, l1, l2], [l3, l4, l5], [l6, l7, l8]],
               right_colors = [[r0, r1, r2], [r3, r4, r5], [r6, r7, r8]]\<rparr>"
proof -
  obtain F B U D L R where s: "s = \<lparr>front_colors = F, back_colors = B, up_colors = U,
      down_colors = D, left_colors = L, right_colors = R\<rparr>"
    by (cases s) auto
  from assms s have w: "wf_grid F" "wf_grid B" "wf_grid U" "wf_grid D" "wf_grid L" "wf_grid R"
    by (simp_all add: wf_cube_def)
  from w(1) obtain f0 f1 f2 f3 f4 f5 f6 f7 f8
    where F: "F = [[f0, f1, f2], [f3, f4, f5], [f6, f7, f8]]" by (rule wf_gridE)
  from w(2) obtain b0 b1 b2 b3 b4 b5 b6 b7 b8
    where B: "B = [[b0, b1, b2], [b3, b4, b5], [b6, b7, b8]]" by (rule wf_gridE)
  from w(3) obtain u0 u1 u2 u3 u4 u5 u6 u7 u8
    where U: "U = [[u0, u1, u2], [u3, u4, u5], [u6, u7, u8]]" by (rule wf_gridE)
  from w(4) obtain d0 d1 d2 d3 d4 d5 d6 d7 d8
    where D: "D = [[d0, d1, d2], [d3, d4, d5], [d6, d7, d8]]" by (rule wf_gridE)
  from w(5) obtain l0 l1 l2 l3 l4 l5 l6 l7 l8
    where L: "L = [[l0, l1, l2], [l3, l4, l5], [l6, l7, l8]]" by (rule wf_gridE)
  from w(6) obtain r0 r1 r2 r3 r4 r5 r6 r7 r8
    where R: "R = [[r0, r1, r2], [r3, r4, r5], [r6, r7, r8]]" by (rule wf_gridE)
  show ?thesis by (rule that) (simp add: s F B U D L R)
qed

text \<open>The two rotations of a 3 by 3 face, as the loops of \<open>rotate2DArray\<close> compute them.\<close>

lemma rotate2DArray_clockwise_3:
  "rotate2DArray [[a, b, c], [d, e, f], [h, i, j]] True = Some [[h, d, a], [i, e, b], [j, f, c]]"
  by (simp add: rotate2DArray_def getCell_def setCell_def Let_def upt_rec_numeral)

lemma rotate2DArray_counter_3:
  "rotate2DArray [[a, b, c], [d, e, f], [h, i, j]] False = Some [[c, f, j], [b, e, i], [a, d, h]]"
  by (simp add: rotate2DArray_def getCell_def setCell_def Let_def upt_rec_numeral)

lemmas move_defs = applyMoveToCubeState_def parseMove_def jsonCopy_def
  rotateFrontFace_def rotateBackFace_def rotateRightFace_def rotateLeftFace_def
  rotateUpFace_def rotateDownFace_def rotate2DArray_clockwise_3 rotate2DArray_counter_3
  frontEdges_def backEdges_def rightEdges_def leftEdges_def upEdges_def downEdges_def
  getCell_def setCell_def valueStore_def readSticker_def writeSticker_def mv_def

lemma wf_solvedCubeData: "wf_cube solvedCubeData"
  by (simp add: wf_cube_def wf_grid_def solvedCubeData_def)

lemma wf_solvedAfterR: "wf_cube solvedAfterR"
  by (simp add: wf_cube_def wf_grid_def solvedAfterR_def)

lemma solvedAfterR_reached: "applyMoveToCubeState solvedCubeData ''R'' = Some solvedAfterR"
  by (simp add: solvedCubeData_def solvedAfterR_def move_defs)

subsection \<open>Quarter turns\<close>

text \<open>
  Eleven of the twelve quarter turns have order four on every well-formed state: all but
  the clockwise back turn \<open>B\<close>.
\<close>

lemma quarter_turn_order_four_except_B:
  assumes "wf_cube s" and "m \<in> set quarterTurnMoves" and "m \<noteq> ''B''"
  shows "fourTimes s m = Some s"
  using assms
  apply (elim wf_cubeE)
  apply (simp add: quarterTurnMoves_def faceLetters_def fourTimes_def)
  apply (elim disjE)
  apply (simp_all add: move_defs)
  done

text \<open>
  C1 (every quarter turn applied four times returns the state it started from) fails for
  the move \<open>B\<close>.  The clockwise branch of \<open>rotateBackFace\<close> moves the left column to the
  bottom row with \<open>down[2][0] = left[2][0]\<close> and \<open>down[2][2] = left[0][0]\<close>, and the saved
  top row to the left column reversed; a corner sticker of the cycle therefore returns
  after eight turns, not four.  On the state reached from the solved cube by \<open>R\<close>, four
  \<open>B\<close> turns exchange \<open>up[0][0]\<close> with \<open>up[0][2]\<close> and \<open>down[2][0]\<close> with \<open>down[2][2]\<close>.
\<close>

theorem back_turn_four_times_differs:
  "wf_cube solvedAfterR \<and> ''B'' \<in> set quarterTurnMoves
   \<and> fourTimes solvedAfterR ''B'' = Some (solvedAfterR\<lparr>
        up_colors := [[Label ''green'', Label ''white'', Label ''white''],
                      [Label ''white'', Label ''white'', Label ''green''],
                      [Label ''white'', Label ''white'', Label ''green'']],
        down_colors := [[Label ''yellow'', Label ''yellow'', Label ''blue''],
                        [Label ''yellow'', Label ''yellow'', Label ''blue''],
                        [Label ''blue'', Label ''yellow'', Label ''yellow'']]\<rparr>)
   \<and> fourTimes solvedAfterR ''B'' \<noteq> Some solvedAfterR"
  by (simp add: wf_cube_def wf_grid_def quarterTurnMoves_def faceLetters_def
      solvedAfterR_def fourTimes_def move_defs)

subsection \<open>Half turns\<close>

text \<open>
  \<open>parseMove\<close> computes the angle \<open>Math.PI\<close> for the suffix \<open>2\<close>, but
  \<open>applyMoveToCubeState\<close> passes only \<open>clockwise\<close> on: a half-turn move does what the
  plain face letter does.
\<close>

lemma half_turn_notation_is_quarter_turn:
  assumes "f \<in> set faceLetters"
  shows "snd (snd (parseMove (f @ ''2''))) = 2"
    and "applyMoveToCubeState s (f @ ''2'') = applyMoveToCubeState s f"
  using assms by (auto simp: faceLetters_def applyMoveToCubeState_def parseMove_def)

text \<open>
  C2 (a half-turn move applied twice returns the state it started from; one application
  equals two quarter turns) fails: on the solved cube \<open>R2\<close> returns what \<open>R\<close> returns, which
  is not what two \<open>R\<close> turns return, and \<open>R2\<close> twice does not restore the solved cube.
\<close>

theorem half_turn_twice_differs:
  "wf_cube solvedCubeData \<and> ''R2'' \<in> set halfTurnMoves
   \<and> applyMoveToCubeState solvedCubeData ''R2'' = Some solvedAfterR
   \<and> applyMoveToCubeState solvedCubeData ''R2'' \<noteq> twice solvedCubeData ''R''
   \<and> twice solvedCubeData ''R2'' \<noteq> Some solvedCubeData"
  by (simp add: wf_cube_def wf_grid_def halfTurnMoves_def faceLetters_def
      solvedCubeData_def solvedAfterR_def twice_def move_defs)

subsection \<open>Unrecognised moves\<close>

text \<open>
  C4 as stated (a move whose first character is not a face letter signals an
  InvalidMoveError) fails: the \<open>switch\<close> has no \<open>default\<close> branch and the engine raises
  nothing.  For the move \<open>X\<close> on the solved cube it returns the copy of the state.
\<close>

theorem unrecognised_move_counterexample:
  "take 1 ''X'' \<notin> set faceLetters
   \<and> applyMoveToCubeState solvedCubeData ''X'' = Some solvedCubeData
   \<and> applyMoveToCubeState solvedCubeData ''X'' \<noteq> None"
  by (simp add: applyMoveToCubeState_def parseMove_def jsonCopy_def faceLetters_def)

text \<open>
  C4, amended: for every move string whose first character is not one of F, B, U, D, L,
  R (the empty string included) and every state, the engine signals no error and returns
  a copy equal to the input state.
\<close>

theorem unrecognised_move_returns_copy:
  assumes "take 1 m \<notin> set faceLetters"
  shows "applyMoveToCubeState s m = Some s"
  using assms
  by (simp add: applyMoveToCubeState_def parseMove_def jsonCopy_def Let_def faceLetters_def)

theorem unrecognised_move_returns_copy_witness:
  "take 1 ''x2'' \<notin> set faceLetters \<and> applyMoveToCubeState solvedAfterR ''x2'' = Some solvedAfterR"
  using unrecognised_move_returns_copy [of "''x2''" solvedAfterR]
  by (simp add: faceLetters_def)

subsection \<open>Shape invariant\<close>

lemma rotate_face_shape:
  assumes "wf_cube s"
  shows "\<exists>s'. rotateFrontFace s cw = Some s' \<and> wf_cube s'"
    and "\<exists>s'. rotateBackFace s cw = Some s' \<and> wf_cube s'"
    and "\<exists>s'. rotateRightFace s cw = Some s' \<and> wf_cube s'"
    and "\<exists>s'. rotateLeftFace s cw = Some s' \<and> wf_cube s'"
    and "\<exists>s'. rotateUpFace s cw = Some s' \<and> wf_cube s'"
    and "\<exists>s'. rotateDownFace s cw = Some s' \<and> wf_cube s'"
  using assms
  by (elim wf_cubeE; cases cw; simp add: move_defs wf_cube_def wf_grid_def)+

lemma applyMove_shape:
  assumes "wf_cube s"
  shows "\<exists>s'. applyMoveToCubeState s m = Some s' \<and> wf_cube s'"
  using assms rotate_face_shape [OF assms]
  by (simp add: applyMoveToCubeState_def parseMove_def jsonCopy_def Let_def)

lemma wf_cube_stickerCount: "wf_cube s \<Longrightarrow> stickerCount s = 54"
  by (elim wf_cubeE) (simp add: stickerCount_def)

lemma wf_cube_faces: "wf_cube s \<Longrightarrow> length (concat (colorsOf s f)) = 9"
  by (elim wf_cubeE, cases f) simp_all

text \<open>
  C5: for every well-formed state and every move string (the eighteen recognised moves
  among them), the engine returns a state, and that state again has six faces of three
  rows and nine stickers each, 54 stickers in all, as the input has.
\<close>

theorem move_preserves_shape:
  assumes "wf_cube s"
  shows "\<exists>s'. applyMoveToCubeState s m = Some s' \<and> wf_cube s'
          \<and> (\<forall>f. length (colorsOf s' f) = 3 \<and> length (concat (colorsOf s' f)) = 9)
          \<and> stickerCount s' = 54 \<and> stickerCount s = 54"
proof -
  from applyMove_shape [OF assms] obtain s' where
    s': "applyMoveToCubeState s m = Some s'" "wf_cube s'" by blast
  have "length (colorsOf s' f) = 3" for f
    using s'(2) by (cases f) (simp_all add: wf_cube_def wf_grid_def)
  with s' assms show ?thesis
    by (simp add: wf_cube_faces wf_cube_stickerCount)
qed

theorem move_preserves_shape_witness:
  "wf_cube solvedAfterR
   \<and> (\<exists>s'. applyMoveToCubeState solvedAfterR ''U2'' = Some s' \<and> wf_cube s'
          \<and> (\<forall>f. length (colorsOf s' f) = 3 \<and> length (concat (colorsOf s' f)) = 9)
          \<and> stickerCount s' = 54 \<and> stickerCount solvedAfterR = 54)"
  using move_preserves_shape [of solvedAfterR "''U2''"]
  by (simp add: wf_cube_def wf_grid_def solvedAfterR_def)

subsection \<open>The opposite face\<close>

text \<open>
  C10: for every well-formed state and every move that starts with a face letter, the
  engine returns a state in which the face opposite the turned one is equal, cell by
  cell, to that face of the input.
\<close>

theorem opposite_face_unchanged:
  assumes "wf_cube s" and "faceOfMove m = Some f"
  shows "\<exists>s'. applyMoveToCubeState s m = Some s'
           \<and> colorsOf s' (oppositeFace f) = colorsOf s (oppositeFace f)"
  using assms
  apply (elim wf_cubeE)
  apply (cases "drop 1 m = [CHR 0x27]")
   apply (auto simp add: faceOfMove_def Let_def move_defs split: if_splits)
  done

theorem opposite_face_unchanged_witness:
  "wf_cube solvedAfterR \<and> faceOfMove [CHR ''F'', CHR 0x27] = Some Front
   \<and> (\<exists>s'. applyMoveToCubeState solvedAfterR [CHR ''F'', CHR 0x27] = Some s'
           \<and> colorsOf s' (oppositeFace Front) = colorsOf solvedAfterR (oppositeFace Front))"
  using opposite_face_unchanged [of solvedAfterR "[CHR ''F'', CHR 0x27]" Front]
  by (simp add: wf_cube_def wf_grid_def solvedAfterR_def faceOfMove_def)

section \<open>The engine and its argument\<close>

subsection \<open>Reading through a heap that has grown\<close>

lemma deref_append: "deref h x = Some ob \<Longrightarrow> deref (h @ e) x = Some ob"
  by (auto simp: deref_def nth_append split: if_splits)

lemma rowCells_append: "rowCells h x = Some cs \<Longrightarrow> rowCells (h @ e) x = Some cs"
  by (auto simp: rowCells_def deref_append split: option.splits obj.splits)

lemma those_rowCells_append:
  "those (map (rowCells h) rows) = Some g \<Longrightarrow> those (map (rowCells (h @ e)) rows) = Some g"
  by (induction rows arbitrary: g) (auto simp: rowCells_append split: option.splits)

lemma readGrid_append: "readGrid h x = Some g \<Longrightarrow> readGrid (h @ e) x = Some g"
  by (auto simp: readGrid_def deref_append those_rowCells_append split: option.splits obj.splits)

lemma faceRef_append: "faceRef h a f = Some x \<Longrightarrow> faceRef (h @ e) a f = Some x"
  by (auto simp: faceRef_def deref_append split: option.splits obj.splits)

lemma colorsRef_append:
  assumes "colorsRef h a f = Some x"
  shows "colorsRef (h @ e) a f = Some x"
proof -
  from assms obtain fa where fa: "faceRef h a f = Some fa"
    and "(case deref h fa of Some (Face g) \<Rightarrow> Some g | _ \<Rightarrow> None) = Some x"
    by (auto simp: colorsRef_def bind_eq_Some_conv)
  then have "deref h fa = Some (Face x)"
    by (auto split: option.splits obj.splits)
  then have "deref (h @ e) fa = Some (Face x)" by (rule deref_append)
  with faceRef_append [OF fa, of e] show ?thesis by (simp add: colorsRef_def)
qed

lemma readFace_append: "readFace h a f = Some g \<Longrightarrow> readFace (h @ e) a f = Some g"
  by (auto simp: readFace_def colorsRef_append readGrid_append bind_eq_Some_conv)

lemma readCube_append: "readCube h a = Some s \<Longrightarrow> readCube (h @ e) a = Some s"
  by (auto simp: readCube_def readFace_append bind_eq_Some_conv)

subsection \<open>The copy and the six rotations, run on the heap\<close>

lemma newRows3: "newRows h [r0, r1, r2] =
   (h @ [Row r0, Row r1, Row r2], [length h, length h + 1, length h + 2])"
  by (simp add: new_def)

lemma newGrid3: "newGrid h [r0, r1, r2] =
   (h @ [Row r0, Row r1, Row r2, Grid [length h, length h + 1, length h + 2]], length h + 3)"
  by (simp add: newGrid_def newRows3 new_def)

lemma newFace3: "newFace h [r0, r1, r2] = (h @ faceImage (length h) [r0, r1, r2], length h + 4)"
  by (simp add: newFace_def newGrid3 new_def faceImage_def)

lemma length_faceImage: "length (faceImage n g) = 5"
  by (simp add: faceImage_def)

lemma newCube_image:
  assumes "wf_cube s"
  shows "newCube h s = (h @ cubeImage (length h) s, length h + 30)"
  using assms
  by (elim wf_cubeE) (simp add: newCube_def newFace3 length_faceImage new_def cubeImage_def add.assoc)

lemma replicate_3: "replicate 3 x = [x, x, x]"
  by (simp add: numeral_3_eq_3)

lemmas heap_defs = deref_def nth_append list_update_append faceRef_def colorsRef_def rowRef_def
  rowCells_def getCellH_def setCellH_def readStickerH_def writeStickerH_def heapStore_def
  lengthH_def rotate2DArrayH_def rotateOwnH_def readGrid_def readFace_def readCube_def
  cubeObjects_def faceObjects_def gridObjects_def cubeImage_def faceImage_def replicate_3 newGrid3
  upt_rec_numeral

lemma copy_refines:
  assumes "wf_cube s"
  shows "refines h (Some (h @ cubeImage (length h) s, length h + 30)) (Some s)"
  using assms by (elim wf_cubeE) (simp add: refines_def heap_defs)

lemma front_refines:
  assumes "wf_cube s"
  shows "refines h (rotateFrontFaceH (h @ cubeImage (length h) s, length h + 30) cw)
           (rotateFrontFace s cw)"
  using assms
  by (elim wf_cubeE; cases cw) (simp_all add: refines_def rotateFrontFaceH_def heap_defs move_defs)

lemma back_refines:
  assumes "wf_cube s"
  shows "refines h (rotateBackFaceH (h @ cubeImage (length h) s, length h + 30) cw)
           (rotateBackFace s cw)"
  using assms
  by (elim wf_cubeE; cases cw) (simp_all add: refines_def rotateBackFaceH_def heap_defs move_defs)

lemma right_refines:
  assumes "wf_cube s"
  shows "refines h (rotateRightFaceH (h @ cubeImage (length h) s, length h + 30) cw)
           (rotateRightFace s cw)"
  using assms
  by (elim wf_cubeE; cases cw) (simp_all add: refines_def rotateRightFaceH_def heap_defs move_defs)

lemma left_refines:
  assumes "wf_cube s"
  shows "refines h (rotateLeftFaceH (h @ cubeImage (length h) s, length h + 30) cw)
           (rotateLeftFace s cw)"
  using assms
  by (elim wf_cubeE; cases cw) (simp_all add: refines_def rotateLeftFaceH_def heap_defs move_defs)

lemma up_refines:
  assumes "wf_cube s"
  shows "refines h (rotateUpFaceH (h @ cubeImage (length h) s, length h + 30) cw)
           (rotateUpFace s cw)"
  using assms
  by (elim wf_cubeE; cases cw) (simp_all add: refines_def rotateUpFaceH_def heap_defs move_defs)

lemma down_refines:
  assumes "wf_cube s"
  shows "refines h (rotateDownFaceH (h @ cubeImage (length h) s, length h + 30) cw)
           (rotateDownFace s cw)"
  using assms
  by (elim wf_cubeE; cases cw) (simp_all add: refines_def rotateDownFaceH_def heap_defs move_defs)

lemma applyMove_refines:
  assumes "readCube h a = Some s" and "wf_cube s"
  shows "refines h (applyMoveToCubeStateH (h, a) m) (applyMoveToCubeState s m)"
  using assms(1) copy_refines [OF assms(2), of h]
    front_refines [OF assms(2), of h] back_refines [OF assms(2), of h]
    right_refines [OF assms(2), of h] left_refines [OF assms(2), of h]
    up_refines [OF assms(2), of h] down_refines [OF assms(2), of h]
  by (simp add: applyMoveToCubeStateH_def applyMoveToCubeState_def jsonCopyH_def jsonCopy_def
      newCube_image [OF assms(2)] split: prod.splits)

subsection \<open>Frame\<close>

text \<open>
  C6: let the heap \<open>h\<close> hold a well-formed cube state \<open>s\<close> at address \<open>a\<close>.  Then, for every
  move string, \<open>applyMoveToCubeState\<close> returns; every object that existed before the call
  is the same after it (the heap after the call extends \<open>h\<close>), so the argument still reads
  as \<open>s\<close>; the object returned reads as the value engine's result; it is made only of
  objects allocated during the call; and overwriting any object allocated during or after
  the call, so any object of the result, leaves the argument reading as \<open>s\<close>.
\<close>

theorem input_unchanged_result_independent:
  assumes "readCube h a = Some s" and "wf_cube s"
  shows "\<exists>h' a'. applyMoveToCubeStateH (h, a) m = Some (h', a')
           \<and> take (length h) h' = h
           \<and> readCube h' a = Some s
           \<and> readCube h' a' = applyMoveToCubeState s m
           \<and> (\<exists>objs. cubeObjects h' a' = Some objs \<and> list_all (\<lambda>x. length h \<le> x) objs)
           \<and> (\<forall>x ob. length h \<le> x \<longrightarrow> readCube (h'[x := ob]) a = Some s)"
proof -
  from applyMove_refines [OF assms, of m] obtain ext objs where
    r: "applyMoveToCubeStateH (h, a) m = Some (h @ ext, length h + 30)"
       "readCube (h @ ext) (length h + 30) = applyMoveToCubeState s m"
       "cubeObjects (h @ ext) (length h + 30) = Some objs"
       "list_all (\<lambda>x. length h \<le> x) objs"
    unfolding refines_def by blast
  have "readCube ((h @ ext)[x := ob]) a = Some s" if "length h \<le> x" for x ob
    using that readCube_append [OF assms(1)] by (simp add: list_update_append)
  with r readCube_append [OF assms(1), of ext] show ?thesis by simp
qed

lemma solvedHeap_image: "solvedHeap = cubeImage 0 solvedCubeData"
  using newCube_image [OF wf_solvedCubeData, of "[]"] by (simp add: solvedHeap_def)

lemma readCube_solvedHeap: "readCube solvedHeap 30 = Some solvedCubeData"
  by (simp add: solvedHeap_image solvedCubeData_def heap_defs)

theorem input_unchanged_result_independent_witness:
  "readCube solvedHeap 30 = Some solvedCubeData \<and> wf_cube solvedCubeData
   \<and> (\<exists>h' a'. applyMoveToCubeStateH (solvedHeap, 30) ''R'' = Some (h', a')
           \<and> take (length solvedHeap) h' = solvedHeap
           \<and> readCube h' 30 = Some solvedCubeData
           \<and> readCube h' a' = Some solvedAfterR
           \<and> (\<exists>objs. cubeObjects h' a' = Some objs \<and> list_all (\<lambda>x. length solvedHeap \<le> x) objs)
           \<and> (\<forall>x ob. length solvedHeap \<le> x \<longrightarrow> readCube (h'[x := ob]) 30 = Some solvedCubeData))"
  using input_unchanged_result_independent [OF readCube_solvedHeap wf_solvedCubeData, of "''R''"]
  by (simp add: readCube_solvedHeap wf_solvedCubeData solvedAfterR_reached)

section \<open>Properties of the perception pipeline\<close>

subsection \<open>Rounding to binary64\<close>

text \<open>
  \<open>roundEven\<close> is monotone, odd and exact on integers; \<open>ulpExp x\<close> is the one exponent \<open>e\<close>
  from \<open>-1074\<close> upwards with \<open>\<bar>x\<bar> < 2 ^ (e + 53)\<close> and, above \<open>-1074\<close>, \<open>2 ^ (e + 52) \<le> \<bar>x\<bar>\<close>.
\<close>

lemma roundEven_of_int: "roundEven (of_int n) = n"
  by (simp add: roundEven_def)

lemma roundEven_floor_le: "\<lfloor>y\<rfloor> \<le> roundEven y"
  by (simp add: roundEven_def Let_def)

lemma roundEven_le_floor1: "roundEven y \<le> \<lfloor>y\<rfloor> + 1"
  by (simp add: roundEven_def Let_def)

lemma roundEven_le_int: "y \<le> of_int n \<Longrightarrow> roundEven y \<le> n"
proof -
  assume a: "y \<le> of_int n"
  show ?thesis
  proof (cases "y = of_int n")
    case True
    then show ?thesis by (simp add: roundEven_of_int)
  next
    case False
    with a have "y < of_int n" by simp
    then have "\<lfloor>y\<rfloor> < n" by (simp add: floor_less_iff)
    with roundEven_le_floor1 [of y] show ?thesis by simp
  qed
qed

lemma roundEven_ge_int: "of_int n \<le> y \<Longrightarrow> n \<le> roundEven y"
proof -
  assume "of_int n \<le> y"
  then have "n \<le> \<lfloor>y\<rfloor>" by (simp add: le_floor_iff)
  with roundEven_floor_le [of y] show ?thesis by simp
qed

lemma roundEven_mono: "x \<le> y \<Longrightarrow> roundEven x \<le> roundEven y"
proof -
  assume xy: "x \<le> y"
  then have f: "\<lfloor>x\<rfloor> \<le> \<lfloor>y\<rfloor>" by (rule floor_mono)
  show ?thesis
  proof (cases "\<lfloor>x\<rfloor> = \<lfloor>y\<rfloor>")
    case True
    with xy show ?thesis by (auto simp: roundEven_def Let_def)
  next
    case False
    with f have "\<lfloor>x\<rfloor> + 1 \<le> \<lfloor>y\<rfloor>" by simp
    with roundEven_le_floor1 [of x] roundEven_floor_le [of y] show ?thesis by simp
  qed
qed

lemma roundEven_minus: "roundEven (- y) = - roundEven y"
proof (cases "y \<in> \<int>")
  case True
  then obtain n where "y = of_int n" by (auto elim: Ints_cases)
  then have "- y = of_int (- n)" by simp
  then show ?thesis unfolding \<open>y = of_int n\<close> by (simp only: roundEven_of_int)
next
  case False
  then have "y \<noteq> of_int \<lfloor>y\<rfloor>" by (metis Ints_of_int)
  then have fl: "\<lfloor>- y\<rfloor> = - \<lfloor>y\<rfloor> - 1"
    by (simp add: floor_minus ceiling_altdef)
  have "even (- \<lfloor>y\<rfloor> - 1) = odd \<lfloor>y\<rfloor>" by simp
  then show ?thesis
    unfolding roundEven_def Let_def fl by (auto simp: field_simps)
qed

lemma roundEven_close: "\<bar>of_int (roundEven y) - y\<bar> \<le> 1 / 2"
  unfolding roundEven_def Let_def
  by (auto simp: abs_le_iff)

lemma pw_mono: "a \<le> b \<Longrightarrow> (2::real) powi a \<le> 2 powi b"
  by (rule power_int_increasing) simp_all

lemma pw_strict: "(2::real) powi a < 2 powi b \<Longrightarrow> a < b"
  by (metis not_le pw_mono)

lemma scale_less: "a * 2 powi c < 2 powi L \<Longrightarrow> a < (2::real) powi (L - c)"
  by (simp add: power_int_diff field_simps)

lemma scale_le: "2 powi L \<le> a * 2 powi c \<Longrightarrow> (2::real) powi (L - c) \<le> a"
  by (simp add: power_int_diff field_simps)

lemma ulpExp_bounds:
  "- 1074 \<le> ulpExp x"
  "\<bar>x\<bar> < 2 powi (ulpExp x + 53)"
  "- 1074 < ulpExp x \<Longrightarrow> 2 powi (ulpExp x + 52) \<le> \<bar>x\<bar>"
proof -
  define n where "n = \<lfloor>\<bar>x\<bar> * 2 ^ 1074\<rfloor>"
  define L where "L = bitlen n"
  have e: "ulpExp x = max (L - 1127) (- 1074)" by (simp add: ulpExp_def n_def L_def)
  show "- 1074 \<le> ulpExp x" by (simp add: e)
  have n0: "0 \<le> n" by (simp add: n_def)
  have lo: "of_int n \<le> \<bar>x\<bar> * 2 ^ 1074" by (simp add: n_def)
  have hi: "\<bar>x\<bar> * 2 ^ 1074 < of_int n + 1" by (simp add: n_def)
  have L0: "0 \<le> L" by (simp add: L_def bitlen_nonneg)
  have p: "(2::real) ^ 1074 = 2 powi 1074" by simp
  have up: "\<bar>x\<bar> < 2 powi (L - 1074)"
  proof -
    have "n < 2 ^ nat L"
    proof (cases "n = 0")
      case True then show ?thesis by simp
    next
      case False
      with n0 have "0 < n" by simp
      from bitlen_bounds [OF this] show ?thesis by (simp add: L_def)
    qed
    then have "n + 1 \<le> 2 ^ nat L" by simp
    then have "(of_int (n + 1) :: real) \<le> of_int (2 ^ nat L)" by (simp only: of_int_le_iff)
    then have "of_int n + 1 \<le> (2::real) powi L" using L0 by (simp add: power_int_def)
    with hi have "\<bar>x\<bar> * 2 powi 1074 < 2 powi L" by simp
    then show ?thesis by (rule scale_less)
  qed
  show "\<bar>x\<bar> < 2 powi (ulpExp x + 53)"
  proof -
    have "L - 1074 \<le> ulpExp x + 53" by (simp add: e)
    then have "(2::real) powi (L - 1074) \<le> 2 powi (ulpExp x + 53)" by (rule pw_mono)
    with up show ?thesis by simp
  qed
  show "2 powi (ulpExp x + 52) \<le> \<bar>x\<bar>" if "- 1074 < ulpExp x"
  proof -
    from that have eq: "ulpExp x = L - 1127" and L: "53 < L" by (simp_all add: e max_def split: if_splits)
    then have "0 < n" using bitlen_eq_zero_iff [of n] n0 by (auto simp: L_def)
    from bitlen_bounds [OF this] have "2 ^ nat (L - 1) \<le> n" by (simp add: L_def)
    then have "(of_int (2 ^ nat (L - 1)) :: real) \<le> of_int n" by (simp only: of_int_le_iff)
    then have "(2::real) powi (L - 1) \<le> of_int n" using L by (simp add: power_int_def)
    with lo have "(2::real) powi (L - 1) \<le> \<bar>x\<bar> * 2 powi 1074" by simp
    then have "(2::real) powi (L - 1 - 1074) \<le> \<bar>x\<bar>" by (rule scale_le)
    then show ?thesis by (simp add: eq)
  qed
qed

lemma ulpExp_eqI:
  assumes "- 1074 \<le> k" "\<bar>x\<bar> < 2 powi (k + 53)" "- 1074 < k \<Longrightarrow> 2 powi (k + 52) \<le> \<bar>x\<bar>"
  shows "ulpExp x = k"
proof (rule ccontr)
  assume ne: "ulpExp x \<noteq> k"
  note b = ulpExp_bounds [of x]
  show False
  proof (cases "ulpExp x < k")
    case True
    with b(1) have "- 1074 < k" by simp
    from assms(3) [OF this] b(2) have "(2::real) powi (k + 52) < 2 powi (ulpExp x + 53)" by simp
    from pw_strict [OF this] True show False by simp
  next
    case False
    with ne have gt: "k < ulpExp x" by simp
    with assms(1) have "- 1074 < ulpExp x" by simp
    from b(3) [OF this] assms(2) have "(2::real) powi (ulpExp x + 52) < 2 powi (k + 53)" by simp
    from pw_strict [OF this] gt show False by simp
  qed
qed

lemma ulpExp_minus: "ulpExp (- x) = ulpExp x"
  by (simp add: ulpExp_def)

lemma fl64_minus: "fl64 (- x) = - fl64 x"
  by (simp add: fl64_def ulpExp_minus roundEven_minus)

lemma fl64_0: "fl64 0 = 0"
  by (simp add: fl64_def roundEven_def)

lemma fl64_eqI:
  assumes "- 1074 \<le> k" "\<bar>x\<bar> < 2 powi (k + 53)" "- 1074 < k \<Longrightarrow> 2 powi (k + 52) \<le> \<bar>x\<bar>"
    and "roundEven (x / 2 powi k) = n"
  shows "fl64 x = of_int n * 2 powi k"
  by (simp add: fl64_def ulpExp_eqI [OF assms(1-3)] assms(4))

text \<open>
  \<open>fl64\<close> leaves a number \<open>m * 2 ^ k\<close> with \<open>\<bar>m\<bar> < 2 ^ 53\<close> and \<open>k \<ge> -1074\<close> as it is, is
  monotone and idempotent.
\<close>

lemma fl64_dyadic:
  assumes m: "\<bar>m\<bar> < 2 ^ 53" and k: "- 1074 \<le> k"
  shows "fl64 (of_int m * 2 powi k) = of_int m * 2 powi k"
proof -
  define x :: real where "x = of_int m * 2 powi k"
  define e where "e = ulpExp x"
  note b = ulpExp_bounds [of x, folded e_def]
  have mm: "(of_int \<bar>m\<bar> :: real) < of_int (2 ^ 53)"
    using m by (simp only: of_int_less_iff)
  have ek: "e \<le> k"
  proof (rule ccontr)
    assume "\<not> e \<le> k"
    then have ke: "k < e" by simp
    with k have "- 1074 < e" by simp
    from b(3) [OF this] have lo: "2 powi (e + 52) \<le> \<bar>x\<bar>" .
    have "\<bar>x\<bar> = of_int \<bar>m\<bar> * 2 powi k" by (simp add: x_def abs_mult)
    also have "\<dots> \<le> of_int (2 ^ 53) * 2 powi k"
      using mm by (intro mult_right_mono) simp_all
    also have "\<dots> = 2 powi (53 + k)" by (simp add: power_int_add)
    finally have "(2::real) powi (e + 52) \<le> 2 powi (53 + k)" using lo by simp
    moreover have "(2::real) powi (53 + k) < 2 powi (e + 52) \<or> 53 + k = e + 52"
      using ke by (cases "53 + k = e + 52") (auto intro!: power_int_strict_increasing)
    ultimately have "53 + k = e + 52" by auto
    then have eq: "e = k + 1" by simp
    have "\<bar>x\<bar> = of_int \<bar>m\<bar> * 2 powi k" by (simp add: x_def abs_mult)
    also have "\<dots> < of_int (2 ^ 53) * 2 powi k"
      using mm by (intro mult_strict_right_mono) simp_all
    also have "\<dots> = 2 powi (e + 52)" by (simp add: power_int_add eq)
    finally show False using lo by simp
  qed
  define j where "j = nat (k - e)"
  have kj: "k = e + int j" using ek by (simp add: j_def)
  have "x / 2 powi e = of_int (m * 2 ^ j)"
    by (simp add: x_def kj power_int_add)
  then have "roundEven (x / 2 powi e) = m * 2 ^ j" by (simp only: roundEven_of_int)
  then have "fl64 x = of_int (m * 2 ^ j) * 2 powi e" by (simp add: fl64_def e_def)
  also have "\<dots> = x" by (simp add: x_def kj power_int_add)
  finally show ?thesis by (simp add: x_def)
qed

lemma fl64_of_int: "\<bar>n\<bar> < 2 ^ 53 \<Longrightarrow> fl64 (of_int n) = of_int n"
  using fl64_dyadic [of n 0] by simp

lemma fl64_nonneg: "0 \<le> x \<Longrightarrow> 0 \<le> fl64 x"
proof -
  assume "0 \<le> x"
  then have "of_int 0 \<le> x / 2 powi ulpExp x" by simp
  then have "0 \<le> roundEven (x / 2 powi ulpExp x)" by (rule roundEven_ge_int)
  then show ?thesis by (simp add: fl64_def)
qed

lemma fl64_mono_nonneg:
  assumes x: "0 \<le> x" and xy: "x \<le> y"
  shows "fl64 x \<le> fl64 y"
proof -
  define ex where "ex = ulpExp x"
  define ey where "ey = ulpExp y"
  note bx = ulpExp_bounds [of x, folded ex_def]
  note by' = ulpExp_bounds [of y, folded ey_def]
  have ax: "\<bar>x\<bar> = x" and ay: "\<bar>y\<bar> = y" using x xy by simp_all
  have le: "ex \<le> ey"
  proof (rule ccontr)
    assume "\<not> ex \<le> ey"
    then have gt: "ey < ex" by simp
    with by'(1) have "- 1074 < ex" by simp
    from bx(3) [OF this] by'(2) xy have "(2::real) powi (ex + 52) < 2 powi (ey + 53)"
      by (simp add: ax ay)
    from pw_strict [OF this] gt show False by simp
  qed
  show ?thesis
  proof (cases "ex = ey")
    case True
    have "x / 2 powi ey \<le> y / 2 powi ey" using xy by (simp add: divide_right_mono)
    then have "roundEven (x / 2 powi ey) \<le> roundEven (y / 2 powi ey)" by (rule roundEven_mono)
    then have "(of_int (roundEven (x / 2 powi ey)) :: real) \<le> of_int (roundEven (y / 2 powi ey))"
      by (simp only: of_int_le_iff)
    then show ?thesis
      unfolding fl64_def ex_def [symmetric] ey_def [symmetric] True
      by (intro mult_right_mono) simp_all
  next
    case False
    with le have lt: "ex < ey" by simp
    with bx(1) have ey: "- 1074 < ey" by simp
    have "x / 2 powi ex < 2 powi 53"
      using bx(2) by (simp add: ax power_int_add field_simps)
    then have "x / 2 powi ex \<le> of_int (2 ^ 53)" by simp
    then have "roundEven (x / 2 powi ex) \<le> 2 ^ 53" by (rule roundEven_le_int)
    then have "(of_int (roundEven (x / 2 powi ex)) :: real) \<le> of_int (2 ^ 53)"
      by (simp only: of_int_le_iff)
    then have "fl64 x \<le> of_int (2 ^ 53) * 2 powi ex"
      unfolding fl64_def ex_def [symmetric] by (intro mult_right_mono) simp_all
    also have "\<dots> = 2 powi (ex + 53)" by (simp add: power_int_add)
    also have "\<dots> \<le> 2 powi (ey + 52)" using lt by (intro pw_mono) simp
    finally have a: "fl64 x \<le> 2 powi (ey + 52)" .
    have "2 powi 52 \<le> y / 2 powi ey"
      using by'(3) [OF ey] by (simp add: ay power_int_add field_simps)
    then have "of_int (2 ^ 52) \<le> y / 2 powi ey" by simp
    then have "2 ^ 52 \<le> roundEven (y / 2 powi ey)" by (rule roundEven_ge_int)
    then have "(of_int (2 ^ 52) :: real) \<le> of_int (roundEven (y / 2 powi ey))"
      by (simp only: of_int_le_iff)
    then have "of_int (2 ^ 52) * 2 powi ey \<le> fl64 y"
      unfolding fl64_def ey_def [symmetric] by (intro mult_right_mono) simp_all
    moreover have "of_int (2 ^ 52) * 2 powi ey = (2::real) powi (ey + 52)" by (simp add: power_int_add)
    ultimately show ?thesis using a by simp
  qed
qed

lemma fl64_mono: "x \<le> y \<Longrightarrow> fl64 x \<le> fl64 y"
proof -
  assume xy: "x \<le> y"
  consider "0 \<le> x" | "x < 0" "0 \<le> y" | "x < 0" "y < 0" by linarith
  then show ?thesis
  proof cases
    case 1
    then show ?thesis using xy by (rule fl64_mono_nonneg)
  next
    case 2
    then have "0 \<le> fl64 (- x)" by (intro fl64_nonneg) simp
    then have "fl64 x \<le> 0" by (simp add: fl64_minus)
    moreover have "0 \<le> fl64 y" using 2 by (intro fl64_nonneg)
    ultimately show ?thesis by simp
  next
    case 3
    then have "fl64 (- y) \<le> fl64 (- x)" using xy by (intro fl64_mono_nonneg) simp_all
    then show ?thesis by (simp add: fl64_minus)
  qed
qed

lemma fl64_idem: "fl64 (fl64 x) = fl64 x"
proof -
  define e where "e = ulpExp x"
  define m where "m = roundEven (x / 2 powi e)"
  note b = ulpExp_bounds [of x, folded e_def]
  have f: "fl64 x = of_int m * 2 powi e" by (simp add: fl64_def e_def m_def)
  define y where "y = x / 2 powi e"
  have "\<bar>y\<bar> < 2 powi 53"
    using b(2) by (simp add: y_def power_int_add field_simps abs_mult)
  then have "y \<le> of_int (2 ^ 53)" "of_int (- (2 ^ 53)) \<le> y"
    by (simp_all add: abs_less_iff)
  then have yb: "x / 2 powi e \<le> of_int (2 ^ 53)" "of_int (- (2 ^ 53)) \<le> x / 2 powi e"
    by (simp_all only: y_def)
  have "m \<le> 2 ^ 53" unfolding m_def using yb(1) by (rule roundEven_le_int)
  moreover have "- (2 ^ 53) \<le> m" unfolding m_def using yb(2) by (rule roundEven_ge_int)
  ultimately have "m \<le> 2 ^ 53" "- (2 ^ 53) \<le> m" by simp_all
  then consider "\<bar>m\<bar> < 2 ^ 53" | "m = 2 ^ 53" | "m = - (2 ^ 53)" by linarith
  then show ?thesis
  proof cases
    case 1
    from fl64_dyadic [OF this b(1)] show ?thesis by (simp only: f)
  next
    case 2
    have "fl64 x = of_int (2 ^ 52) * 2 powi (e + 1)" by (simp add: f 2 power_int_add)
    moreover have "fl64 (of_int (2 ^ 52) * 2 powi (e + 1)) = of_int (2 ^ 52) * 2 powi (e + 1)"
      using b(1) by (intro fl64_dyadic) simp_all
    ultimately show ?thesis by simp
  next
    case 3
    have "fl64 x = of_int (- (2 ^ 52)) * 2 powi (e + 1)" by (simp add: f 3 power_int_add)
    moreover have "fl64 (of_int (- (2 ^ 52)) * 2 powi (e + 1)) = of_int (- (2 ^ 52)) * 2 powi (e + 1)"
      using b(1) by (intro fl64_dyadic) simp_all
    ultimately show ?thesis by simp
  qed
qed

lemma fl64_le: "x \<le> c \<Longrightarrow> fl64 c = c \<Longrightarrow> fl64 x \<le> c"
  using fl64_mono [of x c] by simp

lemma fl64_ge: "c \<le> x \<Longrightarrow> fl64 c = c \<Longrightarrow> c \<le> fl64 x"
  using fl64_mono [of c x] by simp

lemma fl64_1: "fl64 1 = 1"
  using fl64_of_int [of 1] by simp

lemma fl64_numeral: "numeral w < (2::int) ^ 53 \<Longrightarrow> fl64 (numeral w) = numeral w"
  using fl64_of_int [of "numeral w"] by simp

subsection \<open>RGB to HSV\<close>

lemma fl64_255: "fl64 255 = 255" by (simp add: fl64_numeral)
lemma fl64_6: "fl64 6 = 6" by (simp add: fl64_numeral)
lemma fl64_m1: "fl64 (- 1) = - 1" by (simp add: fl64_minus fl64_1)

lemma fdiv_unit:
  assumes "0 \<le> x" "x \<le> 255"
  shows "0 \<le> fdiv x 255" "fdiv x 255 \<le> 1"
proof -
  show "0 \<le> fdiv x 255" using assms unfolding fdiv_def by (intro fl64_nonneg) simp
  have "x / 255 \<le> 1" using assms by simp
  then show "fdiv x 255 \<le> 1" unfolding fdiv_def by (rule fl64_le) (rule fl64_1)
qed

lemma fdiv_255_idem: "fl64 (fdiv x 255) = fdiv x 255"
  by (simp add: fdiv_def fl64_idem)

text \<open>The quotient of the hue: a difference of two channels over the spread.\<close>

lemma hue_quotient:
  assumes d: "d = fsub mx mn" "d \<noteq> 0" and x: "mn \<le> x" "x \<le> mx" and y: "mn \<le> y" "y \<le> mx"
  shows "\<exists>q. js_div (fsub x y) d = Some q \<and> - 1 \<le> q \<and> q \<le> 1
             \<and> (x \<le> y \<longrightarrow> q \<le> 0) \<and> (y \<le> x \<longrightarrow> 0 \<le> q)
             \<and> (d \<le> 1 \<longrightarrow> x - y \<le> - c \<longrightarrow> fl64 (- c) = - c \<longrightarrow> 0 \<le> c \<longrightarrow> q \<le> - c)"
proof -
  have mm: "mn \<le> mx" using x by simp
  then have "0 \<le> d" unfolding d fsub_def by (intro fl64_nonneg) simp
  with d have dpos: "0 < d" by simp
  have up: "fsub x y \<le> d"
    unfolding d fsub_def using x y by (intro fl64_mono) simp
  have "fl64 (- (mx - mn)) \<le> fl64 (x - y)" using x y by (intro fl64_mono) simp
  then have lo: "- d \<le> fsub x y" unfolding d fsub_def by (simp only: fl64_minus)
  define q where "q = fdiv (fsub x y) d"
  have js: "js_div (fsub x y) d = Some q" using d by (simp add: js_div_def q_def)
  have "fsub x y / d \<le> 1" using up dpos by simp
  then have q1: "q \<le> 1" unfolding q_def fdiv_def by (rule fl64_le) (rule fl64_1)
  have "- 1 \<le> fsub x y / d" using lo dpos by (simp add: le_divide_eq)
  then have q2: "- 1 \<le> q" unfolding q_def fdiv_def by (rule fl64_ge) (rule fl64_m1)
  have q3: "q \<le> 0" if "x \<le> y"
  proof -
    from that have "fsub x y \<le> 0" unfolding fsub_def by (intro fl64_le) (simp_all add: fl64_0)
    then have "fsub x y / d \<le> 0" using dpos by (simp add: divide_le_0_iff)
    then show ?thesis unfolding q_def fdiv_def by (rule fl64_le) (rule fl64_0)
  qed
  have q4: "0 \<le> q" if "y \<le> x"
  proof -
    from that have "0 \<le> fsub x y" unfolding fsub_def by (intro fl64_nonneg) simp
    then have "0 \<le> fsub x y / d" using dpos by simp
    then show ?thesis unfolding q_def fdiv_def by (rule fl64_nonneg)
  qed
  have q5: "q \<le> - c" if "d \<le> 1" "x - y \<le> - c" "fl64 (- c) = - c" "0 \<le> c"
  proof -
    from that have n: "fsub x y \<le> - c" unfolding fsub_def by (intro fl64_le)
    have "fsub x y / d \<le> fsub x y"
    proof -
      from n that have neg: "fsub x y \<le> 0" by simp
      have "fsub x y \<le> fsub x y * d"
        using mult_left_mono_neg [OF that(1) neg] by simp
      then show ?thesis using dpos by (simp add: divide_le_eq)
    qed
    with n have "fsub x y / d \<le> - c" by simp
    then show ?thesis unfolding q_def fdiv_def using that(3) by (rule fl64_le)
  qed
  from js q1 q2 q3 q4 q5 show ?thesis by blast
qed

lemma fl64_fracs:
  "fl64 (1535 / 256) = 1535 / 256"
  "fl64 (23025 / 64) = 23025 / 64"
  "fl64 (- (1 / 256)) = - (1 / 256)"
  using fl64_dyadic [of 1535 "- 8"] fl64_dyadic [of 23025 "- 6"] fl64_dyadic [of "- 1" "- 8"]
  by simp_all

lemma fadd_bounds:
  assumes "a \<le> q" "q \<le> b" "fl64 (a + k) = a + k" "fl64 (b + k) = b + k"
  shows "a + k \<le> fadd q k" "fadd q k \<le> b + k"
  unfolding fadd_def using assms by (auto intro!: fl64_le fl64_ge)

lemma fmul_bounds:
  assumes "a \<le> x" "x \<le> b" "0 \<le> k" "fl64 (a * k) = a * k" "fl64 (b * k) = b * k"
  shows "a * k \<le> fmul x k" "fmul x k \<le> b * k"
  unfolding fmul_def using assms by (auto intro!: fl64_le fl64_ge mult_right_mono)

lemma hue_bounds:
  assumes "a \<le> q" "q \<le> b" "fl64 (a + k) = a + k" "fl64 (b + k) = b + k"
    "fl64 ((a + k) * 60) = (a + k) * 60" "fl64 ((b + k) * 60) = (b + k) * 60"
  shows "(a + k) * 60 \<le> fmul (fadd q k) 60" "fmul (fadd q k) 60 \<le> (b + k) * 60"
proof -
  note s = fadd_bounds [OF assms(1-4)]
  show "(a + k) * 60 \<le> fmul (fadd q k) 60"
    by (rule fmul_bounds(1) [OF s(1) s(2) _ assms(5,6)]) simp
  show "fmul (fadd q k) 60 \<le> (b + k) * 60"
    by (rule fmul_bounds(2) [OF s(1) s(2) _ assms(5,6)]) simp
qed

lemma rgbToHsv_bounds:
  assumes "0 \<le> r" "r \<le> 255" "0 \<le> g" "g \<le> 255" "0 \<le> b" "b \<le> 255"
  shows "\<exists>h s v. rgbToHsv r g b = Some (h, s, v)
           \<and> 0 \<le> h \<and> h \<le> 360 \<and> 0 \<le> s \<and> s \<le> 255 \<and> 0 \<le> v \<and> v \<le> 255
           \<and> ((fdiv g 255 < fdiv b 255 \<longrightarrow> fdiv g 255 - fdiv b 255 \<le> - (1 / 256)) \<longrightarrow> h < 360)"
proof -
  define R where "R = fdiv r 255"
  define G where "G = fdiv g 255"
  define B where "B = fdiv b 255"
  define mx where "mx = max R (max G B)"
  define mn where "mn = min R (min G B)"
  define d where "d = fsub mx mn"
  have rng: "0 \<le> R" "R \<le> 1" "0 \<le> G" "G \<le> 1" "0 \<le> B" "B \<le> 1"
    using assms by (simp_all add: R_def G_def B_def fdiv_unit)
  have idem: "fl64 R = R" "fl64 G = G" "fl64 B = B"
    by (simp_all add: R_def G_def B_def fdiv_255_idem)
  have mx: "0 \<le> mx" "mx \<le> 1" "R \<le> mx" "G \<le> mx" "B \<le> mx"
    using rng by (simp_all add: mx_def)
  have mn: "0 \<le> mn" "mn \<le> R" "mn \<le> G" "mn \<le> B" "mn \<le> mx"
    using rng by (auto simp: mn_def mx_def)
  have imx: "fl64 mx = mx" using idem by (simp add: mx_def max_def)
  have d: "0 \<le> d" "d \<le> mx" "d \<le> 1"
  proof -
    show "0 \<le> d" unfolding d_def fsub_def using mn by (intro fl64_nonneg) simp
    show "d \<le> mx" unfolding d_def fsub_def using mn imx by (intro fl64_le) simp_all
    then show "d \<le> 1" using mx by simp
  qed
  have S: "\<exists>s. (if mx = 0 then Some 0 else js_div d mx) = Some s \<and> 0 \<le> s \<and> s \<le> 1"
  proof (cases "mx = 0")
    case True
    then show ?thesis by simp
  next
    case False
    with mx have "0 < mx" by simp
    with d have "0 \<le> d / mx" "d / mx \<le> 1" by simp_all
    then have "0 \<le> fdiv d mx" "fdiv d mx \<le> 1"
      unfolding fdiv_def by (auto intro!: fl64_nonneg fl64_le fl64_1)
    with False show ?thesis by (simp add: js_div_def)
  qed
  let ?gap = "G < B \<longrightarrow> G - B \<le> - (1 / 256)"
  let ?H = "if d \<noteq> 0 then
               (if mx = R then do {
                  q \<leftarrow> js_div (fsub G B) d; Some (fmul (fadd q (if G < B then 6 else 0)) 60) }
                else if mx = G then do { q \<leftarrow> js_div (fsub B R) d; Some (fmul (fadd q 2) 60) }
                else if mx = B then do { q \<leftarrow> js_div (fsub R G) d; Some (fmul (fadd q 4) 60) }
                else Some (fmul 0 60))
             else Some 0"
  have H: "\<exists>h. ?H = Some h \<and> 0 \<le> h \<and> h \<le> 360 \<and> (?gap \<longrightarrow> h < 360)"
  proof (cases "d = 0")
    case True
    then show ?thesis by simp
  next
    case d0: False
    note hq = hue_quotient [OF d_def d0]
    consider "mx = R" "G < B" | "mx = R" "\<not> G < B" | "mx \<noteq> R" "mx = G"
      | "mx \<noteq> R" "mx \<noteq> G" "mx = B" | "mx \<noteq> R" "mx \<noteq> G" "mx \<noteq> B" by blast
    then show ?thesis
    proof cases
      case 1
      from hq [OF mn(3) mx(4) mn(4) mx(5), of "1 / 256"] 1(2) d(3)
      obtain q where q: "js_div (fsub G B) d = Some q" "- 1 \<le> q" "q \<le> 0"
        and qs: "G - B \<le> - (1 / 256) \<Longrightarrow> q \<le> - (1 / 256)"
        by (auto simp: fl64_fracs)
      have b: "(- 1 + 6) * 60 \<le> fmul (fadd q 6) 60" "fmul (fadd q 6) 60 \<le> (0 + 6) * 60"
        by (rule hue_bounds [OF q(2,3)]; simp add: fl64_numeral)+
      have st: "fmul (fadd q 6) 60 < 360" if "?gap"
      proof -
        from that 1(2) qs have "q \<le> - (1 / 256)" by simp
        from hue_bounds(2) [OF q(2) this, of 6] have "fmul (fadd q 6) 60 \<le> (- (1 / 256) + 6) * 60"
          by (simp add: fl64_numeral fl64_fracs)
        then show ?thesis by simp
      qed
      from b st show ?thesis using 1 d0 q(1) by simp
    next
      case 2
      from hq [OF mn(3) mx(4) mn(4) mx(5), of 0] 2(2)
      obtain q where q: "js_div (fsub G B) d = Some q" "0 \<le> q" "q \<le> 1" by auto
      have "(0 + 0) * 60 \<le> fmul (fadd q 0) 60" "fmul (fadd q 0) 60 \<le> (1 + 0) * 60"
        by (rule hue_bounds [OF q(2,3)]; simp add: fl64_numeral fl64_0 fl64_1)+
      then show ?thesis using 2 d0 q(1) by simp
    next
      case 3
      from hq [OF mn(4) mx(5) mn(2) mx(3), of 0]
      obtain q where q: "js_div (fsub B R) d = Some q" "- 1 \<le> q" "q \<le> 1" by auto
      have "(- 1 + 2) * 60 \<le> fmul (fadd q 2) 60" "fmul (fadd q 2) 60 \<le> (1 + 2) * 60"
        by (rule hue_bounds [OF q(2,3)]; simp add: fl64_numeral fl64_0 fl64_1)+
      then show ?thesis using 3 d0 q(1) by simp
    next
      case 4
      from hq [OF mn(2) mx(3) mn(3) mx(4), of 0]
      obtain q where q: "js_div (fsub R G) d = Some q" "- 1 \<le> q" "q \<le> 1" by auto
      have "(- 1 + 4) * 60 \<le> fmul (fadd q 4) 60" "fmul (fadd q 4) 60 \<le> (1 + 4) * 60"
        by (rule hue_bounds [OF q(2,3)]; simp add: fl64_numeral fl64_0 fl64_1)+
      then show ?thesis using 4 d0 q(1) by simp
    next
      case 5
      with d0 show ?thesis by (simp add: fmul_def fl64_0)
    qed
  qed
  from S obtain s where s: "(if mx = 0 then Some 0 else js_div d mx) = Some s" "0 \<le> s" "s \<le> 1"
    by blast
  from H obtain h where h: "?H = Some h" "0 \<le> h" "h \<le> 360" "?gap \<Longrightarrow> h < 360"
    by blast
  have sv: "0 * 255 \<le> fmul s 255" "fmul s 255 \<le> 1 * 255" "0 * 255 \<le> fmul mx 255" "fmul mx 255 \<le> 1 * 255"
    by (rule fmul_bounds [OF s(2,3)] fmul_bounds [OF mx(1,2)]; simp add: fl64_numeral fl64_0)+
  have "rgbToHsv r g b = Some (h, fmul s 255, fmul mx 255)"
    unfolding rgbToHsv_def Let_def R_def[symmetric] G_def[symmetric] B_def[symmetric]
      mx_def[symmetric] mn_def[symmetric] d_def[symmetric] s(1) h(1)
    by simp
  with s h sv show ?thesis unfolding R_def G_def B_def by simp
qed

text \<open>On numbers up to \<open>2 ^ 32\<close> the rounding error is below \<open>2 ^ -20\<close>.\<close>

lemma fl64_grid:
  assumes "\<bar>x\<bar> \<le> 2 ^ 32"
  shows "x - 1 / 2 ^ 20 \<le> fl64 x" "fl64 x \<le> x + 1 / 2 ^ 20"
proof -
  define y where "y = x * 2 ^ 20"
  have xy: "x = y * 2 powi (- 20)" by (simp add: y_def power_int_minus_divide)
  have ay: "\<bar>y\<bar> \<le> 2 ^ 52" using assms by (simp add: y_def abs_mult)
  then have c: "\<lceil>y\<rceil> \<le> 4503599627370496" "- 4503599627370496 \<le> \<lfloor>y\<rfloor>"
    by (simp_all add: abs_le_iff ceiling_le_iff le_floor_iff)
  have p: "(2::int) ^ 53 = 9007199254740992" by simp
  have fc: "\<bar>\<lfloor>y\<rfloor>\<bar> < 2 ^ 53" "\<bar>\<lceil>y\<rceil>\<bar> < 2 ^ 53"
    unfolding p using c floor_le_ceiling [of y] by linarith+
  have lo: "of_int \<lfloor>y\<rfloor> * 2 powi (- 20) \<le> x"
    unfolding xy by (intro mult_right_mono) simp_all
  have hi: "x \<le> of_int \<lceil>y\<rceil> * 2 powi (- 20)"
    unfolding xy by (intro mult_right_mono) simp_all
  have "of_int \<lfloor>y\<rfloor> * 2 powi (- 20) \<le> fl64 x"
    using lo by (rule fl64_ge) (rule fl64_dyadic [OF fc(1)], simp)
  moreover have "y - 1 \<le> of_int \<lfloor>y\<rfloor>" by linarith
  then have "(y - 1) * 2 powi (- 20) \<le> of_int \<lfloor>y\<rfloor> * 2 powi (- 20)"
    by (intro mult_right_mono) simp_all
  ultimately show "x - 1 / 2 ^ 20 \<le> fl64 x"
    by (simp add: y_def power_int_minus_divide field_simps)
  have "fl64 x \<le> of_int \<lceil>y\<rceil> * 2 powi (- 20)"
    using hi by (rule fl64_le) (rule fl64_dyadic [OF fc(2)], simp)
  moreover have "of_int \<lceil>y\<rceil> \<le> y + 1" by linarith
  then have "of_int \<lceil>y\<rceil> * 2 powi (- 20) \<le> (y + 1) * 2 powi (- 20)"
    by (intro mult_right_mono) simp_all
  ultimately show "fl64 x \<le> x + 1 / 2 ^ 20"
    by (simp add: y_def power_int_minus_divide field_simps)
qed

text \<open>Two integer channels that differ after the division by 255 differ by \<open>1/256\<close> at least.\<close>

lemma channel_gap:
  assumes g: "g \<in> \<int>" and b: "b \<in> \<int>" and rng: "0 \<le> g" "b \<le> 255"
    and lt: "fdiv g 255 < fdiv b 255"
  shows "fdiv g 255 - fdiv b 255 \<le> - (1 / 256)"
proof -
  have "g < b"
  proof (rule ccontr)
    assume "\<not> g < b"
    then have "b / 255 \<le> g / 255" by simp
    then have "fdiv b 255 \<le> fdiv g 255" unfolding fdiv_def by (rule fl64_mono)
    with lt show False by simp
  qed
  moreover from g obtain i where "g = of_int i" by (rule Ints_cases)
  moreover from b obtain j where "b = of_int j" by (rule Ints_cases)
  ultimately have gb: "g + 1 \<le> b" by simp
  with rng have r: "\<bar>g / 255\<bar> \<le> 2 ^ 32" "\<bar>b / 255\<bar> \<le> 2 ^ 32" by simp_all
  from fl64_grid(2) [OF r(1)] fl64_grid(1) [OF r(2)] gb show ?thesis
    by (simp add: fdiv_def)
qed

text \<open>
  C9, as the code has it.  For all \<open>r\<close>, \<open>g\<close>, \<open>b\<close> in \<open>[0, 255]\<close>, \<open>rgbToHsv\<close> divides by zero
  nowhere (the result is \<open>Some\<close>, also when the maximum channel is 0) and returns \<open>h\<close> in
  \<open>[0, 360]\<close>, \<open>s\<close> in \<open>[0, 255]\<close> and \<open>v\<close> in \<open>[0, 255]\<close>; when \<open>g\<close> and \<open>b\<close> are integers, as
  the channels of a pixel are, \<open>h\<close> is below 360.  Every operation is rounded to binary64.
\<close>

theorem rgbToHsv_range:
  assumes "0 \<le> r" "r \<le> 255" "0 \<le> g" "g \<le> 255" "0 \<le> b" "b \<le> 255"
  shows "\<exists>h s v. rgbToHsv r g b = Some (h, s, v)
           \<and> 0 \<le> h \<and> h \<le> 360 \<and> (g \<in> \<int> \<and> b \<in> \<int> \<longrightarrow> h < 360)
           \<and> 0 \<le> s \<and> s \<le> 255 \<and> 0 \<le> v \<and> v \<le> 255"
  using rgbToHsv_bounds [OF assms] channel_gap [OF _ _ assms(3,6)] by blast

text \<open>The theorem at the pixel \<open>(255, 0, 1)\<close>, where the hue is just below 360.\<close>

theorem rgbToHsv_range_witness:
  "(0::real) \<le> 255 \<and> (0::real) \<le> 0 \<and> (0::real) \<le> 1 \<and> (1::real) \<le> 255
   \<and> (0::real) \<in> \<int> \<and> (1::real) \<in> \<int>
   \<and> (\<exists>h s v. rgbToHsv 255 0 1 = Some (h, s, v)
           \<and> 0 \<le> h \<and> h < 360 \<and> 0 \<le> s \<and> s \<le> 255 \<and> 0 \<le> v \<and> v \<le> 255)"
  using rgbToHsv_range [of 255 0 1] by fastforce

lemma fl64_below_6: "fl64 (6 - 2 powi (- 57)) = 6"
proof -
  have "fl64 (6 - 2 powi (- 57)) = of_int (6 * 2 ^ 50) * 2 powi (- 50)"
    by (rule fl64_eqI) (simp_all add: roundEven_def power_int_minus_divide)
  then show ?thesis by (simp add: power_int_minus_divide)
qed

text \<open>
  The hue reaches 360 on \<open>[0, 255]\<close>.  At \<open>(255, 0, 2 ^ -50)\<close> the blue channel is a binary64
  number; \<open>g < b\<close> holds after the division by 255, the quotient \<open>(g - b) / d\<close> is about
  \<open>-3.5e-18\<close>, and adding 6 rounds to 6, since the binary64 number below 6 is \<open>6 - 2 ^ -50\<close>.
\<close>

theorem rgbToHsv_hue_360:
  "fl64 (2 powi (- 50)) = 2 powi (- 50) \<and> (0::real) \<le> 2 powi (- 50) \<and> (2::real) powi (- 50) \<le> 255
   \<and> rgbToHsv 255 0 (2 powi (- 50)) = Some (360, 255, 255)"
proof -
  define t where "t = fdiv (2 powi (- 50)) 255"
  have e: "fl64 (2 powi (- 50)) = 2 powi (- 50)" using fl64_dyadic [of 1 "- 50"] by simp
  have "(2::real) powi (- 60) \<le> 2 powi (- 50) / 255" by (simp add: power_int_minus_divide)
  then have lo: "2 powi (- 60) \<le> t" unfolding t_def fdiv_def
    by (rule fl64_ge) (use fl64_dyadic [of 1 "- 60"] in simp)
  have "(2::real) powi (- 50) / 255 \<le> 2 powi (- 57)" by (simp add: power_int_minus_divide)
  then have hi: "t \<le> 2 powi (- 57)" unfolding t_def fdiv_def
    by (rule fl64_le) (use fl64_dyadic [of 1 "- 57"] in simp)
  have t0: "0 < t" using lo by (rule less_le_trans [rotated]) simp
  have t1: "t \<le> 1" using hi by (rule order_trans) (simp add: power_int_minus_divide)
  have it: "fl64 t = t" by (simp add: t_def fdiv_def fl64_idem)
  have "6 - 2 powi (- 57) \<le> 6 - t" using hi by simp
  then have "6 \<le> fl64 (6 - t)" using fl64_mono [of "6 - 2 powi (- 57)" "6 - t"]
    by (simp only: fl64_below_6)
  moreover have "fl64 (6 - t) \<le> 6" using t0 by (intro fl64_le) (simp_all add: fl64_numeral)
  ultimately have six: "fl64 (6 - t) = 6" by simp
  have mxmn: "max 1 t = 1" "max 0 t = t" "min 0 t = 0" "min 1 t = t" using t0 t1 by simp_all
  have "rgbToHsv 255 0 (2 powi (- 50)) = Some (360, 255, 255)"
    unfolding rgbToHsv_def t_def [symmetric]
    using t0
    by (simp add: Let_def fdiv_def fsub_def fadd_def fmul_def js_div_def fl64_1 fl64_0
        fl64_numeral mxmn fl64_minus it six)
  with e show ?thesis by (simp add: power_int_minus_divide)
qed

subsection \<open>Classifying white\<close>

text \<open>
  The operations of \<open>rgbToHsv\<close> and \<open>correctColorForLighting\<close> at the white pixel:
  \<open>180 / 255\<close> rounds to \<open>6358023003346583 / 2 ^ 53\<close>, and 255 times that rounds to 180.
\<close>

lemma fl64_12_17: "fl64 (12 / 17) = 6358023003346583 / 9007199254740992"
proof -
  have "fl64 (12 / 17) = of_int 6358023003346583 * 2 powi (- 53)"
    by (rule fl64_eqI) (simp_all add: roundEven_def power_int_minus_divide)
  then show ?thesis by (simp add: power_int_minus_divide)
qed

lemma fl64_back_180: "fl64 (1621295865853378665 / 9007199254740992) = 180"
proof -
  have "fl64 (1621295865853378665 / 9007199254740992) = of_int (180 * 2 ^ 45) * 2 powi (- 45)"
    by (rule fl64_eqI) (simp_all add: roundEven_def power_int_minus_divide)
  then show ?thesis by (simp add: power_int_minus_divide)
qed

lemma rgbToHsv_grey180: "rgbToHsv 180 180 180 = Some (0, 0, 180)"
  by (simp add: rgbToHsv_def js_div_def fdiv_def fsub_def fmul_def fl64_12_17 fl64_back_180 fl64_0)

lemma rgbToHsv_white: "rgbToHsv 255 255 255 = Some (0, 0, 255)"
  by (simp add: rgbToHsv_def js_div_def fdiv_def fsub_def fmul_def fl64_1 fl64_0 fl64_numeral)

lemma rounded_numeral:
  "numeral w < (2::int) ^ 53 \<Longrightarrow> rounded (numeral w) = Num (numeral w)"
proof -
  assume a: "numeral w < (2::int) ^ 53"
  then have "(of_int (numeral w) :: real) < of_int (2 ^ 53)" by (simp only: of_int_less_iff)
  then have "(numeral w :: real) < 2 ^ 53" by simp
  also have "(2::real) ^ 53 \<le> 2 ^ 1024" by (rule power_increasing) simp_all
  finally have "\<not> (2::real) ^ 1024 \<le> numeral w" by simp
  moreover have "\<not> (numeral w :: real) \<le> - (2 ^ 1024)"
  proof -
    have "- ((2::real) ^ 1024) < 0" by simp
    also have "(0::real) < numeral w" by simp
    finally show ?thesis by simp
  qed
  ultimately show ?thesis using fl64_numeral [OF a] by (simp add: rounded_def Let_def)
qed

lemma correctColorForLighting_white:
  "correctColorForLighting (Num 255) (Num 255) (Num 255) = (Num 180, Num 180, Num 180)"
proof -
  have avg: "jdiv (jadd (jadd (Num 255) (Num 255)) (Num 255)) (Num 3) = Num 255"
    by (simp add: rounded_numeral)
  have reduce: "jdiv (Num 180) (Num 255) = Num (6358023003346583 / 9007199254740992)"
    by (simp add: rounded_def fl64_12_17)
  show ?thesis
    unfolding correctColorForLighting_def avg reduce Let_def
    by (simp add: rounded_def fl64_back_180 Math_round_def)
qed

lemma confidence_white: "getColorConfidenceRevolutionary white 255 255 255 = Some 1"
  by (simp add: getColorConfidenceRevolutionary_def rgbToHsv_white bonus_def split: prod.splits)

text \<open>The distance scores of the grey \<open>(180, 180, 180)\<close> against the six reference colours.\<close>

lemma distance_grey_white:
  "0.48 \<le> distanceScore 180 180 180 (255, 255, 255)"
proof -
  have "sqrt 16875 \<le> 130" by (rule real_le_lsqrt) simp_all
  then show ?thesis by (simp add: distanceScore_def)
qed

lemma distance_grey_far:
  "distanceScore 180 180 180 (255, 0, 0) = 0"
  "distanceScore 180 180 180 (0, 255, 0) = 0"
  "distanceScore 180 180 180 (0, 0, 255) = 0"
proof -
  have "250 \<le> sqrt 70425" by (rule real_le_rsqrt) simp
  then show "distanceScore 180 180 180 (255, 0, 0) = 0"
    "distanceScore 180 180 180 (0, 255, 0) = 0"
    "distanceScore 180 180 180 (0, 0, 255) = 0"
    by (simp_all add: distanceScore_def)
qed

lemma distance_grey_orange: "distanceScore 180 180 180 (255, 165, 0) \<le> 0.22"
proof -
  have "195 \<le> sqrt 38250" by (rule real_le_rsqrt) simp
  then show ?thesis by (simp add: distanceScore_def Let_def max_def)
qed

lemma distance_grey_yellow: "distanceScore 180 180 180 (255, 255, 0) \<le> 0.2"
proof -
  have "200 \<le> sqrt 43650" by (rule real_le_rsqrt) simp
  then show ?thesis by (simp add: distanceScore_def Let_def max_def)
qed

text \<open>
  The rules of techniques 1 to 3 on the grey: only the RGB rule for white fires for
  certain; of the LAB rules, those for orange and green depend on \<open>l\<close> and \<open>a\<close>, the others
  fail on the blue channel 180.
\<close>

lemma rules_grey:
  "applyRules (labRules l a 180) (applyRules (rgbRules 180 180 180)
     (applyRules (hsvRules 0 0 180 180 180 180) colorScores0))
   = [(white, 5 / 2), (red, 0), (orange, bonus (20 < a \<and> 55 < l \<and> a < 40) 2), (yellow, 0),
      (green, bonus (a < - 20 \<and> 45 < l) 2), (blue, 0)]"
  by (simp add: applyRules_def hsvRules_def rgbRules_def labRules_def colorScores0_def
      addScore_def bonus_def)

lemma distanceScores_six:
  "distanceScores r g b [(white, w), (red, rs), (orange, og), (yellow, y), (green, gn), (blue, bl)]
   = [(white, w + distanceScore r g b (255, 255, 255) * 1.5),
      (red, rs + distanceScore r g b (255, 0, 0) * 1.5),
      (orange, og + distanceScore r g b (255, 165, 0) * 1.5),
      (yellow, y + distanceScore r g b (255, 255, 0) * 1.5),
      (green, gn + distanceScore r g b (0, 255, 0) * 1.5),
      (blue, bl + distanceScore r g b (0, 0, 255) * 1.5)]"
  by (simp add: distanceScores_def referenceColors_def addScore_def)

lemma best_is_white:
  assumes "3 < w" "rs \<le> 3" "og \<le> 3" "y \<le> 3" "gn \<le> 3" "bl \<le> 3"
  shows "bestOf (whiteYellowAdjust 180 180 180
           [(white, w), (red, rs), (orange, og), (yellow, y), (green, gn), (blue, bl)]) = (white, w)"
  using assms by (simp add: whiteYellowAdjust_def bestOf_def scoreOf_def)

lemma detectColorRevolutionary_grey180: "detectColorRevolutionaryFinite 180 180 180 = Some white"
proof -
  obtain l a bl where lab: "rgbToLab 180 180 180 = (l, a, bl)"
    by (cases "rgbToLab 180 180 180")
  define w where "w = 5 / 2 + distanceScore 180 180 180 (255, 255, 255) * 1.5"
  define og where "og = bonus (20 < a \<and> 55 < l \<and> a < 40) 2
                        + distanceScore 180 180 180 (255, 165, 0) * 1.5"
  define y where "y = 0 + distanceScore 180 180 180 (255, 255, 0) * 1.5"
  define gn where "gn = bonus (a < - 20 \<and> 45 < l) 2 + distanceScore 180 180 180 (0, 255, 0) * 1.5"
  have b: "3 < w" "og \<le> 3" "y \<le> 3" "gn \<le> 3"
    using distance_grey_white distance_grey_orange distance_grey_yellow
    by (simp_all add: w_def og_def y_def gn_def bonus_def distance_grey_far)
  have "distanceScores 180 180 180 (applyRules (labRules l a 180) (applyRules (rgbRules 180 180 180)
          (applyRules (hsvRules 0 0 180 180 180 180) colorScores0)))
        = [(white, w), (red, 0), (orange, og), (yellow, y), (green, gn), (blue, 0)]"
    unfolding rules_grey distanceScores_six w_def og_def y_def gn_def
    by (simp add: distance_grey_far)
  moreover have "bestOf (whiteYellowAdjust 180 180 180
           [(white, w), (red, 0), (orange, og), (yellow, y), (green, gn), (blue, 0)]) = (white, w)"
    using b by (intro best_is_white) simp_all
  ultimately show ?thesis
    using b(1) by (simp add: detectColorRevolutionaryFinite_def rgbToHsv_grey180 lab)
qed

text \<open>
  A black pixel: the average is 0, the boost \<open>150 / 0\<close> is infinite and every corrected
  channel is \<open>NaN\<close>, on which \<open>detectColorRevolutionary\<close> answers \<open>'unknown'\<close>.
\<close>

lemma correctColorForLighting_black:
  "correctColorForLighting (Num 0) (Num 0) (Num 0) = (NaN, NaN, NaN)"
  by (simp add: correctColorForLighting_def rounded_def fl64_0 infinity_def)

lemma detectColorRevolutionary_NaN: "detectColorRevolutionary ds NaN NaN NaN = Some unknown"
  by (simp add: detectColorRevolutionary_def)

text \<open>
  A calibration that leaves the white pixel as it is leads to the label \<open>'white'\<close>: the
  correction for lighting turns \<open>(255, 255, 255)\<close> into \<open>(180, 180, 180)\<close>.
\<close>

lemma calibration_balanced:
  "applyColorCalibration (Some (Environment avgBrightness (Num 1, Num 1, Num 1))) 255 255 255
     = Some (Num 255, Num 255, Num 255)"
  by (simp add: applyColorCalibration_def rounded_numeral)

lemma classify_corrected_white:
  assumes "applyColorCalibration calibrationData 255 255 255 = Some (Num 255, Num 255, Num 255)"
  shows "detectColorWithCorrection calibrationData ds 255 255 255 = Some white"
  by (simp add: detectColorWithCorrection_def assms correctColorForLighting_white
      detectColorRevolutionary_def detectColorRevolutionary_grey180 orElse_def)

text \<open>
  C8, as the code has it.  With no calibration stored (\<open>calibrationData\<close> is \<open>null\<close>, the state
  the component starts in), and with an environment calibration whose three
  \<open>colorBalance\<close> ratios are 1, \<open>detectColorWithCorrection(255, 255, 255)\<close> returns \<open>'white'\<close>,
  whatever the further detectors compute, and \<open>getColorConfidenceRevolutionary('white',
  255, 255, 255)\<close> returns 1, which is greater than 0.9.
\<close>

theorem classify_white:
  "detectColorWithCorrection None ds 255 255 255 = Some white
   \<and> detectColorWithCorrection (Some (Environment avgBrightness (Num 1, Num 1, Num 1))) ds 255 255 255
       = Some white
   \<and> getColorConfidenceRevolutionary white 255 255 255 = Some 1 \<and> (0.9 :: real) < 1"
proof -
  have "applyColorCalibration None 255 255 255 = Some (Num 255, Num 255, Num 255)"
    by (simp add: applyColorCalibration_def)
  then show ?thesis
    by (simp add: classify_corrected_white calibration_balanced confidence_white)
qed

text \<open>
  An environment calibration taken on a blue scene (every sample \<open>(50, 50, 200)\<close>) stores
  the ratios \<open>(1/2, 1/2, 2)\<close>.  The white pixel is then calibrated to \<open>(255, 255, 127.5)\<close> and
  corrected to \<open>(216, 216, 108)\<close>, with hue 60.
\<close>

lemma fl64_72_85: "fl64 (72 / 85) = 7629627604015899 / 9007199254740992"
proof -
  have "fl64 (72 / 85) = of_int 7629627604015899 * 2 powi (- 53)"
    by (rule fl64_eqI) (simp_all add: roundEven_def power_int_minus_divide)
  then show ?thesis by (simp add: power_int_minus_divide)
qed

lemma fl64_36_85: "fl64 (36 / 85) = 7629627604015899 / 18014398509481984"
proof -
  have "fl64 (36 / 85) = of_int 7629627604015899 * 2 powi (- 54)"
    by (rule fl64_eqI) (simp_all add: roundEven_def power_int_minus_divide)
  then show ?thesis by (simp add: power_int_minus_divide)
qed

lemma fl64_spread: "fl64 (7629627604015899 / 18014398509481984) = 7629627604015899 / 18014398509481984"
  using fl64_dyadic [of 7629627604015899 "- 54"] by (simp add: power_int_minus_divide)

lemma fl64_back_216: "fl64 (1945555039024054245 / 9007199254740992) = 216"
proof -
  have "fl64 (1945555039024054245 / 9007199254740992) = of_int (216 * 2 ^ 45) * 2 powi (- 45)"
    by (rule fl64_eqI) (simp_all add: roundEven_def power_int_minus_divide)
  then show ?thesis by (simp add: power_int_minus_divide)
qed

lemma fl64_back_108: "fl64 (1945555039024054245 / 18014398509481984) = 108"
proof -
  have "fl64 (1945555039024054245 / 18014398509481984) = of_int (108 * 2 ^ 46) * 2 powi (- 46)"
    by (rule fl64_eqI) (simp_all add: roundEven_def power_int_minus_divide)
  then show ?thesis by (simp add: power_int_minus_divide)
qed

lemma fl64_more_halves: "fl64 (1 / 2) = 1 / 2" "fl64 (255 / 2) = 255 / 2" "fl64 (1275 / 2) = 1275 / 2"
  "fl64 (425 / 2) = 425 / 2"
  using fl64_dyadic [of 1 "- 1"] fl64_dyadic [of 255 "- 1"] fl64_dyadic [of 1275 "- 1"]
    fl64_dyadic [of 425 "- 1"]
  by simp_all

lemma rgbToHsv_216: "rgbToHsv 216 216 108 = Some (60, 255 / 2, 216)"
  by (simp add: rgbToHsv_def js_div_def fdiv_def fsub_def fmul_def fadd_def fl64_72_85 fl64_36_85
      fl64_spread fl64_back_216 fl64_more_halves fl64_1 fl64_0 fl64_numeral)

lemma calibration_blue_scene:
  "applyColorCalibration (Some (Environment avgBrightness (Num (1 / 2), Num (1 / 2), Num 2))) 255 255 255
     = Some (Num 255, Num 255, Num (255 / 2))"
  by (simp add: applyColorCalibration_def rounded_def fl64_numeral fl64_more_halves)

lemma correctColorForLighting_blue_scene:
  "correctColorForLighting (Num 255) (Num 255) (Num (255 / 2)) = (Num 216, Num 216, Num 108)"
proof -
  have avg: "jdiv (jadd (jadd (Num 255) (Num 255)) (Num (255 / 2))) (Num 3) = Num (425 / 2)"
    by (simp add: rounded_def fl64_numeral fl64_more_halves)
  have reduce: "jdiv (Num 180) (Num (425 / 2)) = Num (7629627604015899 / 9007199254740992)"
    by (simp add: rounded_def fl64_72_85)
  show ?thesis
    unfolding correctColorForLighting_def avg reduce Let_def
    by (simp add: rounded_def fl64_back_216 fl64_back_108 Math_round_def)
qed


text \<open>
  The rules on the corrected triple \<open>(216, 216, 108)\<close>: the HSV and the RGB rule for yellow
  fire, no rule for white does, and of the LAB rules only those for orange and green can.
\<close>

lemma distanceScore_range: "0 \<le> distanceScore r g b ref" "distanceScore r g b ref \<le> 1"
  by (cases ref; simp add: distanceScore_def Let_def)+

lemma distance_216_orange: "distanceScore 216 216 108 (255, 165, 0) \<le> 1 / 2"
proof -
  have "125 \<le> sqrt 15786" by (rule real_le_rsqrt) simp
  then show ?thesis by (simp add: distanceScore_def Let_def max_def)
qed

lemma rules_216:
  "applyRules (labRules l a 108) (applyRules (rgbRules 216 216 108)
     (applyRules (hsvRules 60 (255 / 2) 216 216 216 108) colorScores0))
   = [(white, 0), (red, 0), (orange, bonus (20 < a \<and> 55 < l \<and> a < 40) 2), (yellow, 7 / 2),
      (green, bonus (a < - 20 \<and> 45 < l) 2), (blue, 0)]"
  by (simp add: applyRules_def hsvRules_def rgbRules_def labRules_def colorScores0_def
      addScore_def bonus_def)

lemma best_is_yellow:
  assumes "w < y" "rs < y" "og < y" "gn \<le> y" "bl \<le> y" "0 < y"
  shows "bestOf (whiteYellowAdjust 216 216 108
           [(white, w), (red, rs), (orange, og), (yellow, y), (green, gn), (blue, bl)]) = (yellow, y)"
  using assms by (simp add: whiteYellowAdjust_def bestOf_def scoreOf_def)

lemma detectColorRevolutionary_216: "detectColorRevolutionaryFinite 216 216 108 = Some yellow"
proof -
  obtain l a bl where lab: "rgbToLab 216 216 108 = (l, a, bl)"
    by (cases "rgbToLab 216 216 108")
  define w where "w = 0 + distanceScore 216 216 108 (255, 255, 255) * 1.5"
  define rs where "rs = 0 + distanceScore 216 216 108 (255, 0, 0) * 1.5"
  define og where "og = bonus (20 < a \<and> 55 < l \<and> a < 40) 2
                        + distanceScore 216 216 108 (255, 165, 0) * 1.5"
  define y where "y = 7 / 2 + distanceScore 216 216 108 (255, 255, 0) * 1.5"
  define gn where "gn = bonus (a < - 20 \<and> 45 < l) 2 + distanceScore 216 216 108 (0, 255, 0) * 1.5"
  define bu where "bu = 0 + distanceScore 216 216 108 (0, 0, 255) * 1.5"
  note r = distanceScore_range [of 216 216 108]
  have y: "7 / 2 \<le> y" using r(1) [of "(255, 255, 0)"] by (simp add: y_def)
  have b: "w < y" "rs < y" "og < y" "gn \<le> y" "bu \<le> y" "3 / 2 < y"
    using y r(2) [of "(255, 255, 255)"] r(2) [of "(255, 0, 0)"] r(2) [of "(0, 255, 0)"]
      r(2) [of "(0, 0, 255)"] distance_216_orange
    by (simp_all add: w_def rs_def og_def gn_def bu_def bonus_def)
  have "distanceScores 216 216 108 (applyRules (labRules l a 108) (applyRules (rgbRules 216 216 108)
          (applyRules (hsvRules 60 (255 / 2) 216 216 216 108) colorScores0)))
        = [(white, w), (red, rs), (orange, og), (yellow, y), (green, gn), (blue, bu)]"
    unfolding rules_216 distanceScores_six w_def rs_def og_def y_def gn_def bu_def ..
  moreover have "bestOf (whiteYellowAdjust 216 216 108
           [(white, w), (red, rs), (orange, og), (yellow, y), (green, gn), (blue, bu)]) = (yellow, y)"
    using b by (intro best_is_yellow) simp_all
  ultimately show ?thesis
    using b(6) by (simp add: detectColorRevolutionaryFinite_def rgbToHsv_216 lab)
qed

text \<open>
  The label depends on the calibration stored.  After \<open>calibrateColors\<close> (the button
  "Capture Center") \<open>calibrationData\<close> has no \<open>colorBalance\<close>, and classifying
  \<open>(255, 255, 255)\<close> raises a TypeError in \<open>applyColorCalibration\<close>: no label is returned.
  After \<open>calibrateColorsFromEnvironment\<close> on a blue scene the label is \<open>'yellow'\<close>.
\<close>

theorem classify_white_depends_on_calibration:
  "\<forall>ds avgBrightness.
     applyColorCalibration (Some CenterSample) 255 255 255 = None
     \<and> detectColorWithCorrection (Some CenterSample) ds 255 255 255 = None
     \<and> detectColorWithCorrection
           (Some (Environment avgBrightness (Num (1 / 2), Num (1 / 2), Num 2))) ds 255 255 255
         = Some yellow"
proof -
  have "detectColorWithCorrection (Some CenterSample) ds 255 255 255 = None" for ds
    by (simp add: detectColorWithCorrection_def applyColorCalibration_def)
  moreover have "detectColorWithCorrection
           (Some (Environment avgBrightness (Num (1 / 2), Num (1 / 2), Num 2))) ds 255 255 255
         = Some yellow" for ds avgBrightness
    by (simp add: detectColorWithCorrection_def calibration_blue_scene
        correctColorForLighting_blue_scene detectColorRevolutionary_def
        detectColorRevolutionary_216 orElse_def)
  ultimately show ?thesis by (simp add: applyColorCalibration_def)
qed

subsection \<open>Alignment score\<close>

lemma bump_keys: "fst ` set (bump c m) = insert c (fst ` set m)"
  by (induction c m rule: bump.induct) (simp_all add: insert_commute)

lemma bump_distinct: "distinct (map fst m) \<Longrightarrow> distinct (map fst (bump c m))"
  by (induction c m rule: bump.induct) (auto simp: bump_keys)

lemma countColors_acc:
  "distinct (map fst m) \<Longrightarrow>
   distinct (map fst (foldl (\<lambda>m c. if counted c then bump c m else m) m cs))
   \<and> fst ` set (foldl (\<lambda>m c. if counted c then bump c m else m) m cs)
       = fst ` set m \<union> {c \<in> set cs. counted c}"
proof (induction cs arbitrary: m)
  case Nil
  then show ?case by simp
next
  case (Cons c cs)
  show ?case
  proof (cases "counted c")
    case True
    from Cons.IH [OF bump_distinct [OF Cons.prems], of c] True show ?thesis
      by (auto simp: bump_keys)
  next
    case False
    from Cons.IH [OF Cons.prems] False show ?thesis by auto
  qed
qed

lemma countColors_keys:
  "distinct (map fst (countColors counted cs))"
  "fst ` set (countColors counted cs) = {c \<in> set cs. counted c}"
  using countColors_acc [of "[]" counted cs] by (simp_all add: countColors_def)

lemma length_countColors: "length (countColors counted cs) = card {c \<in> set cs. counted c}"
proof -
  have "length (countColors counted cs) = length (map fst (countColors counted cs))" by simp
  also have "\<dots> = card (set (map fst (countColors counted cs)))"
    using countColors_keys(1) by (metis distinct_card)
  also have "\<dots> = card (fst ` set (countColors counted cs))" by simp
  finally show ?thesis by (simp only: countColors_keys(2))
qed

lemma uniqueColors_eq:
  "length (countColors (\<lambda>c. c \<noteq> unknown) (concat colors)) = uniqueColorCount colors"
proof -
  have "{c \<in> set (concat colors). c \<noteq> unknown} = set (concat colors) - {unknown}" by auto
  then show ?thesis by (simp only: length_countColors uniqueColorCount_def)
qed

lemma Math_round_of_nat: "Math_round (real n) = real n"
  by (simp add: Math_round_def)

text \<open>The roundings that occur at \<open>totalConfidence = 8.55\<close>.\<close>

lemma Math_round_mono: "x \<le> y \<Longrightarrow> Math_round x \<le> Math_round y"
  by (simp add: Math_round_def floor_mono)

lemma fl64_19_20: "fl64 (19 / 20) = 4278419646001971 / 4503599627370496"
proof -
  have "fl64 (19 / 20) = of_int 8556839292003942 * 2 powi (- 53)"
    by (rule fl64_eqI) (simp_all add: roundEven_def power_int_minus_divide)
  then show ?thesis by (simp add: power_int_minus_divide)
qed

lemma fl64_conf_30: "fl64 (64176294690029565 / 2251799813685248) = 57 / 2"
proof -
  have "fl64 (64176294690029565 / 2251799813685248) = of_int 8022036836253696 * 2 powi (- 48)"
    by (rule fl64_eqI) (simp_all add: roundEven_def power_int_minus_divide)
  then show ?thesis by (simp add: power_int_minus_divide)
qed

lemma fl64_halves: "fl64 (57 / 2) = 57 / 2" "fl64 (177 / 2) = 177 / 2" "fl64 (189 / 2) = 189 / 2"
  using fl64_dyadic [of 57 "- 1"] fl64_dyadic [of 177 "- 1"] fl64_dyadic [of 189 "- 1"]
  by simp_all

text \<open>The operations at the input \<open>8.549999999999999\<close>.\<close>

lemma fl64_tc_9: "fl64 (1604407367250739 / 1688849860263936) = 8556839292003941 / 9007199254740992"
proof -
  have "fl64 (1604407367250739 / 1688849860263936) = of_int 8556839292003941 * 2 powi (- 53)"
    by (rule fl64_eqI) (simp_all add: roundEven_def power_int_minus_divide)
  then show ?thesis by (simp add: power_int_minus_divide)
qed

lemma fl64_tc_30: "fl64 (128352589380059115 / 4503599627370496) = 8022036836253695 / 281474976710656"
proof -
  have "fl64 (128352589380059115 / 4503599627370496) = of_int 8022036836253695 * 2 powi (- 48)"
    by (rule fl64_eqI) (simp_all add: roundEven_def power_int_minus_divide)
  then show ?thesis by (simp add: power_int_minus_divide)
qed

lemma fl64_tc_60: "fl64 (24910535438893055 / 281474976710656) = 177 / 2"
proof -
  have "fl64 (24910535438893055 / 281474976710656) = of_int 6227633859723264 * 2 powi (- 46)"
    by (rule fl64_eqI) (simp_all add: roundEven_def power_int_minus_divide)
  then show ?thesis by (simp add: power_int_minus_divide)
qed

lemma unique_threeColours: "length (countColors (\<lambda>c. c \<noteq> unknown) (concat threeColours)) = 3"
  by (simp add: threeColours_def countColors_def)

text \<open>
  C7 as stated fails.  With no valid detection and nine cells labelled \<open>'white'\<close> (each
  classified, none above the confidence floor) \<open>calculateAlignmentScore\<close> returns 2, not 0:
  the diversity term counts labels, valid or not.  (The formula of the specification gives
  2 there as well.)  The score is rounded, and it is computed in binary64: for nine valid
  detections, three colours and \<open>totalConfidence = 8.549999999999999\<close> (the binary64 number
  \<open>4813222101752217 / 2 ^ 49\<close>) the sum is 94.5 after rounding and the score 95, where the
  formula in exact arithmetic is below 94.5.  The score of \<open>analyzeColorsOptimized\<close> has no
  diversity term: for nine valid detections of confidence 1 on a single-colour face it is
  100, where the formula gives 92.
\<close>

theorem alignment_score_counterexample:
  "calculateAlignmentScore 0 0 allWhite = 2
   \<and> calculateAlignmentScore 0 0 allWhite \<noteq> 0
   \<and> specAlignmentScore 0 0 1 = 2
   \<and> calculateAlignmentScore 9 (4813222101752217 / 562949953421312) threeColours = 95
   \<and> specAlignmentScore 9 (4813222101752217 / 562949953421312 / 9) 3 < 94.5
   \<and> optimizedAlignmentScore 9 9 = 100 \<and> specAlignmentScore 9 1 1 = 92"
proof -
  have a: "calculateAlignmentScore 0 0 allWhite = 2"
    by (simp add: calculateAlignmentScore_def allWhite_def countColors_def Math_round_def
        fdiv_def fmul_def fadd_def fl64_0 fl64_numeral)
  have b: "calculateAlignmentScore 9 (4813222101752217 / 562949953421312) threeColours = 95"
    by (simp add: calculateAlignmentScore_def unique_threeColours Math_round_def
        fdiv_def fmul_def fadd_def fl64_1 fl64_numeral fl64_tc_9 fl64_tc_30 fl64_tc_60 fl64_halves)
      (simp add: threeColours_def)
  have c: "optimizedAlignmentScore 9 9 = 100"
    by (simp add: optimizedAlignmentScore_def fdiv_def fmul_def fadd_def fl64_1 fl64_numeral)
  show ?thesis
    by (simp add: a b c) (simp add: specAlignmentScore_def)
qed

lemma fl64_small_nat: "n \<le> 10 \<Longrightarrow> fl64 (real n) = real n"
  using fl64_of_int [of "int n"] by simp

text \<open>
  The distance of the score from the formula of the specification: each rounding of the
  sum costs at most \<open>2 ^ -20\<close>, \<open>Math.round\<close> at most \<open>1/2\<close>.
\<close>

lemma fl64_err: "\<bar>x\<bar> \<le> 2 ^ 32 \<Longrightarrow> \<bar>fl64 x - x\<bar> \<le> 1 / 1048576"
proof -
  assume "\<bar>x\<bar> \<le> 2 ^ 32"
  from fl64_grid [OF this] have "x - 1 / 1048576 \<le> fl64 x" "fl64 x \<le> x + 1 / 1048576"
    by simp_all
  then show ?thesis by linarith
qed

lemma detection_error:
  assumes "vd \<le> 9"
  shows "\<bar>fmul (fdiv (real vd) 9) 60 - 60 * (real vd / 9)\<bar> \<le> 61 / 1048576"
    and "0 \<le> fmul (fdiv (real vd) 9) 60" and "fmul (fdiv (real vd) 9) 60 \<le> 60"
proof -
  define q where "q = fdiv (real vd) 9"
  have v: "0 \<le> real vd / 9" "real vd / 9 \<le> 1" using assms by simp_all
  then have q: "0 \<le> q" "q \<le> 1"
    unfolding q_def fdiv_def by (auto intro!: fl64_nonneg fl64_le fl64_1)
  have e1: "\<bar>q - real vd / 9\<bar> \<le> 1 / 1048576"
    unfolding q_def fdiv_def using v by (intro fl64_err) simp
  have e2: "\<bar>fmul q 60 - q * 60\<bar> \<le> 1 / 1048576"
    unfolding fmul_def using q by (intro fl64_err) simp
  from e1 e2 show "\<bar>fmul (fdiv (real vd) 9) 60 - 60 * (real vd / 9)\<bar> \<le> 61 / 1048576"
    unfolding q_def [symmetric] by linarith
  show "0 \<le> fmul (fdiv (real vd) 9) 60"
    unfolding q_def [symmetric] fmul_def using q by (intro fl64_nonneg) simp
  have "q * 60 \<le> 60" using q by simp
  then show "fmul (fdiv (real vd) 9) 60 \<le> 60"
    unfolding q_def [symmetric] fmul_def by (rule fl64_le) (simp add: fl64_numeral)
qed

lemma confidence_error:
  assumes "0 \<le> tc"
  shows "\<bar>min 30 (fmul (fdiv tc 9) 30) - min 30 (30 * (tc / 9))\<bar> \<le> 31 / 1048576"
    and "0 \<le> min 30 (fmul (fdiv tc 9) 30)"
proof -
  define q where "q = fdiv tc 9"
  have q0: "0 \<le> q" unfolding q_def fdiv_def using assms by (intro fl64_nonneg) simp
  then have "0 \<le> fmul q 30" unfolding fmul_def by (intro fl64_nonneg) simp
  then show "0 \<le> min 30 (fmul (fdiv tc 9) 30)" by (simp add: q_def)
  show "\<bar>min 30 (fmul (fdiv tc 9) 30) - min 30 (30 * (tc / 9))\<bar> \<le> 31 / 1048576"
  proof (cases "tc \<le> 18")
    case True
    with assms have t: "\<bar>tc / 9\<bar> \<le> 2 ^ 32" "tc / 9 \<le> 2" by simp_all
    have e1: "\<bar>q - tc / 9\<bar> \<le> 1 / 1048576"
      unfolding q_def fdiv_def using t(1) by (rule fl64_err)
    have "q \<le> 2" unfolding q_def fdiv_def using t(2) by (rule fl64_le) (simp add: fl64_numeral)
    with q0 have e2: "\<bar>fmul q 30 - q * 30\<bar> \<le> 1 / 1048576"
      unfolding fmul_def by (intro fl64_err) simp
    from e1 e2 have "\<bar>fmul q 30 - 30 * (tc / 9)\<bar> \<le> 31 / 1048576" by linarith
    then show ?thesis unfolding q_def [symmetric] by linarith
  next
    case False
    then have "2 \<le> tc / 9" by simp
    then have "2 \<le> q" unfolding q_def fdiv_def by (rule fl64_ge) (simp add: fl64_numeral)
    then have "60 \<le> q * 30" by simp
    then have "60 \<le> fmul q 30" unfolding fmul_def by (rule fl64_ge) (simp add: fl64_numeral)
    with False show ?thesis unfolding q_def [symmetric] by simp
  qed
qed

lemma Math_round_err: "\<bar>Math_round x - x\<bar> \<le> 1 / 2"
  unfolding Math_round_def by linarith

lemma min_100_err: "\<bar>min 100 x - min 100 y\<bar> \<le> \<bar>x - y\<bar>" for x y :: real
  by linarith

lemma score_near_formula:
  assumes ne: "colors \<noteq> []" and vd: "vd \<le> 9" and tc: "0 \<le> tc"
  shows "\<bar>calculateAlignmentScore vd tc colors
           - specAlignmentScore vd (tc / 9) (uniqueColorCount colors)\<bar> \<le> 1 / 2 + 1 / 10000"
proof -
  define A where "A = fmul (fdiv (real vd) 9) 60"
  define C where "C = min 30 (fmul (fdiv tc 9) 30)"
  define D where "D = min 10 (real (uniqueColorCount colors) * 2)"
  define S where "S = 60 * (real vd / 9) + min 30 (30 * (tc / 9)) + D"
  note a = detection_error [OF vd, folded A_def]
  note c = confidence_error [OF tc, folded C_def]
  have C30: "C \<le> 30" by (simp add: C_def)
  have D: "0 \<le> D" "D \<le> 10" by (simp_all add: D_def)
  have e1: "\<bar>fadd A C - (A + C)\<bar> \<le> 1 / 1048576"
    unfolding fadd_def using a(2,3) c(2) C30 by (intro fl64_err) simp
  have ac: "0 \<le> fadd A C" "fadd A C \<le> 90"
  proof -
    show "0 \<le> fadd A C" unfolding fadd_def using a(2) c(2) by (intro fl64_nonneg) simp
    have "A + C \<le> 90" using a(3) C30 by simp
    then show "fadd A C \<le> 90" unfolding fadd_def by (rule fl64_le) (simp add: fl64_numeral)
  qed
  have e2: "\<bar>fadd (fadd A C) D - (fadd A C + D)\<bar> \<le> 1 / 1048576"
    unfolding fadd_def [of _ D] using ac D by (intro fl64_err) simp
  have "\<bar>fadd (fadd A C) D - S\<bar> \<le> 94 / 1048576"
    using a(1) c(1) e1 e2 unfolding S_def by linarith
  then have t: "\<bar>fadd (fadd A C) D - S\<bar> \<le> 1 / 10000" by simp
  have "\<bar>Math_round (fadd (fadd A C) D) - S\<bar> \<le> 1 / 2 + 1 / 10000"
    using Math_round_err [of "fadd (fadd A C) D"] t by linarith
  then have "\<bar>min 100 (Math_round (fadd (fadd A C) D)) - min 100 S\<bar> \<le> 1 / 2 + 1 / 10000"
    using min_100_err [of "Math_round (fadd (fadd A C) D)" S] by linarith
  moreover have "calculateAlignmentScore vd tc colors = min 100 (Math_round (fadd (fadd A C) D))"
    using ne by (simp add: calculateAlignmentScore_def Let_def uniqueColors_eq A_def C_def D_def)
  moreover have "specAlignmentScore vd (tc / 9) (uniqueColorCount colors) = min 100 S"
    by (simp add: specAlignmentScore_def S_def D_def mult.commute)
  ultimately show ?thesis by simp
qed

text \<open>
  C7, amended: for every count \<open>vd\<close>, every total confidence \<open>tc\<close> and every non-empty grid,
  \<open>calculateAlignmentScore\<close> returns \<open>min(100, round(T))\<close>, where \<open>T\<close> is the sum
  \<open>(vd / 9) * 60 + min(30, (tc / 9) * 30) + min(10, 2 u)\<close> with every operation rounded to
  binary64, \<open>u\<close> is the number of distinct labels other than \<open>'unknown'\<close> in the grid and
  \<open>round\<close> is \<open>Math.round\<close>.  With \<open>vd = 0\<close> and \<open>tc = 0\<close> it is \<open>min(10, 2 u)\<close>, which is 0 exactly
  when every label is \<open>'unknown'\<close>; with \<open>vd = 9\<close>, at least three distinct colours and
  \<open>tc \<ge> 8.55\<close> it is at least 95; with \<open>vd \<le> 9\<close> and \<open>tc \<ge> 0\<close> it differs from the formula of
  the specification, taken in exact arithmetic at \<open>avgConfidence = tc / 9\<close>, by at most
  \<open>0.5001\<close>.  The score of \<open>analyzeColorsOptimized\<close> is 0 for \<open>vd = 0\<close>, \<open>tc = 0\<close> and 100 for
  \<open>vd = 9\<close>, \<open>tc \<ge> 0\<close>.
\<close>

theorem alignment_score:
  assumes "colors \<noteq> []"
  shows "calculateAlignmentScore vd tc colors
           = min 100 (Math_round (fadd (fadd (fmul (fdiv (real vd) 9) 60)
                                             (min 30 (fmul (fdiv tc 9) 30)))
                                       (min 10 (2 * real (uniqueColorCount colors)))))
         \<and> calculateAlignmentScore 0 0 colors = min 10 (2 * real (uniqueColorCount colors))
         \<and> (calculateAlignmentScore 0 0 colors = 0 \<longleftrightarrow> set (concat colors) \<subseteq> {unknown})
         \<and> (3 \<le> uniqueColorCount colors \<and> 8.55 \<le> tc \<longrightarrow> 95 \<le> calculateAlignmentScore 9 tc colors)
         \<and> (vd \<le> 9 \<and> 0 \<le> tc \<longrightarrow>
              \<bar>calculateAlignmentScore vd tc colors
                 - specAlignmentScore vd (tc / 9) (uniqueColorCount colors)\<bar> \<le> 1 / 2 + 1 / 10000)
         \<and> optimizedAlignmentScore 0 0 = 0
         \<and> (0 \<le> tc \<longrightarrow> optimizedAlignmentScore 9 tc = 100)"
proof -
  let ?u = "uniqueColorCount colors"
  define dist where "dist = min 10 (2 * real ?u)"
  have eq: "calculateAlignmentScore vd tc colors
           = min 100 (Math_round (fadd (fadd (fmul (fdiv (real vd) 9) 60)
                                             (min 30 (fmul (fdiv tc 9) 30))) dist))"
    for vd tc
    using assms by (simp add: calculateAlignmentScore_def Let_def uniqueColors_eq mult.commute dist_def)
  have m: "dist = real (min 10 (2 * ?u))" by (simp add: dist_def)
  have fd: "fl64 dist = dist" unfolding m by (rule fl64_small_nat) simp
  have z: "calculateAlignmentScore 0 0 colors = dist"
    unfolding eq by (simp add: fdiv_def fmul_def fadd_def fl64_0 fd)
      (simp add: m Math_round_of_nat del: of_nat_min of_nat_mult)
  have fin: "finite (set (concat colors) - {unknown})" by simp
  have z0: "calculateAlignmentScore 0 0 colors = 0 \<longleftrightarrow> set (concat colors) \<subseteq> {unknown}"
  proof -
    have "calculateAlignmentScore 0 0 colors = 0 \<longleftrightarrow> ?u = 0"
      unfolding z dist_def by (simp add: min_def)
    also have "\<dots> \<longleftrightarrow> set (concat colors) - {unknown} = {}"
      unfolding uniqueColorCount_def using fin by (simp only: card_eq_0_iff) simp
    also have "\<dots> \<longleftrightarrow> set (concat colors) \<subseteq> {unknown}" by auto
    finally show ?thesis .
  qed
  have hi: "95 \<le> calculateAlignmentScore 9 tc colors" if "3 \<le> ?u" "8.55 \<le> tc"
  proof -
    from that have d6: "6 \<le> dist" by (simp add: dist_def)
    have det: "fmul (fdiv (real 9) 9) 60 = 60" by (simp add: fdiv_def fmul_def fl64_1 fl64_numeral)
    from that have "19 / 20 \<le> tc / 9" by simp
    then have "fl64 (19 / 20) \<le> fdiv tc 9" unfolding fdiv_def by (rule fl64_mono)
    then have q: "4278419646001971 / 4503599627370496 \<le> fdiv tc 9" by (simp only: fl64_19_20)
    then have "64176294690029565 / 2251799813685248 \<le> fdiv tc 9 * 30" by simp
    then have "fl64 (64176294690029565 / 2251799813685248) \<le> fmul (fdiv tc 9) 30"
      unfolding fmul_def by (rule fl64_mono)
    then have "57 / 2 \<le> min 30 (fmul (fdiv tc 9) 30)" by (simp add: fl64_conf_30)
    then have "177 / 2 \<le> 60 + min 30 (fmul (fdiv tc 9) 30)" by simp
    then have "fl64 (177 / 2) \<le> fadd 60 (min 30 (fmul (fdiv tc 9) 30))"
      unfolding fadd_def by (rule fl64_mono)
    then have "177 / 2 \<le> fadd 60 (min 30 (fmul (fdiv tc 9) 30))" by (simp only: fl64_halves)
    with d6 have "189 / 2 \<le> fadd 60 (min 30 (fmul (fdiv tc 9) 30)) + dist" by simp
    then have "fl64 (189 / 2) \<le> fadd (fadd 60 (min 30 (fmul (fdiv tc 9) 30))) dist"
      unfolding fadd_def [of _ dist] by (rule fl64_mono)
    then have "189 / 2 \<le> fadd (fadd 60 (min 30 (fmul (fdiv tc 9) 30))) dist"
      by (simp only: fl64_halves)
    then have "Math_round (189 / 2) \<le> Math_round (fadd (fadd 60 (min 30 (fmul (fdiv tc 9) 30))) dist)"
      by (rule Math_round_mono)
    then have "95 \<le> Math_round (fadd (fadd 60 (min 30 (fmul (fdiv tc 9) 30))) dist)"
      by (simp add: Math_round_def)
    then show ?thesis unfolding eq det by simp
  qed
  have opt0: "optimizedAlignmentScore 0 0 = 0"
    by (simp add: optimizedAlignmentScore_def fdiv_def fmul_def fadd_def fl64_0)
  have opt9: "optimizedAlignmentScore 9 tc = 100" if "0 \<le> tc"
  proof -
    have det: "fmul (fdiv (real 9) 9) 100 = 100" by (simp add: fdiv_def fmul_def fl64_1 fl64_numeral)
    from that have "0 \<le> fdiv tc 9" unfolding fdiv_def by (intro fl64_nonneg) simp
    then have "0 \<le> fmul (fdiv tc 9) 30" unfolding fmul_def by (intro fl64_nonneg) simp
    then have "100 \<le> 100 + fmul (fdiv tc 9) 30" by simp
    then have "100 \<le> fadd 100 (fmul (fdiv tc 9) 30)"
      unfolding fadd_def by (rule fl64_ge) (simp add: fl64_numeral)
    then show ?thesis unfolding optimizedAlignmentScore_def det by simp
  qed
  note near = score_near_formula [OF assms, of vd tc]
  from eq [of vd tc] z z0 hi near opt0 opt9 show ?thesis unfolding dist_def by blast
qed

text \<open>The theorem at nine valid detections of confidence 1 on a face of six colours.\<close>

theorem alignment_score_witness:
  "mixedFace \<noteq> [] \<and> 3 \<le> uniqueColorCount mixedFace \<and> (8.55 :: real) \<le> 9 \<and> (0 :: real) \<le> 9
   \<and> (9 :: nat) \<le> 9
   \<and> calculateAlignmentScore 9 9 mixedFace = 100
   \<and> 95 \<le> calculateAlignmentScore 9 9 mixedFace
   \<and> \<bar>calculateAlignmentScore 9 9 mixedFace - specAlignmentScore 9 (9 / 9) 6\<bar> \<le> 1 / 2 + 1 / 10000
   \<and> optimizedAlignmentScore 9 9 = 100"
proof -
  have u: "uniqueColorCount mixedFace = 6"
    by (simp add: uniqueColorCount_def mixedFace_def card_insert_if)
  have ne: "mixedFace \<noteq> []" by (simp add: mixedFace_def)
  from alignment_score [OF ne, of 9 9] u show ?thesis
    by (simp add: ne Math_round_def fdiv_def fmul_def fadd_def fl64_1 fl64_numeral
        specAlignmentScore_def)
qed

subsection \<open>The grid consistency corrector\<close>

text \<open>
  The count object that each validator builds holds, for every counted label, the number of
  cells of the grid that carry it.
\<close>

lemma countOf_bump: "countOf (bump x m) c = countOf m c + (if x = c then 1 else 0)"
  by (induction x m rule: bump.induct) (auto simp: countOf_def)

lemma countOf_foldl:
  "countOf (foldl (\<lambda>m c. if P c then bump c m else m) m cs) c
     = countOf m c + (if P c then count_list cs c else 0)"
  by (induction cs arbitrary: m) (auto simp: countOf_bump)

lemma countOf_countColors:
  "countOf (countColors P cs) c = (if P c then count_list cs c else 0)"
  using countOf_foldl [of P "[]" cs c] by (simp add: countColors_def countOf_def)

text \<open>
  A loop that rewrites cells in place keeps the shape of the grid; the number of cells with a
  label can only grow through cells that the loop assigns that label.
\<close>

lemma length_mapCells: "length (mapCells f g) = length g"
  by (simp add: mapCells_def)

lemma map_length_mapCells: "map length (mapCells f g) = map length g"
proof -
  have "map length (map (\<lambda>(i, row). map (\<lambda>(j, x). f i j x) (enumerate 0 row)) (enumerate n g))
        = map length g" for n
    by (induction g arbitrary: n) auto
  then show ?thesis by (simp add: mapCells_def)
qed

lemma grid3x3_alt: "grid3x3 g = (map length g = [3, 3, 3])"
  by (auto simp: grid3x3_def length_Suc_conv numeral_3_eq_3)

lemma grid3x3_mapCells: "grid3x3 (mapCells f g) = grid3x3 g"
  by (simp add: grid3x3_alt map_length_mapCells)

lemma count_row_le:
  "(\<And>j x. h j x = c \<Longrightarrow> x = c) \<Longrightarrow>
   count_list (map (\<lambda>(j, x). h j x) (enumerate n row)) c \<le> count_list row c"
  by (induction row arbitrary: n) (auto intro: le_SucI)

lemma count_row_eq:
  "(\<And>j x. (h j x = c) = (x = c)) \<Longrightarrow>
   count_list (map (\<lambda>(j, x). h j x) (enumerate n row)) c = count_list row c"
  by (induction row arbitrary: n) auto

lemma count_list_concat: "count_list (concat xss) c = sum_list (map (\<lambda>xs. count_list xs c) xss)"
  by (induction xss) auto

lemma cnt_rows_le:
  "(\<And>i j x. f i j x = c \<Longrightarrow> x = c) \<Longrightarrow>
   count_list (concat (map (\<lambda>(i, row). map (\<lambda>(j, x). f i j x) (enumerate 0 row)) (enumerate n g))) c
     \<le> count_list (concat g) c"
proof (induction g arbitrary: n)
  case Nil
  then show ?case by simp
next
  case (Cons row g)
  have "count_list (map (\<lambda>(j, x). f n j x) (enumerate 0 row)) c \<le> count_list row c"
    by (rule count_row_le) (rule Cons.prems)
  moreover have "count_list (concat (map (\<lambda>(i, row). map (\<lambda>(j, x). f i j x) (enumerate 0 row))
      (enumerate (Suc n) g))) c \<le> count_list (concat g) c"
    by (rule Cons.IH) (rule Cons.prems)
  ultimately show ?case by simp
qed

lemma cnt_rows_eq:
  "(\<And>i j x. (f i j x = c) = (x = c)) \<Longrightarrow>
   count_list (concat (map (\<lambda>(i, row). map (\<lambda>(j, x). f i j x) (enumerate 0 row)) (enumerate n g))) c
     = count_list (concat g) c"
proof (induction g arbitrary: n)
  case Nil
  then show ?case by simp
next
  case (Cons row g)
  have "count_list (map (\<lambda>(j, x). f n j x) (enumerate 0 row)) c = count_list row c"
    by (rule count_row_eq) (rule Cons.prems)
  moreover have "count_list (concat (map (\<lambda>(i, row). map (\<lambda>(j, x). f i j x) (enumerate 0 row))
      (enumerate (Suc n) g))) c = count_list (concat g) c"
    by (rule Cons.IH) (rule Cons.prems)
  ultimately show ?case by simp
qed

lemma cnt_mapCells_le: "(\<And>i j x. f i j x = c \<Longrightarrow> x = c) \<Longrightarrow> cnt c (mapCells f g) \<le> cnt c g"
  unfolding cnt_def mapCells_def by (rule cnt_rows_le)

lemma cnt_mapCells_eq: "(\<And>i j x. (f i j x = c) = (x = c)) \<Longrightarrow> cnt c (mapCells f g) = cnt c g"
  unfolding cnt_def mapCells_def by (rule cnt_rows_eq)

lemma mapCells_const: "mapCells (\<lambda>i j. p) g = map (map p) g"
proof -
  have row: "map (\<lambda>(j, x). p x) (enumerate n row) = map p row" for n row
    by (induction row arbitrary: n) auto
  have "map (\<lambda>(i, row). map (\<lambda>(j, x). p x) (enumerate 0 row)) (enumerate n g) = map (map p) g" for n
    by (induction g arbitrary: n) (auto simp: row)
  then show ?thesis by (simp add: mapCells_def)
qed

lemma count_swap: 
  "count_list (map swapWY cs) white = count_list cs yellow"
  "count_list (map swapWY cs) yellow = count_list cs white"
  by (induction cs) (auto simp: swapWY_def)

lemma cnt_swap:
  "cnt white (map (map swapWY) g) = cnt yellow g"
  "cnt yellow (map (map swapWY) g) = cnt white g"
  unfolding cnt_def by (simp_all add: map_concat [symmetric] count_swap)

lemma count3_le:
  "a \<noteq> b \<Longrightarrow> a \<noteq> c \<Longrightarrow> b \<noteq> c \<Longrightarrow> count_list xs a + count_list xs b + count_list xs c \<le> length xs"
  by (induction xs) auto

lemma count2_le:
  "a \<noteq> b \<Longrightarrow> count_list xs a + count_list xs b \<le> length xs"
  by (induction xs) auto

lemma grid3x3_cells: "grid3x3 g \<Longrightarrow> length (concat g) = 9"
  by (auto simp: grid3x3_def length_Suc_conv numeral_3_eq_3)

text \<open>
  The reassignment loops of \<open>validateAndCorrectColors\<close> move exactly \<open>limit\<close> cells from one
  label to the other when that many exist.
\<close>

lemma recolorRow_props:
  assumes "from \<noteq> to" and "ch \<le> limit" and "recolorRow from to limit ch cs = (cs', ch')"
  shows "length cs' = length cs \<and> ch \<le> ch' \<and> ch' \<le> limit
         \<and> count_list cs' from + (ch' - ch) = count_list cs from
         \<and> count_list cs' to = count_list cs to + (ch' - ch)
         \<and> (ch' < limit \<longrightarrow> count_list cs' from = 0)"
  using assms
proof (induction "from" to limit ch cs arbitrary: cs' ch' rule: recolorRow.induct)
  case (1 "from" to limit changed)
  then show ?case by simp
next
  case (2 "from" to limit changed c cs)
  show ?case
  proof (cases "changed < limit")
    case False
    with 2 show ?thesis by auto
  next
    case lt: True
    show ?thesis
    proof (cases "c = from")
      case True
      obtain r k where rk: "recolorRow from to limit (changed + 1) cs = (r, k)"
        by (cases "recolorRow from to limit (changed + 1) cs")
      with 2(1) [OF lt True 2(3) _ rk] lt
      have "length r = length cs \<and> changed + 1 \<le> k \<and> k \<le> limit
         \<and> count_list r from + (k - (changed + 1)) = count_list cs from
         \<and> count_list r to = count_list cs to + (k - (changed + 1))
         \<and> (k < limit \<longrightarrow> count_list r from = 0)" by simp
      moreover from 2(5) lt True rk have "cs' = to # r" "ch' = k" by simp_all
      ultimately show ?thesis using True 2(3) by auto
    next
      case False
      obtain r k where rk: "recolorRow from to limit changed cs = (r, k)"
        by (cases "recolorRow from to limit changed cs")
      with 2(2) [OF lt False 2(3) 2(4) rk]
      have "length r = length cs \<and> changed \<le> k \<and> k \<le> limit
         \<and> count_list r from + (k - changed) = count_list cs from
         \<and> count_list r to = count_list cs to + (k - changed)
         \<and> (k < limit \<longrightarrow> count_list r from = 0)" by simp
      moreover from 2(5) lt False rk have "cs' = c # r" "ch' = k" by simp_all
      ultimately show ?thesis using False by auto
    qed
  qed
qed

lemma recolorGrid_props:
  assumes "from \<noteq> to" and "ch \<le> limit" and "recolorGrid from to limit ch g = (g', ch')"
  shows "map length g' = map length g \<and> ch \<le> ch' \<and> ch' \<le> limit
         \<and> cnt from g' + (ch' - ch) = cnt from g
         \<and> cnt to g' = cnt to g + (ch' - ch)
         \<and> (ch' < limit \<longrightarrow> cnt from g' = 0)"
  using assms
proof (induction "from" to limit ch g arbitrary: g' ch' rule: recolorGrid.induct)
  case (1 "from" to limit changed)
  then show ?case by (simp add: cnt_def)
next
  case (2 "from" to limit changed row rows)
  show ?case
  proof (cases "changed < limit")
    case False
    with 2 show ?thesis by auto
  next
    case lt: True
    obtain r k where rk: "recolorRow from to limit changed row = (r, k)"
      by (cases "recolorRow from to limit changed row")
    obtain rs k' where rsk: "recolorGrid from to limit k rows = (rs, k')"
      by (cases "recolorGrid from to limit k rows")
    note R = recolorRow_props [OF 2(2) 2(3) rk]
    from R have kl: "k \<le> limit" by simp
    note G = 2(1) [OF lt rk [symmetric] 2(2) kl rsk]
    from 2(4) lt rk rsk have res: "g' = r # rs" "ch' = k'" by simp_all
    from R G show ?thesis unfolding res cnt_def by auto
  qed
qed

text \<open>
  First validator: it changes nothing when at most six cells are \<open>yellow\<close> and at most six
  are \<open>orange\<close>, and its result always is such a grid.
\<close>

lemma entries_count:
  assumes "(k, n) \<in> set (countColors P cs)"
  shows "n = count_list cs k" and "P k" and "k \<in> set cs"
proof -
  from assms have "k \<in> fst ` set (countColors P cs)" by force
  then show pk: "P k" and "k \<in> set cs" by (simp_all add: countColors_keys(2))
  from assms countColors_keys(1) [of P cs] have "map_of (countColors P cs) k = Some n"
    by simp
  then have "countOf (countColors P cs) k = n" by (simp add: countOf_def)
  with pk show "n = count_list cs k" by (simp add: countOf_countColors)
qed

lemma entries_member:
  assumes "k \<in> set cs" and "P k"
  shows "(k, count_list cs k) \<in> set (countColors P cs)"
proof -
  from assms have "k \<in> fst ` set (countColors P cs)" by (simp add: countColors_keys(2))
  then obtain n where n: "(k, n) \<in> set (countColors P cs)" by force
  with entries_count(1) [OF n] show ?thesis by simp
qed

lemma foldl_id: "(\<And>e x. e \<in> set E \<Longrightarrow> stp x e = x) \<Longrightarrow> foldl stp x E = x"
  by (induction E arbitrary: x) auto

lemma foldl_single:
  assumes "distinct (map fst E)" and "(k0, n0) \<in> set E"
    and "\<And>k n x. (k, n) \<in> set E \<Longrightarrow> k \<noteq> k0 \<Longrightarrow> stp x (k, n) = x"
  shows "foldl stp x E = stp x (k0, n0)"
  using assms
proof (induction E arbitrary: x)
  case Nil
  then show ?case by simp
next
  case (Cons e E)
  show ?case
  proof (cases "e = (k0, n0)")
    case True
    have "foldl stp (stp x e) E = stp x e"
    proof (rule foldl_id)
      fix e' y assume e': "e' \<in> set E"
      obtain k n where kn: "e' = (k, n)" by (cases e')
      from Cons.prems(1) True e' kn have "k \<noteq> k0" by force
      with Cons.prems(3) [of k n y] e' kn show "stp y e' = y" by simp
    qed
    with True show ?thesis by simp
  next
    case False
    obtain k n where kn: "e = (k, n)" by (cases e)
    from Cons.prems(1,2) False kn have "k \<noteq> k0" by force
    with Cons.prems(3) [of k n x] kn have "stp x e = x" by simp
    moreover from Cons.prems False have "foldl stp x E = stp x (k0, n0)"
      by (intro Cons.IH) auto
    ultimately show ?thesis by simp
  qed
qed

lemma valid_yo: "yellow \<in> set validColors" "orange \<in> set validColors"
  by (simp_all add: validColors_def)

lemma f1_noop:
  assumes "cnt yellow x \<le> 6" and "cnt orange x \<le> 6"
  shows "validateAndCorrectColors x = x"
proof (cases "x = []")
  case True
  then show ?thesis by (simp add: validateAndCorrectColors_def)
next
  case False
  have "foldl stp x (countColors (\<lambda>c. c \<in> set validColors) (concat x)) = x"
    if stp: "\<And>y k n. stp y (k, n) = (if n > 6 then (if k = yellow \<and> n > 6 then A y n
         else if k = orange \<and> n > 6 then B y n else y) else y)" for stp A B
  proof (rule foldl_id)
    fix e y assume e: "e \<in> set (countColors (\<lambda>c. c \<in> set validColors) (concat x))"
    obtain k n where kn: "e = (k, n)" by (cases e)
    from entries_count(1) [OF e [unfolded kn]] have "n = cnt k x" by (simp add: cnt_def)
    with assms have "n > 6 \<Longrightarrow> k \<noteq> yellow \<and> k \<noteq> orange" by auto
    then show "stp y e = y" by (auto simp: kn stp)
  qed
  from this [of _ "\<lambda>y n. if countOf (countColors (\<lambda>c. c \<in> set validColors) (concat x)) orange < 3
                   then fst (recolorGrid yellow orange (n - 6) 0 y) else y"
               "\<lambda>y n. if countOf (countColors (\<lambda>c. c \<in> set validColors) (concat x)) red < 3
                   then fst (recolorGrid orange red (n - 6) 0 y) else y"] False
  show ?thesis
    by (simp add: validateAndCorrectColors_def Let_def)
qed

lemma cnt2_le9:
  assumes "grid3x3 g" and "a \<noteq> b"
  shows "cnt a g + cnt b g \<le> 9"
  using count2_le [OF assms(2), of "concat g"] grid3x3_cells [OF assms(1)] by (simp add: cnt_def)

lemma cnt3_le9:
  assumes "grid3x3 g" and "a \<noteq> b" "a \<noteq> c" "b \<noteq> c"
  shows "cnt a g + cnt b g + cnt c g \<le> 9"
  using count3_le [OF assms(2-4), of "concat g"] grid3x3_cells [OF assms(1)] by (simp add: cnt_def)

lemma f1_single:
  assumes g: "grid3x3 g" and big: "cnt k0 g > 6" and k0: "k0 \<in> set validColors"
    and stp: "\<And>y k n. stp y (k, n) = (if n > 6 then (if k = yellow \<and> n > 6 then A y n
         else if k = orange \<and> n > 6 then B y n else y) else y)"
  shows "foldl stp g (countColors (\<lambda>c. c \<in> set validColors) (concat g)) = stp g (k0, cnt k0 g)"
proof (rule foldl_single)
  show "distinct (map fst (countColors (\<lambda>c. c \<in> set validColors) (concat g)))"
    by (rule countColors_keys(1))
  from big have "k0 \<in> set (concat g)"
    by (metis cnt_def count_notin not_less0)
  from entries_member [OF this, of "\<lambda>c. c \<in> set validColors"] k0
  show "(k0, cnt k0 g) \<in> set (countColors (\<lambda>c. c \<in> set validColors) (concat g))"
    by (simp add: cnt_def)
next
  fix k n y
  assume kn: "(k, n) \<in> set (countColors (\<lambda>c. c \<in> set validColors) (concat g))" and ne: "k \<noteq> k0"
  from entries_count(1) [OF kn] have "n = cnt k g" by (simp add: cnt_def)
  with cnt2_le9 [OF g ne] big have "\<not> n > 6" by simp
  then show "stp y (k, n) = y" by (simp add: stp)
qed

lemma f1_yellow:
  assumes g: "grid3x3 g" and big: "cnt yellow g > 6"
  shows "validateAndCorrectColors g = fst (recolorGrid yellow orange (cnt yellow g - 6) 0 g)"
proof -
  from g have ne: "g \<noteq> []" by (auto simp: grid3x3_def)
  from cnt2_le9 [OF g, of yellow orange] big have "cnt orange g < 3" by simp
  then have o: "countOf (countColors (\<lambda>c. c \<in> set validColors) (concat g)) orange < 3"
    by (simp add: countOf_countColors cnt_def valid_yo)
  show ?thesis
    unfolding validateAndCorrectColors_def Let_def
    by (subst f1_single [OF g big valid_yo(1)]) (use ne o big in auto)
qed

lemma f1_orange:
  assumes g: "grid3x3 g" and big: "cnt orange g > 6"
  shows "validateAndCorrectColors g = fst (recolorGrid orange red (cnt orange g - 6) 0 g)"
proof -
  from g have ne: "g \<noteq> []" by (auto simp: grid3x3_def)
  from cnt2_le9 [OF g, of orange red] big have "cnt red g < 3" by simp
  then have o: "countOf (countColors (\<lambda>c. c \<in> set validColors) (concat g)) red < 3"
    by (simp add: countOf_countColors cnt_def validColors_def)
  show ?thesis
    unfolding validateAndCorrectColors_def Let_def
    by (subst f1_single [OF g big valid_yo(2)]) (use ne o big in auto)
qed

lemma recolor_exact:
  assumes "from \<noteq> to" and "limit \<le> cnt from g"
  shows "map length (fst (recolorGrid from to limit 0 g)) = map length g"
    and "cnt from (fst (recolorGrid from to limit 0 g)) + limit = cnt from g"
    and "cnt to (fst (recolorGrid from to limit 0 g)) = cnt to g + limit"
proof -
  obtain g' ch' where r: "recolorGrid from to limit 0 g = (g', ch')"
    by (cases "recolorGrid from to limit 0 g")
  note P = recolorGrid_props [OF assms(1) _ r, simplified]
  from P assms(2) have "ch' = limit" by (cases "ch' < limit") auto
  with P r show "map length (fst (recolorGrid from to limit 0 g)) = map length g"
    and "cnt from (fst (recolorGrid from to limit 0 g)) + limit = cnt from g"
    and "cnt to (fst (recolorGrid from to limit 0 g)) = cnt to g + limit"
    by simp_all
qed

lemma f1_facts:
  assumes g: "grid3x3 g"
  shows "grid3x3 (validateAndCorrectColors g)"
    and "cnt yellow (validateAndCorrectColors g) \<le> 6"
    and "cnt orange (validateAndCorrectColors g) \<le> 6"
proof -
  let ?g1 = "validateAndCorrectColors g"
  have "grid3x3 ?g1 \<and> cnt yellow ?g1 \<le> 6 \<and> cnt orange ?g1 \<le> 6"
  proof -
    consider "cnt yellow g > 6" | "cnt orange g > 6" | "cnt yellow g \<le> 6" "cnt orange g \<le> 6"
      by linarith
    then show ?thesis
    proof cases
      case 1
      have l: "cnt yellow g - 6 \<le> cnt yellow g" by simp
      note R = recolor_exact [OF _ l, of orange, simplified]
      from R(1) g have g1: "grid3x3 ?g1" by (simp add: f1_yellow [OF g 1] grid3x3_alt)
      from R(2) 1 have y: "cnt yellow ?g1 = 6" by (simp add: f1_yellow [OF g 1])
      with cnt2_le9 [OF g1, of yellow orange] g1 show ?thesis by simp
    next
      case 2
      have l: "cnt orange g - 6 \<le> cnt orange g" by simp
      note R = recolor_exact [OF _ l, of red, simplified]
      from R(1) g have g1: "grid3x3 ?g1" by (simp add: f1_orange [OF g 2] grid3x3_alt)
      from R(2) 2 have y: "cnt orange ?g1 = 6" by (simp add: f1_orange [OF g 2])
      with cnt2_le9 [OF g1, of yellow orange] g1 show ?thesis by simp
    next
      case 3
      with g show ?thesis by (simp add: f1_noop)
    qed
  qed
  then show "grid3x3 ?g1" "cnt yellow ?g1 \<le> 6" "cnt orange ?g1 \<le> 6" by simp_all
qed

text \<open>
  Second validator on a 3x3 grid: the exchange of \<open>white\<close> and \<open>yellow\<close> under \<open>swapCond\<close>,
  then \<open>edgeRed\<close> under \<open>redCond\<close>, both conditions read from the counts of the grid it
  was given.
\<close>

lemma grid3x3E:
  assumes "grid3x3 g"
  obtains a b c d e f p q r where "g = [[a, b, c], [d, e, f], [p, q, r]]"
proof -
  from assms obtain r0 r1 r2 where g: "g = [r0, r1, r2]"
    by (auto simp: grid3x3_def length_Suc_conv numeral_3_eq_3)
  from assms g have "length r0 = 3" "length r1 = 3" "length r2 = 3"
    by (auto simp: grid3x3_def)
  then obtain a b c d e f p q r where "r0 = [a, b, c]" "r1 = [d, e, f]" "r2 = [p, q, r]"
    by (auto simp: length_Suc_conv numeral_3_eq_3)
  with g show ?thesis using that by blast
qed

lemma mapCells_3x3:
  "mapCells f [[a, b, c], [d, e, f'], [p, q, r]]
   = [[f 0 0 a, f 0 1 b, f 0 2 c], [f 1 0 d, f 1 1 e, f 1 2 f'], [f 2 0 p, f 2 1 q, f 2 2 r]]"
  by (simp add: mapCells_def enumerate_eq_zip upt_rec_numeral numeral_2_eq_2)

lemma centre_positions:
  assumes "grid3x3 g"
  shows "list_ex (\<lambda>(row, col). row = 1 \<and> col = 1) (positions c g) = (centre g = c)"
  using assms
  by (elim grid3x3E) (auto simp: positions_def centre_def enumerate_eq_zip upt_rec_numeral)

lemma cnt_pos: "cnt c g > 0 \<longleftrightarrow> c \<in> set (concat g)"
  by (metis cnt_def count_list_0_iff gr0I not_gr_zero)

lemma centre_in: "grid3x3 g \<Longrightarrow> centre g \<in> set (concat g)"
  by (elim grid3x3E) (simp add: centre_def)

lemma mapCells_id: "(\<And>i j c. f i j c = c) \<Longrightarrow> mapCells f g = g"
proof -
  assume f: "\<And>i j c. f i j c = c"
  have "f = (\<lambda>i j. id)" by (intro ext) (simp add: f)
  then show ?thesis by (simp add: mapCells_const)
qed

lemma f2_form:
  assumes g: "grid3x3 g"
  shows "validateColorConfusion g =
     (let y = (if swapCond g then map (map swapWY) g else g)
      in if redCond g then mapCells edgeRed y else y)"
proof -
  from g have ne: "g \<noteq> []" by (auto simp: grid3x3_def)
  have c: "countOf (countColors (\<lambda>c. c \<noteq> unknown) (concat g)) k = cnt k g" if "k \<noteq> unknown" for k
    using that by (simp add: countOf_countColors cnt_def)
  have sw: "(\<lambda>rowIndex colIndex color. if color = white then yellow
              else if color = yellow then white else color) = (\<lambda>i j. swapWY)"
    by (simp add: swapWY_def fun_eq_iff)
  have swc: "(0 < cnt white g \<and> 0 < cnt yellow g \<and> centre g = white \<and> centre g \<noteq> yellow) = swapCond g"
    using centre_in [OF g] by (auto simp: swapCond_def cnt_pos)
  have er: "(\<lambda>rowIndex colIndex color.
                  if color = orange then
                    (if (rowIndex = 0 \<or> rowIndex = 2 \<or> colIndex = 0 \<or> colIndex = 2)
                         \<and> 2 < cnt orange g then red else color)
                  else color) = (if cnt orange g > 2 then edgeRed else (\<lambda>i j c. c))"
    by (auto simp: edgeRed_def fun_eq_iff)
  have c4: "countOf (countColors (\<lambda>c. c \<noteq> unknown) (concat g)) white = cnt white g"
    "countOf (countColors (\<lambda>c. c \<noteq> unknown) (concat g)) yellow = cnt yellow g"
    "countOf (countColors (\<lambda>c. c \<noteq> unknown) (concat g)) orange = cnt orange g"
    "countOf (countColors (\<lambda>c. c \<noteq> unknown) (concat g)) red = cnt red g"
    by (simp_all add: c)
  have idm: "mapCells (\<lambda>i j c. c) y = y" for y
    by (rule mapCells_id) simp
  have "validateColorConfusion g =
     (let y = (if 0 < cnt white g \<and> 0 < cnt yellow g \<and> centre g = white \<and> centre g \<noteq> yellow
               then map (map swapWY) g else g)
      in if 0 < cnt orange g \<and> 0 < cnt red g
         then (if cnt red g < cnt orange g
               then mapCells (if cnt orange g > 2 then edgeRed else (\<lambda>i j c. c)) y else y)
         else y)"
    unfolding validateColorConfusion_def Let_def
    apply (simp only: ne if_False c4 centre_positions [OF g] sw mapCells_const er)
    apply (simp add: er)
    done
  also have "\<dots> = (let y = (if swapCond g then map (map swapWY) g else g)
      in if redCond g then mapCells edgeRed y else y)"
    unfolding swc Let_def by (auto simp: redCond_def idm)
  finally show ?thesis .
qed

lemma grid3x3_map: "grid3x3 (map (map p) g) = grid3x3 g"
  by (simp add: grid3x3_alt comp_def)

lemma count_swap_other:
  "k \<noteq> white \<Longrightarrow> k \<noteq> yellow \<Longrightarrow> count_list (map swapWY cs) k = count_list cs k"
  by (induction cs) (auto simp: swapWY_def)

lemma cnt_swap_other: "k \<noteq> white \<Longrightarrow> k \<noteq> yellow \<Longrightarrow> cnt k (map (map swapWY) g) = cnt k g"
  unfolding cnt_def by (simp add: map_concat [symmetric] count_swap_other)

lemma cnt_edgeRed_other: "k \<noteq> orange \<Longrightarrow> k \<noteq> red \<Longrightarrow> cnt k (mapCells edgeRed y) = cnt k y"
  by (rule cnt_mapCells_eq) (auto simp: edgeRed_def)

lemma cnt_edgeRed_orange: "cnt orange (mapCells edgeRed y) \<le> cnt orange y"
  by (rule cnt_mapCells_le) (auto simp: edgeRed_def split: if_splits)

lemma cnt_centre_only:
  assumes "grid3x3 y" and "\<And>i j c. i = 0 \<or> i = 2 \<or> j = 0 \<or> j = 2 \<Longrightarrow> f i j c \<noteq> k"
  shows "cnt k (mapCells f y) \<le> 1"
  using assms(1)
  by (elim grid3x3E) (simp add: mapCells_3x3 cnt_def assms(2))

lemma centre_map: "grid3x3 g \<Longrightarrow> centre (map (map p) g) = p (centre g)"
  by (elim grid3x3E) (simp add: centre_def)

lemma centre_mapCells: "grid3x3 g \<Longrightarrow> centre (mapCells f g) = f 1 1 (centre g)"
  by (elim grid3x3E) (simp add: centre_def mapCells_3x3)

lemma centre_edgeRed: "grid3x3 g \<Longrightarrow> centre (mapCells edgeRed g) = centre g"
  by (simp add: centre_mapCells edgeRed_def)

lemma f2_grid:
  assumes "grid3x3 x"
  shows "grid3x3 (validateColorConfusion x)"
  using assms by (simp add: f2_form Let_def grid3x3_mapCells grid3x3_map)

lemma f2_orange:
  assumes "grid3x3 x"
  shows "cnt orange (validateColorConfusion x) \<le> cnt orange x"
proof -
  have "cnt orange (mapCells edgeRed y) \<le> cnt orange x" if "cnt orange y = cnt orange x" for y
    using cnt_edgeRed_orange [of y] that by simp
  then show ?thesis
    using assms by (simp add: f2_form Let_def cnt_swap_other)
qed

lemma f2_yellow:
  assumes x: "grid3x3 x" and big: "cnt yellow (validateColorConfusion x) > 6" and le: "cnt yellow x \<le> 6"
  shows "cnt white (validateColorConfusion x) \<ge> 1"
proof -
  have sw: "swapCond x"
  proof (rule ccontr)
    assume "\<not> swapCond x"
    then have "cnt yellow (validateColorConfusion x) = cnt yellow x"
      using x by (simp add: f2_form Let_def cnt_edgeRed_other)
    with big le show False by simp
  qed
  then have "cnt white (validateColorConfusion x) = cnt yellow x"
    using x by (simp add: f2_form Let_def cnt_edgeRed_other cnt_swap)
  with sw show ?thesis by (simp add: swapCond_def)
qed

lemma f2_idem:
  assumes x: "grid3x3 x"
  shows "validateColorConfusion (validateColorConfusion x) = validateColorConfusion x"
proof -
  let ?x' = "validateColorConfusion x"
  define y where "y = (if swapCond x then map (map swapWY) x else x)"
  have x': "?x' = (if redCond x then mapCells edgeRed y else y)"
    using x by (simp add: f2_form y_def Let_def)
  have gy: "grid3x3 y" using x by (simp add: y_def grid3x3_map)
  have gx': "grid3x3 ?x'" by (rule f2_grid [OF x])
  have cy: "centre ?x' = centre y" using gy by (simp add: x' centre_edgeRed)
  have yy: "cnt yellow ?x' = cnt yellow y" by (simp add: x' cnt_edgeRed_other)
  have ns: "\<not> swapCond ?x'"
  proof (cases "swapCond x")
    case True
    then have "centre y = yellow" using x by (simp add: y_def centre_map swapCond_def swapWY_def)
    with cy show ?thesis by (simp add: swapCond_def)
  next
    case False
    then have "y = x" by (simp add: y_def)
    with cy yy False show ?thesis by (simp add: swapCond_def)
  qed
  have nr: "\<not> redCond ?x'"
  proof (cases "redCond x")
    case True
    have "cnt orange (mapCells edgeRed y) \<le> 1"
      by (rule cnt_centre_only [OF gy]) (auto simp: edgeRed_def)
    with True show ?thesis by (simp add: x' redCond_def)
  next
    case False
    have "cnt orange y = cnt orange x" "cnt red y = cnt red x"
      by (simp_all add: y_def cnt_swap_other)
    then have "redCond y = redCond x" by (simp add: redCond_def)
    moreover from False have "?x' = y" by (simp add: x')
    ultimately show ?thesis using False by simp
  qed
  from ns nr show ?thesis by (simp add: f2_form [OF gx'])
qed

text \<open>
  Third validator: with more than six \<open>yellow\<close> and fewer than two \<open>blue\<close> cells it
  reassigns a cell.
\<close>

lemma f3_changes:
  assumes x: "grid3x3 x" and y: "cnt yellow x > 6" and b: "cnt blue x < 2"
  shows "validateBlueYellowConfusion x \<noteq> x"
proof -
  from x have ne: "x \<noteq> []" by (auto simp: grid3x3_def)
  have c: "countOf (countColors (\<lambda>c. True) (concat x)) k = cnt k x" for k
    by (simp add: countOf_countColors cnt_def)
  have fn: "(\<lambda>i j c. if c = yellow then
                     (let isEdgeOrCorner = (i = 0 \<or> i = 2 \<or> j = 0 \<or> j = 2)
                      in if isEdgeOrCorner \<and> cnt yellow x > 4 then blue else c)
                   else c) = yellowToBlue"
    using y by (auto simp: yellowToBlue_def fun_eq_iff)
  have "validateBlueYellowConfusion x = mapCells yellowToBlue x"
    unfolding validateBlueYellowConfusion_def Let_def c
    using y b ne fn [unfolded Let_def] by simp
  moreover have "cnt yellow (mapCells yellowToBlue x) \<le> 1"
    by (rule cnt_centre_only [OF x]) (auto simp: yellowToBlue_def)
  ultimately show ?thesis using y by auto
qed

text \<open>
  Claim C3, as the code has it.  For every 3x3 grid \<open>g\<close> of labels: if
  \<open>validateBlueYellowConfusion\<close> reassigns no cell in the first run of the correction pass
  (the grid that \<open>validateColorConfusion\<close> hands to it comes back unchanged), then running
  the pass on its own result changes nothing; and each of the first two validators,
  \<open>validateAndCorrectColors\<close> and \<open>validateColorConfusion\<close>, is idempotent on its own.
\<close>

theorem correction_pass_idempotent_if_third_stage_idle:
  assumes g: "grid3x3 g"
  shows "(validateBlueYellowConfusion (validateColorConfusion (validateAndCorrectColors g))
            = validateColorConfusion (validateAndCorrectColors g)
           \<longrightarrow> correctionPass (correctionPass g) = correctionPass g)
         \<and> validateAndCorrectColors (validateAndCorrectColors g) = validateAndCorrectColors g
         \<and> validateColorConfusion (validateColorConfusion g) = validateColorConfusion g"
proof -
  let ?g1 = "validateAndCorrectColors g"
  let ?g2 = "validateColorConfusion ?g1"
  note F1 = f1_facts [OF g]
  have g2: "grid3x3 ?g2" by (rule f2_grid [OF F1(1)])
  have i1: "validateAndCorrectColors ?g1 = ?g1"
    by (rule f1_noop [OF F1(2,3)])
  have i2: "validateColorConfusion (validateColorConfusion g) = validateColorConfusion g"
    by (rule f2_idem [OF g])
  have "correctionPass (correctionPass g) = correctionPass g"
    if idle: "validateBlueYellowConfusion ?g2 = ?g2"
  proof -
    have o: "cnt orange ?g2 \<le> 6" using f2_orange [OF F1(1)] F1(3) by simp
    have y: "cnt yellow ?g2 \<le> 6"
    proof (rule ccontr)
      assume "\<not> cnt yellow ?g2 \<le> 6"
      then have big: "cnt yellow ?g2 > 6" by simp
      from f2_yellow [OF F1(1) big F1(2)] have "cnt white ?g2 \<ge> 1" .
      with cnt3_le9 [OF g2, of yellow white blue] big have "cnt blue ?g2 < 2" by simp
      from f3_changes [OF g2 big this] idle show False by simp
    qed
    have a: "validateAndCorrectColors ?g2 = ?g2" by (rule f1_noop [OF y o])
    have b: "validateColorConfusion ?g2 = ?g2" by (rule f2_idem [OF F1(1)])
    show ?thesis by (simp add: correctionPass_def idle a b)
  qed
  with i1 i2 show ?thesis by simp
qed

lemmas corrector_eval =
  validateAndCorrectColors_def validateColorConfusion_def validateBlueYellowConfusion_def
  countColors_def countOf_def validColors_def mapCells_def positions_def Let_def

text \<open>The validators on concrete grids.\<close>

lemma eval_f1_allYellow:
  "validateAndCorrectColors allYellow =
     [[orange, orange, orange], [yellow, yellow, yellow], [yellow, yellow, yellow]]"
  by (simp add: corrector_eval allYellow_def)

lemma eval_f2_a:
  "validateColorConfusion [[orange, orange, orange], [yellow, yellow, yellow], [yellow, yellow, yellow]] =
     [[orange, orange, orange], [yellow, yellow, yellow], [yellow, yellow, yellow]]"
  by (simp add: corrector_eval)

lemma eval_f3_a:
  "validateBlueYellowConfusion [[orange, orange, orange], [yellow, yellow, yellow], [yellow, yellow, yellow]] =
     [[orange, orange, orange], [blue, yellow, blue], [blue, blue, blue]]"
  by (simp add: corrector_eval)

lemma eval_pass1: "correctionPass allYellow = [[orange, orange, orange], [blue, yellow, blue], [blue, blue, blue]]"
  by (simp add: correctionPass_def eval_f1_allYellow eval_f2_a eval_f3_a)

lemma eval_f1_b:
  "validateAndCorrectColors [[orange, orange, orange], [blue, yellow, blue], [blue, blue, blue]] =
     [[orange, orange, orange], [blue, yellow, blue], [blue, blue, blue]]"
  by (simp add: corrector_eval)

lemma eval_f2_b:
  "validateColorConfusion [[orange, orange, orange], [blue, yellow, blue], [blue, blue, blue]] =
     [[orange, orange, orange], [blue, yellow, blue], [blue, blue, blue]]"
  by (simp add: corrector_eval)

lemma eval_f3_b:
  "validateBlueYellowConfusion [[orange, orange, orange], [blue, yellow, blue], [blue, blue, blue]] =
     [[orange, orange, orange], [yellow, yellow, yellow], [blue, yellow, blue]]"
  by (simp add: corrector_eval)

text \<open>
  The pass is not idempotent on every 3x3 grid.  On the grid of nine \<open>yellow\<close> labels the
  first run turns the first three cells \<open>orange\<close> and then, six \<open>yellow\<close> and no \<open>blue\<close>
  being left, every \<open>yellow\<close> outside the centre \<open>blue\<close>; the second run meets five \<open>blue\<close>
  and one \<open>yellow\<close> and turns the \<open>blue\<close> cells of the middle row and column \<open>yellow\<close>.
\<close>

theorem correction_pass_not_idempotent:
  "grid3x3 allYellow \<and>
   correctionPass allYellow = [[orange, orange, orange], [blue, yellow, blue], [blue, blue, blue]] \<and>
   correctionPass (correctionPass allYellow) =
     [[orange, orange, orange], [yellow, yellow, yellow], [blue, yellow, blue]] \<and>
   correctionPass (correctionPass allYellow) \<noteq> correctionPass allYellow"
proof -
  have g: "grid3x3 allYellow" by (simp add: grid3x3_def allYellow_def)
  have p2: "correctionPass [[orange, orange, orange], [blue, yellow, blue], [blue, blue, blue]] =
     [[orange, orange, orange], [yellow, yellow, yellow], [blue, yellow, blue]]"
    by (simp add: correctionPass_def eval_f1_b eval_f2_b eval_f3_b)
  show ?thesis by (simp add: g eval_pass1 p2)
qed

text \<open>
  The theorem at the face \<open>mixedFace\<close>, whose white centre makes the second validator exchange
  \<open>white\<close> and \<open>yellow\<close> and which the third validator leaves alone.
\<close>

theorem correction_pass_idempotent_if_third_stage_idle_witness:
  "grid3x3 mixedFace \<and>
   validateBlueYellowConfusion (validateColorConfusion (validateAndCorrectColors mixedFace))
     = validateColorConfusion (validateAndCorrectColors mixedFace) \<and>
   correctionPass mixedFace = [[yellow, red, green], [yellow, yellow, blue], [orange, white, green]] \<and>
   correctionPass (correctionPass mixedFace) = correctionPass mixedFace"
  using correction_pass_idempotent_if_third_stage_idle [of mixedFace]
  by (simp add: corrector_eval mixedFace_def grid3x3_def correctionPass_def)


end
